(* ===== verification/Prelude.thy ===== *)
theory Prelude
  imports
    Main
    "HOL-Library.Word"
    "HOL-Library.Char_ord"
    "HOL-Library.List_Lexorder"
    "HOL-Library.Product_Lexorder"
    "HOL-Library.Multiset"
    "HOL-Library.Code_Target_Nat"
begin

text \<open>
  Shared vocabulary of the development: machine integers, byte strings and the parts of the Go
  standard library (\<open>strings\<close>, \<open>strconv\<close>, \<open>sort\<close>) that the operator calls, together with the
  generic list and string lemmas the component theories rest on.

  A Go \<open>string\<close> is a sequence of bytes and is modelled by \<^typ>\<open>string\<close> (a HOL \<^typ>\<open>char\<close> is a
  byte). Go's \<open><\<close> on strings is the bytewise lexicographic order, which is the instance that
  \<open>List_Lexorder\<close> and \<open>Char_ord\<close> give to \<^typ>\<open>string\<close>. \<open>strings.ToLower\<close> and
  \<open>strings.EqualFold\<close> are modelled on their ASCII part: bytes outside \<open>A..Z\<close> are left alone, so
  the model is exact for ASCII text, which is what SQL keywords, column names and Kubernetes
  names are.
\<close>

unbundle bit_operations_syntax

named_theorems go_lib \<open>evaluation of the modelled part of the Go standard library\<close>

type_synonym u8 = "8 word"
type_synonym u32 = "32 word"
type_synonym ('e, 'a) result = "'e + 'a"

section \<open>Go library definitions\<close>

subsection \<open>Package \<open>strings\<close>\<close>

definition lower_byte :: "char \<Rightarrow> char" where
  "lower_byte c = (if CHR ''A'' \<le> c \<and> c \<le> CHR ''Z'' then char_of ((of_char c :: nat) + 32) else c)"

definition ToLower :: "string \<Rightarrow> string" where
  "ToLower s = map lower_byte s"

definition EqualFold :: "string \<Rightarrow> string \<Rightarrow> bool" where
  "EqualFold s t \<longleftrightarrow> ToLower s = ToLower t"

fun HasPrefix :: "string \<Rightarrow> string \<Rightarrow> bool" where
  "HasPrefix s [] = True"
| "HasPrefix [] (p # ps) = False"
| "HasPrefix (c # s) (p # ps) = (c = p \<and> HasPrefix s ps)"

definition TrimPrefix :: "string \<Rightarrow> string \<Rightarrow> string" where
  "TrimPrefix s p = (if HasPrefix s p then drop (length p) s else s)"

text \<open>\<open>strings.Index\<close>: the least offset at which the substring starts, \<open>None\<close> for \<open>-1\<close>.\<close>

fun str_Index :: "string \<Rightarrow> string \<Rightarrow> nat option" where
  "str_Index [] p = (if p = [] then Some 0 else None)"
| "str_Index (c # s) p = (if HasPrefix (c # s) p then Some 0 else map_option Suc (str_Index s p))"

definition str_Contains :: "string \<Rightarrow> string \<Rightarrow> bool" where
  "str_Contains s p \<longleftrightarrow> str_Index s p \<noteq> None"

text \<open>ASCII white space of \<open>strings.TrimSpace\<close>.\<close>

definition is_space :: "char \<Rightarrow> bool" where
  "is_space c \<longleftrightarrow> c = CHR '' '' \<or> c = CHR 0x09 \<or> c = CHR 0x0A \<or> c = CHR 0x0B \<or> c = CHR 0x0C \<or> c = CHR 0x0D"

definition trim_with :: "(char \<Rightarrow> bool) \<Rightarrow> string \<Rightarrow> string" where
  "trim_with P s = rev (dropWhile P (rev (dropWhile P s)))"

definition TrimSpace :: "string \<Rightarrow> string" where
  "TrimSpace s = trim_with is_space s"

text \<open>\<open>strings.TrimRight\<close> with the cutset given as a predicate.\<close>

definition TrimRight :: "(char \<Rightarrow> bool) \<Rightarrow> string \<Rightarrow> string" where
  "TrimRight P s = rev (dropWhile P (rev s))"

text \<open>\<open>strings.Split(s, sep)\<close> for a separator of one byte.\<close>

fun str_Split :: "char \<Rightarrow> string \<Rightarrow> string list" where
  "str_Split sep [] = [[]]"
| "str_Split sep (c # s) =
     (if c = sep then [] # str_Split sep s
      else case str_Split sep s of [] \<Rightarrow> [[c]] | w # ws \<Rightarrow> (c # w) # ws)"

fun str_Join :: "string \<Rightarrow> string list \<Rightarrow> string" where
  "str_Join sep [] = []"
| "str_Join sep [w] = w"
| "str_Join sep (w # v # ws) = w @ sep @ str_Join sep (v # ws)"

subsection \<open>Package \<open>strconv\<close> and \<open>fmt\<close>\<close>

definition digit_char :: "nat \<Rightarrow> char" where
  "digit_char n = ''0123456789abcdef'' ! n"

fun itoa_nat :: "nat \<Rightarrow> string" where
  "itoa_nat n = (if n < 10 then [digit_char n] else itoa_nat (n div 10) @ [digit_char (n mod 10)])"

declare itoa_nat.simps [simp del]

definition Itoa :: "int \<Rightarrow> string" where
  "Itoa i = (if i < 0 then CHR ''-'' # itoa_nat (nat (- i)) else itoa_nat (nat i))"

text \<open>The low \<open>w\<close> hexadecimal digits of \<open>n\<close>, most significant first: the verb \<open>%0wx\<close> for a value
  of at most \<open>w\<close> digits.\<close>

fun fixed_hex :: "nat \<Rightarrow> nat \<Rightarrow> string" where
  "fixed_hex 0 n = []"
| "fixed_hex (Suc w) n = fixed_hex w (n div 16) @ [digit_char (n mod 16)]"

text \<open>The value of one digit as \<open>strconv.ParseUint\<close> reads it: \<open>0..9\<close>, then letters of either case.\<close>

definition digit_val :: "char \<Rightarrow> nat option" where
  "digit_val c =
     (if CHR ''0'' \<le> c \<and> c \<le> CHR ''9'' then Some (of_char c - 48)
      else if CHR ''a'' \<le> lower_byte c \<and> lower_byte c \<le> CHR ''z'' then Some (of_char (lower_byte c) - 87)
      else None)"

text \<open>The digit loop of \<open>ParseUint\<close>. Underscores are skipped when the base argument was 0. The
  library also tests for 64-bit overflow of the running value; a value that overflows exceeds
  \<open>maxVal\<close>, so the test against \<open>maxVal\<close> covers both errors.\<close>

fun parse_digits :: "bool \<Rightarrow> nat \<Rightarrow> nat \<Rightarrow> nat \<Rightarrow> string \<Rightarrow> nat option" where
  "parse_digits base0 base maxVal n [] = Some n"
| "parse_digits base0 base maxVal n (c # s) =
     (if c = CHR ''_'' \<and> base0 then parse_digits base0 base maxVal n s
      else case digit_val c of
             None \<Rightarrow> None
           | Some d \<Rightarrow>
               if base \<le> d then None
               else if maxVal < n * base + d then None
               else parse_digits base0 base maxVal (n * base + d) s)"

text \<open>\<open>underscoreOK\<close> of \<open>strconv\<close>: an underscore must separate digits. The character class last
  seen is \<open>^\<close> (start), \<open>0\<close> (digit or prefix), \<open>_\<close> or \<open>!\<close>.\<close>

fun underscore_scan :: "bool \<Rightarrow> char \<Rightarrow> string \<Rightarrow> bool" where
  "underscore_scan hex saw [] = (saw \<noteq> CHR ''_'')"
| "underscore_scan hex saw (c # s) =
     (if CHR ''0'' \<le> c \<and> c \<le> CHR ''9'' \<or> hex \<and> CHR ''a'' \<le> lower_byte c \<and> lower_byte c \<le> CHR ''f''
      then underscore_scan hex CHR ''0'' s
      else if c = CHR ''_'' then (if saw \<noteq> CHR ''0'' then False else underscore_scan hex CHR ''_'' s)
      else if saw = CHR ''_'' then False
      else underscore_scan hex CHR ''!'' s)"

definition underscoreOK :: "string \<Rightarrow> bool" where
  "underscoreOK s0 =
     (let s = (if s0 \<noteq> [] \<and> (hd s0 = CHR ''-'' \<or> hd s0 = CHR ''+'') then tl s0 else s0) in
      if 2 \<le> length s \<and> s ! 0 = CHR ''0'' \<and> lower_byte (s ! 1) \<in> {CHR ''b'', CHR ''o'', CHR ''x''}
      then underscore_scan (lower_byte (s ! 1) = CHR ''x'') CHR ''0'' (drop 2 s)
      else underscore_scan False CHR ''^'' s)"

text \<open>The base prefix that \<open>ParseUint(s, 0, _)\<close> recognises, with the digits that follow it.\<close>

definition parse_prefix :: "string \<Rightarrow> nat \<times> string" where
  "parse_prefix s =
     (if s \<noteq> [] \<and> hd s = CHR ''0'' then
        (if 3 \<le> length s \<and> lower_byte (s ! 1) = CHR ''b'' then (2, drop 2 s)
         else if 3 \<le> length s \<and> lower_byte (s ! 1) = CHR ''o'' then (8, drop 2 s)
         else if 3 \<le> length s \<and> lower_byte (s ! 1) = CHR ''x'' then (16, drop 2 s)
         else (8, drop 1 s))
      else (10, s))"

definition ParseUint :: "string \<Rightarrow> nat \<Rightarrow> nat \<Rightarrow> nat option" where
  "ParseUint s base bitSize =
     (if s = [] then None
      else let (b, ds) = (if base = 0 then parse_prefix s else (base, s)) in
           case parse_digits (base = 0) b (2 ^ bitSize - 1) 0 ds of
             None \<Rightarrow> None
           | Some n \<Rightarrow> if base = 0 \<and> CHR ''_'' \<in> set ds \<and> \<not> underscoreOK s then None else Some n)"

subsection \<open>Machine integers\<close>

text \<open>Values of Go's \<open>int64\<close> and \<open>int32\<close>, with the wrap-around of their arithmetic.\<close>

definition wrap64 :: "int \<Rightarrow> int" where
  "wrap64 i = (i + 2 ^ 63) mod 2 ^ 64 - 2 ^ 63"

definition wrap32 :: "int \<Rightarrow> int" where
  "wrap32 i = (i + 2 ^ 31) mod 2 ^ 32 - 2 ^ 31"

lemma wrap64_id: "- (2 ^ 63) \<le> i \<Longrightarrow> i < 2 ^ 63 \<Longrightarrow> wrap64 i = i"
  unfolding wrap64_def by (subst mod_pos_pos_trivial) auto

subsection \<open>Package \<open>sort\<close>\<close>

text \<open>\<open>sort.Search(n, f)\<close>, its loop over \<open>[i, j)\<close> with \<open>h = (i + j) / 2\<close>.\<close>

function search_loop :: "(nat \<Rightarrow> bool) \<Rightarrow> nat \<Rightarrow> nat \<Rightarrow> nat" where
  "search_loop f i j =
     (if i < j then
        (let h = (i + j) div 2 in if \<not> f h then search_loop f (h + 1) j else search_loop f i h)
      else i)"
  by pat_completeness auto
termination
  by (relation "measure (\<lambda>(f, i, j). j - i)") (auto simp: Let_def)

declare search_loop.simps [simp del]

definition sort_Search :: "nat \<Rightarrow> (nat \<Rightarrow> bool) \<Rightarrow> nat" where
  "sort_Search n f = search_loop f 0 n"

subsection \<open>Collecting distinct values\<close>

text \<open>The \<open>seen\<close>-map idiom: keep the first occurrence of every value, in order of appearance.\<close>

fun collect_distinct :: "'a set \<Rightarrow> 'a list \<Rightarrow> 'a list" where
  "collect_distinct seen [] = []"
| "collect_distinct seen (x # xs) =
     (if x \<in> seen then collect_distinct seen xs else x # collect_distinct (insert x seen) xs)"

text \<open>\<open>strconv.Atoi\<close> on a platform with 64-bit \<open>int\<close>.\<close>

definition Atoi :: "string \<Rightarrow> int option" where
  "Atoi s =
     (let neg = HasPrefix s ''-'';
          ds = (if neg \<or> HasPrefix s ''+'' then drop 1 s else s)
      in case ParseUint ds 10 64 of
           None \<Rightarrow> None
         | Some n \<Rightarrow>
             if neg then (if n \<le> 2 ^ 63 then Some (- int n) else None)
             else (if n < 2 ^ 63 then Some (int n) else None))"

lemmas [go_lib] = Atoi_def
  lower_byte_def ToLower_def EqualFold_def TrimPrefix_def str_Contains_def is_space_def trim_with_def
  TrimSpace_def TrimRight_def digit_char_def Itoa_def digit_val_def underscoreOK_def
  parse_prefix_def ParseUint_def sort_Search_def Let_def

section \<open>Generic lemmas\<close>

subsection \<open>Searching\<close>

lemma search_loop_bounds: "i \<le> j \<Longrightarrow> i \<le> search_loop f i j \<and> search_loop f i j \<le> j"
proof (induction f i j rule: search_loop.induct)
  case (1 f i j)
  show ?case
  proof (cases "i < j")
    case True
    let ?h = "(i + j) div 2"
    from True have h: "i \<le> ?h" "?h < j" by auto
    show ?thesis
    proof (cases "f ?h")
      case False
      with "1.IH"(1) [OF True refl] h show ?thesis
        by (auto simp: search_loop.simps [of f i j] True Let_def)
    next
      case f: True
      with "1.IH"(2) [OF True refl] h show ?thesis
        by (auto simp: search_loop.simps [of f i j] True Let_def)
    qed
  next
    case False
    then have "search_loop f i j = i" by (subst search_loop.simps) simp
    with "1.prems" show ?thesis by simp
  qed
qed

text \<open>For a monotone predicate the binary search returns the boundary: everything before it fails
  the predicate and everything from it on, below the upper end, satisfies it.\<close>

lemma search_loop_boundary:
  assumes "\<And>a b. a \<le> b \<Longrightarrow> b < j0 \<Longrightarrow> f a \<Longrightarrow> f b" and "i \<le> j" and "j \<le> j0"
    and "\<And>k. k < i \<Longrightarrow> \<not> f k" and "\<And>k. j \<le> k \<Longrightarrow> k < j0 \<Longrightarrow> f k"
  shows "(\<forall>k < search_loop f i j. \<not> f k) \<and> (\<forall>k. search_loop f i j \<le> k \<longrightarrow> k < j0 \<longrightarrow> f k)"
  using assms
proof (induction f i j rule: search_loop.induct)
  case (1 f i j)
  show ?case
  proof (cases "i < j")
    case True
    let ?h = "(i + j) div 2"
    from True have h: "i \<le> ?h" "?h < j" by auto
    show ?thesis
    proof (cases "f ?h")
      case False
      have below: "\<not> f k" if "k < ?h + 1" for k
        using "1.prems"(1) [of k ?h] that False h "1.prems"(3) by auto
      have "(\<forall>k < search_loop f (?h + 1) j. \<not> f k) \<and>
            (\<forall>k. search_loop f (?h + 1) j \<le> k \<longrightarrow> k < j0 \<longrightarrow> f k)"
        by (rule "1.IH"(1) [OF True refl False "1.prems"(1)])
          (use h below "1.prems" in auto)
      with False True show ?thesis by (simp add: search_loop.simps [of f i j] Let_def)
    next
      case f: True
      have above: "f k" if "?h \<le> k" "k < j0" for k
        using "1.prems"(1) [of ?h k] that f by auto
      have "(\<forall>k < search_loop f i ?h. \<not> f k) \<and> (\<forall>k. search_loop f i ?h \<le> k \<longrightarrow> k < j0 \<longrightarrow> f k)"
        by (rule "1.IH"(2) [OF True refl _ "1.prems"(1)])
          (use f h above "1.prems" in auto)
      with f True show ?thesis by (simp add: search_loop.simps [of f i j] Let_def)
    qed
  next
    case False
    then have "search_loop f i j = i" by (subst search_loop.simps) simp
    moreover have "j = i" using False "1.prems"(2) by simp
    ultimately show ?thesis using "1.prems"(4,5) by auto
  qed
qed

lemma sort_Search_le: "sort_Search n f \<le> n"
  using search_loop_bounds [of 0 n f] by (simp add: sort_Search_def)

lemma sort_Search_boundary:
  assumes "\<And>a b. a \<le> b \<Longrightarrow> b < n \<Longrightarrow> f a \<Longrightarrow> f b"
  shows "(\<forall>k < sort_Search n f. \<not> f k) \<and> (\<forall>k. sort_Search n f \<le> k \<longrightarrow> k < n \<longrightarrow> f k)"
  unfolding sort_Search_def by (rule search_loop_boundary) (use assms in auto)

subsection \<open>Distinct values\<close>

lemma set_collect_distinct: "set (collect_distinct seen xs) = set xs - seen"
  by (induction xs arbitrary: seen) auto

lemma distinct_collect_distinct: "distinct (collect_distinct seen xs)"
  by (induction xs arbitrary: seen) (auto simp: set_collect_distinct)

subsection \<open>Digits and fixed-width hexadecimal\<close>

text \<open>Facts on single digits are finite checks.\<close>

lemma digit_char_table:
  "\<forall>a\<in>set [0..<16]. digit_val (digit_char a) = Some a \<and> digit_char a \<noteq> CHR ''_'' \<and>
     (\<forall>b\<in>set [0..<16]. (digit_char a < digit_char b) = (a < b))"
  by code_simp

lemma digit_val_digit_char: "n < 16 \<Longrightarrow> digit_val (digit_char n) = Some n"
  using digit_char_table by simp

lemma digit_char_not_underscore: "n < 16 \<Longrightarrow> digit_char n \<noteq> CHR ''_''"
  using digit_char_table by simp

lemma digit_char_less: "a < 16 \<Longrightarrow> b < 16 \<Longrightarrow> (digit_char a < digit_char b) = (a < b)"
  using digit_char_table by simp

lemma digit_char_inj: "a < 16 \<Longrightarrow> b < 16 \<Longrightarrow> (digit_char a = digit_char b) = (a = b)"
  using digit_char_less [of a b] digit_char_less [of b a] by (metis linorder_neqE_nat order_less_irrefl)

lemma length_fixed_hex [simp]: "length (fixed_hex w n) = w"
  by (induction w arbitrary: n) auto

lemma snoc_less_iff:
  fixes xs ys :: "'a::linorder list"
  assumes "length xs = length ys"
  shows "(xs @ [x] < ys @ [y]) = (xs < ys \<or> xs = ys \<and> x < y)"
  using assms by (induction xs ys rule: list_induct2) auto

lemma lex_less_16:
  "r < 16 \<Longrightarrow> r' < 16 \<Longrightarrow> (q < q' \<or> q = q' \<and> r < r') = (16 * q + r < 16 * q' + (r'::nat))"
  by auto

text \<open>On fixed-width hexadecimal the bytewise string order is the numeric order.\<close>

lemma fixed_hex_less_iff:
  "a < 16 ^ w \<Longrightarrow> b < 16 ^ w \<Longrightarrow> (fixed_hex w a < fixed_hex w b) = (a < b)"
proof (induction w arbitrary: a b)
  case 0
  then show ?case by simp
next
  case (Suc w)
  have q: "a div 16 < 16 ^ w" "b div 16 < 16 ^ w"
    using Suc.prems by (simp_all add: div_less_iff_less_mult mult.commute)
  have eq: "(fixed_hex w (a div 16) = fixed_hex w (b div 16)) = (a div 16 = b div 16)"
    using Suc.IH [OF q] Suc.IH [OF q(2) q(1)]
    by (metis linorder_neqE_nat order_less_irrefl)
  have "(fixed_hex (Suc w) a < fixed_hex (Suc w) b) =
        (a div 16 < b div 16 \<or> a div 16 = b div 16 \<and> a mod 16 < b mod 16)"
    by (simp add: snoc_less_iff Suc.IH [OF q] eq digit_char_less)
  also have "\<dots> = (16 * (a div 16) + a mod 16 < 16 * (b div 16) + b mod 16)"
    by (rule lex_less_16) simp_all
  also have "\<dots> = (a < b)" by simp
  finally show ?case .
qed

lemma fixed_hex_inj: "a < 16 ^ w \<Longrightarrow> b < 16 ^ w \<Longrightarrow> (fixed_hex w a = fixed_hex w b) = (a = b)"
  using fixed_hex_less_iff [of a w b] fixed_hex_less_iff [of b w a]
  by (metis linorder_neqE_nat order_less_irrefl)

lemma fixed_hex_le_iff:
  "a < 16 ^ w \<Longrightarrow> b < 16 ^ w \<Longrightarrow> (fixed_hex w a \<le> fixed_hex w b) = (a \<le> b)"
  using fixed_hex_less_iff [of b w a] by (simp add: linorder_not_less [symmetric])

lemma underscore_notin_fixed_hex: "CHR ''_'' \<notin> set (fixed_hex w n)"
proof (induction w arbitrary: n)
  case (Suc w)
  then show ?case using digit_char_not_underscore [of "n mod 16"] by auto
qed simp

lemma parse_digits_append:
  "parse_digits b0 base m n (s @ t) =
     (case parse_digits b0 base m n s of None \<Rightarrow> None | Some k \<Rightarrow> parse_digits b0 base m k t)"
  by (induction s arbitrary: n) (auto split: option.splits)

text \<open>Reading back what \<open>%0wx\<close> printed.\<close>

lemma parse_digits_fixed_hex:
  "n < 16 ^ w \<Longrightarrow> n \<le> m \<Longrightarrow> parse_digits b0 16 m 0 (fixed_hex w n) = Some n"
proof (induction w arbitrary: n)
  case 0
  then show ?case by simp
next
  case (Suc w)
  have q: "n div 16 < 16 ^ w" "n div 16 \<le> m"
    using Suc.prems by (simp add: div_less_iff_less_mult mult.commute, meson div_le_dividend le_trans)
  have "n div 16 * 16 + n mod 16 = n" by simp
  then show ?case
    using Suc.IH [OF q] Suc.prems digit_val_digit_char [of "n mod 16"]
      digit_char_not_underscore [of "n mod 16"]
    by (simp add: parse_digits_append)
qed

subsection \<open>Decimal\<close>

lemma digit_char_decimal: "n < 10 \<Longrightarrow> CHR ''0'' \<le> digit_char n \<and> digit_char n \<le> CHR ''9''"
proof -
  assume "n < 10"
  then have "n = 0 \<or> n = 1 \<or> n = 2 \<or> n = 3 \<or> n = 4 \<or> n = 5 \<or> n = 6 \<or> n = 7 \<or> n = 8 \<or> n = 9" by auto
  then show ?thesis by (elim disjE) (simp_all add: digit_char_def)
qed

lemma itoa_nat_decimal: "c \<in> set (itoa_nat n) \<Longrightarrow> CHR ''0'' \<le> c \<and> c \<le> CHR ''9''"
proof (induction n rule: itoa_nat.induct)
  case (1 n)
  show ?case
  proof (cases "n < 10")
    case True
    with "1.prems" show ?thesis by (simp add: itoa_nat.simps [of n] digit_char_decimal)
  next
    case False
    with "1.prems" have "c \<in> set (itoa_nat (n div 10)) \<or> c = digit_char (n mod 10)"
      by (auto simp: itoa_nat.simps [of n])
    then show ?thesis using "1.IH" [OF False] digit_char_decimal [of "n mod 10"] by auto
  qed
qed

lemma itoa_nat_nonempty [simp]: "itoa_nat n \<noteq> []"
  by (subst itoa_nat.simps) simp

lemma itoa_nat_inj: "itoa_nat m = itoa_nat n \<Longrightarrow> m = n"
proof (induction m arbitrary: n rule: itoa_nat.induct)
  case (1 m)
  show ?case
  proof (cases "m < 10")
    case m: True
    show ?thesis
    proof (cases "n < 10")
      case True
      with m "1.prems" show ?thesis
        by (simp add: itoa_nat.simps [of m] itoa_nat.simps [of n] digit_char_inj)
    next
      case False
      with m "1.prems" have "[digit_char m] = itoa_nat (n div 10) @ [digit_char (n mod 10)]"
        by (simp add: itoa_nat.simps [of m] itoa_nat.simps [of n])
      then show ?thesis by (metis append_self_conv2 butlast.simps(2) butlast_snoc itoa_nat_nonempty)
    qed
  next
    case m: False
    show ?thesis
    proof (cases "n < 10")
      case True
      with m "1.prems" have "itoa_nat (m div 10) @ [digit_char (m mod 10)] = [digit_char n]"
        by (simp add: itoa_nat.simps [of m] itoa_nat.simps [of n])
      then show ?thesis by (metis append_self_conv2 butlast.simps(2) butlast_snoc itoa_nat_nonempty)
    next
      case n: False
      have "itoa_nat (m div 10) @ [digit_char (m mod 10)] = itoa_nat (n div 10) @ [digit_char (n mod 10)]"
        using "1.prems" m n by (simp add: itoa_nat.simps [of m] itoa_nat.simps [of n])
      then have "itoa_nat (m div 10) = itoa_nat (n div 10)" "m mod 10 = n mod 10"
        by (auto simp: digit_char_inj)
      with "1.IH" [OF m] have "m div 10 = n div 10" by blast
      with \<open>m mod 10 = n mod 10\<close> show ?thesis by (metis div_mult_mod_eq)
    qed
  qed
qed

lemma Itoa_inj: "Itoa a = Itoa b \<Longrightarrow> a = b"
proof -
  assume eq: "Itoa a = Itoa b"
  have minus: "CHR ''-'' # t \<noteq> itoa_nat n" for t n
  proof
    assume "CHR ''-'' # t = itoa_nat n"
    then have "CHR ''-'' \<in> set (itoa_nat n)" by (metis list.set_intros(1))
    then show False using itoa_nat_decimal by force
  qed
  show "a = b"
  proof (cases "a < 0"; cases "b < 0")
    assume "a < 0" "b < 0"
    with eq itoa_nat_inj [of "nat (- a)" "nat (- b)"] show ?thesis by (simp add: Itoa_def)
  next
    assume "\<not> a < 0" "\<not> b < 0"
    with eq itoa_nat_inj [of "nat a" "nat b"] show ?thesis by (simp add: Itoa_def)
  qed (use eq minus minus [symmetric] in \<open>auto simp: Itoa_def\<close>)
qed

lemma Itoa_chars: "c \<in> set (Itoa i) \<Longrightarrow> c = CHR ''-'' \<or> (CHR ''0'' \<le> c \<and> c \<le> CHR ''9'')"
  by (auto simp: Itoa_def dest: itoa_nat_decimal split: if_splits)

subsection \<open>Joining and splitting\<close>

lemma split_at_first:
  "xs @ c # ys = xs' @ c # ys' \<Longrightarrow> c \<notin> set xs \<Longrightarrow> c \<notin> set xs' \<Longrightarrow> xs = xs' \<and> ys = ys'"
  by (induction xs arbitrary: xs') (auto simp: Cons_eq_append_conv)

lemma str_Join_eq_Nil: "[] \<notin> set ws \<Longrightarrow> (str_Join sep ws = []) = (ws = [])"
  by (cases "(sep, ws)" rule: str_Join.cases) auto

text \<open>Joining with a byte that no word contains loses nothing.\<close>

lemma str_Join_Cons: "str_Join sep (w # ws) = (if ws = [] then w else w @ sep @ str_Join sep ws)"
  by (cases ws) auto

lemma str_Join_inj:
  assumes "str_Join [c] ws = str_Join [c] vs"
    and "\<forall>w\<in>set ws. w \<noteq> [] \<and> c \<notin> set w" and "\<forall>v\<in>set vs. v \<noteq> [] \<and> c \<notin> set v"
  shows "ws = vs"
  using assms
proof (induction ws arbitrary: vs)
  case Nil
  then have "[] \<notin> set vs" by blast
  with Nil.prems(1) show ?case using str_Join_eq_Nil [of vs "[c]"] by (metis str_Join.simps(1))
next
  case (Cons w ws)
  show ?case
  proof (cases vs)
    case Nil
    with Cons.prems show ?thesis by (simp add: str_Join_Cons split: if_splits)
  next
    case (Cons v vs')
    have w: "c \<notin> set w" and v: "c \<notin> set v"
      using Cons.prems(2,3) \<open>vs = v # vs'\<close> by simp_all
    have eq: "(if ws = [] then w else w @ c # str_Join [c] ws) =
              (if vs' = [] then v else v @ c # str_Join [c] vs')"
      using Cons.prems(1) \<open>vs = v # vs'\<close> by (simp add: str_Join_Cons split: if_splits)
    then have same: "(ws = []) = (vs' = [])"
      using w v by (metis in_set_conv_decomp)
    show ?thesis
    proof (cases "ws = []")
      case True
      with same eq \<open>vs = v # vs'\<close> show ?thesis by simp
    next
      case False
      with same eq have "w @ c # str_Join [c] ws = v @ c # str_Join [c] vs'" by simp
      then have "w = v" "str_Join [c] ws = str_Join [c] vs'"
        using split_at_first w v by metis+
      moreover have "ws = vs'"
        by (rule Cons.IH) (use calculation Cons.prems \<open>vs = v # vs'\<close> in simp_all)
      ultimately show ?thesis using \<open>vs = v # vs'\<close> by simp
    qed
  qed
qed

lemma str_Split_nonempty [simp]: "str_Split sep s \<noteq> []"
  by (cases s) (auto split: list.splits)

lemma HasPrefix_iff: "HasPrefix s p \<longleftrightarrow> (\<exists>t. s = p @ t)"
  by (induction s p rule: HasPrefix.induct) auto

lemma str_Index_Some:
  "str_Index s p = Some k \<Longrightarrow> k + length p \<le> length s \<and> HasPrefix (drop k s) p"
proof (induction s arbitrary: k)
  case (Cons c s)
  then show ?case
    by (auto simp: HasPrefix_iff split: if_splits) (metis drop_Suc_Cons le_add1 length_Cons length_append)+
qed (auto split: if_splits)

lemma u32_le_max: "x \<le> (0xffffffff :: u32)"
proof -
  have "(- 1 :: u32) = 0xffffffff" by simp
  then show ?thesis using word_order.extremum [of x] by (simp only:)
qed

lemma unat_of_nat_u32: "n < 2 ^ 32 \<Longrightarrow> unat (of_nat n :: u32) = n"
  by (simp add: unat_of_nat)

lemma fixed_hex_numeral [go_lib]:
  "fixed_hex (numeral k) n = fixed_hex (pred_numeral k) (n div 16) @ [digit_char (n mod 16)]"
  unfolding numeral_eq_Suc [of k] by (rule fixed_hex.simps)

section \<open>Invariants along runs\<close>

text \<open>A component with a step function over events and an invariant of its state. Each component that
  keeps state interprets this locale on its own step function; \<open>run_inv\<close> then gives the invariant
  after any sequence of events.\<close>

locale state_invariant =
  fixes step :: "'s \<Rightarrow> 'e \<Rightarrow> 's" and inv :: "'s \<Rightarrow> bool"
  assumes step_inv: "inv s \<Longrightarrow> inv (step s e)"
begin

lemma run_inv: "inv s \<Longrightarrow> inv (foldl step s es)"
  by (induction es arbitrary: s) (simp_all add: step_inv)

end

end
