(* ===== verification/Float64.thy ===== *)
theory Float64
  imports Prelude Complex_Main
begin

text \<open>
  The part of Go's \<open>float64\<close> that the merge of query results uses: conversion from integers, addition and
  comparison with the roundings of IEEE 754, \<open>strconv.ParseFloat\<close> and the verb \<open>%v\<close>. A finite value is a
  dyadic number, mantissa times a power of two. The sign of zero is not kept: comparisons ignore it and no
  sum that starts from a positive zero is a negative one. The last section relates the executable comparison to the reals.
\<close>

section \<open>Values\<close>

datatype float64 = NaN | Inf bool | Fin int int

fun bit_length :: "nat \<Rightarrow> nat" where
  "bit_length n = (if n = 0 then 0 else Suc (bit_length (n div 2)))"

declare bit_length.simps [simp del]

text \<open>The magnitude \<open>m * 2 ^ e\<close> rounded to 53 bits and to a multiple of the least subnormal, ties to even;
  \<open>None\<close> when it overflows.\<close>

definition round_mag :: "nat \<Rightarrow> int \<Rightarrow> (nat \<times> int) option" where
  "round_mag m e =
     (let d = max (bit_length m - 53) (nat (- 1074 - e));
          q = m div 2 ^ d; r = m mod 2 ^ d;
          q = (if 0 < d \<and> (2 ^ (d - 1) < r \<or> r = 2 ^ (d - 1) \<and> odd q) then q + 1 else q)
      in if q \<noteq> 0 \<and> 1024 < int (bit_length q) + e + int d then None else Some (q, e + int d))"

definition round_fin :: "int \<Rightarrow> int \<Rightarrow> float64" where
  "round_fin m e =
     (case round_mag (nat \<bar>m\<bar>) e of
        None \<Rightarrow> Inf (m < 0)
      | Some (q, e') \<Rightarrow> Fin (if m < 0 then - int q else int q) e')"

definition f64_of_int :: "int \<Rightarrow> float64" where
  "f64_of_int i = round_fin i 0"

text \<open>Both mantissas at the smaller exponent.\<close>

definition align :: "int \<Rightarrow> int \<Rightarrow> int \<Rightarrow> int \<Rightarrow> int \<times> int" where
  "align m e m' e' = (m * 2 ^ nat (e - min e e'), m' * 2 ^ nat (e' - min e e'))"

fun f64_less :: "float64 \<Rightarrow> float64 \<Rightarrow> bool" where
  "f64_less NaN y = False"
| "f64_less x NaN = False"
| "f64_less (Inf n) (Inf n') = (n \<and> \<not> n')"
| "f64_less (Inf n) (Fin m e) = n"
| "f64_less (Fin m e) (Inf n) = (\<not> n)"
| "f64_less (Fin m e) (Fin m' e') = (case align m e m' e' of (a, b) \<Rightarrow> a < b)"

fun f64_add :: "float64 \<Rightarrow> float64 \<Rightarrow> float64" where
  "f64_add NaN y = NaN"
| "f64_add x NaN = NaN"
| "f64_add (Inf n) (Inf n') = (if n = n' then Inf n else NaN)"
| "f64_add (Inf n) (Fin m e) = Inf n"
| "f64_add (Fin m e) (Inf n) = Inf n"
| "f64_add (Fin m e) (Fin m' e') = (case align m e m' e' of (a, b) \<Rightarrow> round_fin (a + b) (min e e'))"

section \<open>Parsing\<close>

text \<open>The nearest value to \<open>n / d\<close>: a quotient of more than 55 bits whose last bit records a remainder
  rounds like the fraction.\<close>

definition round_fraction :: "nat \<Rightarrow> nat \<Rightarrow> (nat \<times> int) option" where
  "round_fraction n d =
     (let s = 56 + bit_length d - bit_length n;
          q = n * 2 ^ s div d; r = n * 2 ^ s mod d
      in round_mag (2 * q + (if r \<noteq> 0 then 1 else 0)) (- int s - 1))"

text \<open>\<open>readFloat\<close>: the digits of the mantissa with at most one point, and the exponent, which stops growing
  at 10000.\<close>

fun read_mantissa :: "nat \<Rightarrow> bool \<Rightarrow> nat \<Rightarrow> nat \<Rightarrow> bool \<Rightarrow> string \<Rightarrow> nat \<times> nat \<times> bool \<times> string" where
  "read_mantissa base sawdot mant nfrac sawdigits [] = (mant, nfrac, sawdigits, [])"
| "read_mantissa base sawdot mant nfrac sawdigits (c # s) =
     (if c = CHR ''_'' then read_mantissa base sawdot mant nfrac sawdigits s
      else if c = CHR ''.'' then
        (if sawdot then (mant, nfrac, sawdigits, c # s) else read_mantissa base True mant nfrac sawdigits s)
      else case digit_val c of
             None \<Rightarrow> (mant, nfrac, sawdigits, c # s)
           | Some d \<Rightarrow>
               if d < base
               then read_mantissa base sawdot (mant * base + d) (if sawdot then Suc nfrac else nfrac) True s
               else (mant, nfrac, sawdigits, c # s))"

fun read_exponent :: "nat \<Rightarrow> string \<Rightarrow> nat \<times> string" where
  "read_exponent e [] = (e, [])"
| "read_exponent e (c # s) =
     (if c = CHR ''_'' then read_exponent e s
      else if CHR ''0'' \<le> c \<and> c \<le> CHR ''9''
      then read_exponent (if e < 10000 then e * 10 + (of_char c - 48) else e) s
      else (e, c # s))"

definition unsign :: "string \<Rightarrow> bool \<times> string" where
  "unsign s = (if HasPrefix s ''-'' then (True, drop 1 s) else if HasPrefix s ''+'' then (False, drop 1 s) else (False, s))"

text \<open>The exponent after its mark; \<open>Some None\<close> when there is none.\<close>

definition read_exp_part :: "char \<Rightarrow> string \<Rightarrow> (int option \<times> string) option" where
  "read_exp_part mark s =
     (case s of
        [] \<Rightarrow> Some (None, [])
      | c # t \<Rightarrow>
          if lower_byte c \<noteq> mark then Some (None, s)
          else
            let (neg, ds) = unsign t in
            if ds = [] \<or> \<not> (CHR ''0'' \<le> hd ds \<and> hd ds \<le> CHR ''9'') then None
            else let (e, rest) = read_exponent 0 ds in Some (Some (if neg then - int e else int e), rest))"

definition scale_number :: "nat \<Rightarrow> nat \<Rightarrow> int \<Rightarrow> (nat \<times> int) option" where
  "scale_number base mant e =
     (if base = 16 then round_mag mant e
      else if 0 \<le> e then round_mag (mant * 10 ^ nat e) 0
      else round_fraction mant (10 ^ nat (- e)))"

definition ParseFloat :: "string \<Rightarrow> float64 option" where
  "ParseFloat s =
     (let (neg, t) = unsign s in
      if ToLower t \<in> {''inf'', ''infinity''} then Some (Inf neg)
      else if ToLower s = ''nan'' then Some NaN
      else
        let hex = 3 \<le> length t \<and> hd t = CHR ''0'' \<and> lower_byte (t ! 1) = CHR ''x'';
            base = (if hex then 16 else 10);
            (mant, nfrac, sawdigits, rest) = read_mantissa base False 0 0 False (if hex then drop 2 t else t)
        in if \<not> sawdigits then None
           else case read_exp_part (if hex then CHR ''p'' else CHR ''e'') rest of
             None \<Rightarrow> None
           | Some (ex, rest') \<Rightarrow>
               if rest' \<noteq> [] \<or> hex \<and> ex = None \<or> CHR ''_'' \<in> set s \<and> \<not> underscoreOK s then None
               else
                 let e = (case ex of None \<Rightarrow> 0 | Some x \<Rightarrow> x) - int nfrac * (if hex then 4 else 1) in
                 case (if mant = 0 then Some (0, 0) else scale_number base mant e) of
                   None \<Rightarrow> None
                 | Some (q, e') \<Rightarrow> Some (Fin (if neg then - int q else int q) e'))"

section \<open>Printing\<close>

text \<open>The shortest decimal that reads back: with \<open>v = n / d\<close>, the number of digits before the point, the
  two decimals of \<open>k\<close> digits around \<open>v\<close>, and the closer of those that round to \<open>v\<close>.\<close>

definition decimal_point :: "nat \<Rightarrow> nat \<Rightarrow> int" where
  "decimal_point n d =
     (if d \<le> n then int (length (itoa_nat (n div d)))
      else case List.find (\<lambda>k. d \<le> n * 10 ^ k) [1..<400] of Some k \<Rightarrow> 1 - int k | None \<Rightarrow> 0)"

definition decimal_near :: "nat \<Rightarrow> nat \<Rightarrow> int \<Rightarrow> (nat \<times> int) option \<Rightarrow> nat option" where
  "decimal_near n d sc target =
     (let (n', d') = (if 0 \<le> sc then (n, d * 10 ^ nat sc) else (n * 10 ^ nat (- sc), d));
          lo = n' div d'; r = n' mod d';
          reads = (\<lambda>c. scale_number 10 c sc = target)
      in if reads lo \<and> (2 * r \<le> d' \<or> \<not> reads (lo + 1)) then Some lo
         else if reads (lo + 1) then Some (lo + 1) else None)"

definition shortest :: "nat \<Rightarrow> int \<Rightarrow> string \<times> int" where
  "shortest m e =
     (let (n, d) = (if 0 \<le> e then (m * 2 ^ nat e, 1) else (m, 2 ^ nat (- e)));
          dp = decimal_point n d; target = round_fraction n d
      in case List.find (\<lambda>k. decimal_near n d (dp - int k) target \<noteq> None) [1..<18] of
           None \<Rightarrow> ([], 0)
         | Some k \<Rightarrow>
             (case decimal_near n d (dp - int k) target of
                None \<Rightarrow> ([], 0)
              | Some c \<Rightarrow> (TrimRight (\<lambda>x. x = CHR ''0'') (itoa_nat c), dp - int k + int (length (itoa_nat c)))))"

text \<open>\<open>%v\<close> is \<open>%g\<close> with the shortest digits: exponents below \<open>-4\<close> and from 6 on use the form with an
  exponent of at least two digits.\<close>

definition fmt_exponent :: "int \<Rightarrow> string" where
  "fmt_exponent x = (if x < 0 then ''-'' else ''+'') @ (if \<bar>x\<bar> < 10 then ''0'' else []) @ itoa_nat (nat \<bar>x\<bar>)"

definition fmt_digits :: "string \<Rightarrow> int \<Rightarrow> string" where
  "fmt_digits ds dp =
     (let x = dp - 1 in
      if x < - 4 \<or> 6 \<le> x
      then [hd ds] @ (if tl ds = [] then [] else CHR ''.'' # tl ds) @ ''e'' @ fmt_exponent x
      else if dp \<le> 0 then ''0.'' @ replicate (nat (- dp)) CHR ''0'' @ ds
      else if length ds \<le> nat dp then ds @ replicate (nat dp - length ds) CHR ''0''
      else take (nat dp) ds @ ''.'' @ drop (nat dp) ds)"

fun fmt_float :: "float64 \<Rightarrow> string" where
  "fmt_float NaN = ''NaN''"
| "fmt_float (Inf n) = (if n then ''-Inf'' else ''+Inf'')"
| "fmt_float (Fin m e) =
     (if m = 0 then ''0''
      else (if m < 0 then ''-'' else []) @ (case shortest (nat \<bar>m\<bar>) e of (ds, dp) \<Rightarrow> fmt_digits ds dp))"

section \<open>The order of the numbers\<close>

text \<open>The position of a number: infinities outside, finite values by their real value.\<close>

fun f64_key :: "float64 \<Rightarrow> int \<times> real" where
  "f64_key (Inf n) = (if n then - 1 else 1, 0)"
| "f64_key (Fin m e) = (0, of_int m * 2 powi e)"
| "f64_key NaN = (0, 0)"

lemma align_less:
  assumes "align m e m' e' = (a, b)"
  shows "a < b \<longleftrightarrow> of_int m * (2 :: real) powi e < of_int m' * 2 powi e'"
proof -
  let ?k = "min e e'"
  have p: "(2 :: real) powi x = 2 ^ nat (x - ?k) * 2 powi ?k" if "?k \<le> x" for x
    using that power_int_add [of "2 :: real" "x - ?k" ?k] by (simp add: power_int_of_nat flip: power_int_nonneg_exp)
  have "of_int m * (2 :: real) powi e = of_int a * 2 powi ?k" "of_int m' * (2 :: real) powi e' = of_int b * 2 powi ?k"
    using assms p [of e] p [of e'] by (auto simp: align_def)
  then show ?thesis by simp
qed

lemma f64_less_iff: "x \<noteq> NaN \<Longrightarrow> y \<noteq> NaN \<Longrightarrow> f64_less x y \<longleftrightarrow> f64_key x < f64_key y"
  by (induction x y rule: f64_less.induct) (auto simp: less_prod_def split: prod.splits dest: align_less)

lemma bit_length_le: "n < 2 ^ k \<Longrightarrow> bit_length n \<le> k"
proof (induction k arbitrary: n)
  case (Suc k)
  then have "n div 2 < 2 ^ k" by auto
  with Suc.IH show ?case by (subst bit_length.simps) auto
qed (simp add: bit_length.simps)

text \<open>Integers of at most 53 bits are exact.\<close>

lemma round_mag_exact: "m < 2 ^ 53 \<Longrightarrow> round_mag m 0 = Some (m, 0)"
  using bit_length_le [of m 53] by (simp add: round_mag_def Let_def)

lemma f64_of_int_exact: "\<bar>i\<bar> < 2 ^ 53 \<Longrightarrow> f64_of_int i = Fin i 0"
  by (simp add: f64_of_int_def round_fin_def round_mag_exact nat_less_iff split: if_splits)

section \<open>Printed integers\<close>

lemma digit_val_decimal: "d < 10 \<Longrightarrow> digit_val (digit_char d) = Some d"
  using digit_val_digit_char [of d] by simp

lemma parse_digits_itoa_nat: "n \<le> m \<Longrightarrow> parse_digits b0 10 m 0 (itoa_nat n) = Some n"
proof (induction n rule: itoa_nat.induct)
  case (1 n)
  show ?case
  proof (cases "n < 10")
    case True
    then show ?thesis using "1.prems" digit_val_decimal [of n] digit_char_not_underscore [of n]
      by (simp add: itoa_nat.simps [of n])
  next
    case False
    have "n div 10 * 10 + n mod 10 = n" by simp
    then show ?thesis
      using "1.IH" [OF False] "1.prems" digit_val_decimal [of "n mod 10"] digit_char_not_underscore [of "n mod 10"] False
      by (simp add: itoa_nat.simps [of n] parse_digits_append mult.commute)
  qed
qed

lemma digit_not_sign:
  assumes "CHR ''0'' \<le> c"
  shows "c \<noteq> CHR ''-'' \<and> c \<noteq> CHR ''+'' \<and> c \<noteq> CHR ''.''"
proof -
  have "\<not> CHR ''0'' \<le> CHR ''-''" "\<not> CHR ''0'' \<le> CHR ''+''" "\<not> CHR ''0'' \<le> CHR ''.''" by code_simp+
  with assms show ?thesis by metis
qed

lemma itoa_nat_Cons: obtains c s where "itoa_nat n = c # s" "CHR ''0'' \<le> c" "c \<le> CHR ''9''"
  using itoa_nat_decimal [of _ n] by (cases "itoa_nat n") force+

lemma unsign_itoa_nat: "unsign (itoa_nat n) = (False, itoa_nat n)"
proof -
  obtain c s where c: "itoa_nat n = c # s" "CHR ''0'' \<le> c" using itoa_nat_Cons .
  with digit_not_sign [OF c(2)] show ?thesis by (simp add: unsign_def)
qed

lemma unsign_Itoa: "unsign (Itoa i) = (i < 0, itoa_nat (nat \<bar>i\<bar>))"
  using unsign_itoa_nat by (simp add: Itoa_def) (simp add: unsign_def)

lemma Atoi_Itoa:
  assumes "- (2 ^ 63) \<le> i" "i < 2 ^ 63"
  shows "Atoi (Itoa i) = Some i"
proof -
  have "nat \<bar>i\<bar> \<le> 2 ^ 64 - 1" using assms by auto
  then have p: "ParseUint (itoa_nat (nat \<bar>i\<bar>)) 10 64 = Some (nat \<bar>i\<bar>)"
    using parse_digits_itoa_nat [of "nat \<bar>i\<bar>" "2 ^ 64 - 1" False] by (simp add: ParseUint_def)
  show ?thesis
  proof (cases "i < 0")
    case True
    then show ?thesis using p assms by (simp add: Atoi_def Itoa_def nat_le_iff)
  next
    case False
    obtain c s where c: "itoa_nat (nat i) = c # s" "CHR ''0'' \<le> c" using itoa_nat_Cons .
    show ?thesis using False p assms c digit_not_sign [OF c(2)] by (simp add: Atoi_def Itoa_def nat_less_iff)
  qed
qed

lemma trim_with_id: "s \<noteq> [] \<Longrightarrow> \<not> P (hd s) \<Longrightarrow> \<not> P (last s) \<Longrightarrow> trim_with P s = s"
  using dropWhile_eq_self_iff [of P s] dropWhile_eq_self_iff [of P "rev s"] by (simp add: trim_with_def hd_rev)

lemma TrimSpace_Itoa: "TrimSpace (Itoa i) = Itoa i"
proof -
  have sp: "\<not> is_space c" if "c = CHR ''-'' \<or> CHR ''0'' \<le> c" for c
  proof -
    have "\<not> CHR ''0'' \<le> CHR '' ''" "\<not> CHR ''0'' \<le> CHR 0x09" "\<not> CHR ''0'' \<le> CHR 0x0A" "\<not> CHR ''0'' \<le> CHR 0x0B"
      "\<not> CHR ''0'' \<le> CHR 0x0C" "\<not> CHR ''0'' \<le> CHR 0x0D" by code_simp+
    with that show ?thesis unfolding is_space_def by force
  qed
  have ne: "Itoa i \<noteq> []" by (simp add: Itoa_def)
  show ?thesis unfolding TrimSpace_def
    by (rule trim_with_id [OF ne]) (use sp Itoa_chars [of "hd (Itoa i)" i] Itoa_chars [of "last (Itoa i)" i] ne in auto)
qed

lemma read_mantissa_itoa_nat: "read_mantissa 10 False 0 0 False (itoa_nat n) = (n, 0, True, [])"
proof -
  have app: "read_mantissa 10 False m 0 sd (xs @ ys) =
      (case read_mantissa 10 False m 0 sd xs of (m', _, sd', _) \<Rightarrow> read_mantissa 10 False m' 0 sd' ys)"
    if "\<forall>c\<in>set xs. CHR ''0'' \<le> c \<and> c \<le> CHR ''9''" for m sd xs ys
    using that
  proof (induction xs arbitrary: m sd)
    case (Cons c xs)
    have us: "c \<noteq> CHR ''_''" using Cons.prems by force
    obtain d where d: "digit_val c = Some d" "d < 10"
    proof -
      have "c \<in> set (map digit_char [0..<10])"
      proof -
        have "of_char c - 48 < (10 :: nat)" "of_char c \<ge> (48 :: nat)"
          using Cons.prems by (auto simp: less_eq_char_def)
        moreover have "\<forall>n\<in>set [0..<10]. digit_char n = char_of (n + 48)" by code_simp
        ultimately have "digit_char (of_char c - 48) = char_of (of_char c - 48 + 48 :: nat)" by simp
        then have "c = digit_char (of_char c - 48)" using \<open>of_char c \<ge> (48 :: nat)\<close> by simp
        with \<open>of_char c - 48 < (10 :: nat)\<close> show ?thesis by (auto simp: in_set_conv_nth)
      qed
      then show thesis using that digit_val_decimal by auto
    qed
    show ?case using Cons us d digit_not_sign [of c] by simp
  qed simp
  show ?thesis
  proof (induction n rule: itoa_nat.induct)
    case (1 n)
    have step: "read_mantissa 10 False m 0 sd [digit_char d] = (m * 10 + d, 0, True, [])" if "d < 10" for m sd d
      using that digit_val_decimal [OF that] digit_char_not_underscore [of d] digit_char_decimal [of d] digit_not_sign [of "digit_char d"]
      by simp
    show ?case
    proof (cases "n < 10")
      case True
      with step [of n 0 False] show ?thesis by (simp add: itoa_nat.simps [of n])
    next
      case False
      then show ?thesis using "1.IH" app [of "itoa_nat (n div 10)" 0 False "[digit_char (n mod 10)]"] step [of "n mod 10"]
          itoa_nat_decimal [of _ "n div 10"] by (simp add: itoa_nat.simps [of n] del: read_mantissa.simps)
    qed
  qed
qed

lemma lower_decimal: "c = CHR ''-'' \<or> CHR ''0'' \<le> c \<and> c \<le> CHR ''9'' \<Longrightarrow> lower_byte c = c"
  by (auto simp: lower_byte_def less_eq_char_def)

lemma ParseFloat_Itoa:
  assumes "\<bar>i\<bar> < 2 ^ 53"
  shows "ParseFloat (Itoa i) = Some (Fin i 0)"
proof -
  let ?n = "nat \<bar>i\<bar>"
  have dec: "\<forall>c\<in>set (itoa_nat ?n). CHR ''0'' \<le> c \<and> c \<le> CHR ''9''" using itoa_nat_decimal by blast
  have low: "ToLower (itoa_nat ?n) = itoa_nat ?n" "ToLower (Itoa i) = Itoa i"
    using dec Itoa_chars [of _ i] by (auto simp: ToLower_def intro!: map_idI lower_decimal)
  have nd: "\<not> (CHR ''0'' \<le> CHR ''i'' \<and> CHR ''i'' \<le> CHR ''9'')" "\<not> (CHR ''0'' \<le> CHR ''n'' \<and> CHR ''n'' \<le> CHR ''9'')"
    "\<not> (CHR ''0'' \<le> CHR ''x'' \<and> CHR ''x'' \<le> CHR ''9'')" "\<not> (CHR ''0'' \<le> CHR ''_'' \<and> CHR ''_'' \<le> CHR ''9'')" by code_simp+
  have sp: "itoa_nat ?n \<noteq> ''inf''" "itoa_nat ?n \<noteq> ''infinity''"
    using dec nd(1) by (metis list.set_intros(1))+
  have na: "Itoa i \<noteq> ''nan''" using Itoa_chars [of "CHR ''n''" i] nd(2) by force
  have us: "CHR ''_'' \<notin> set (Itoa i)" using Itoa_chars [of "CHR ''_''" i] nd(4) by force
  have hex: "\<not> (3 \<le> length (itoa_nat ?n) \<and> hd (itoa_nat ?n) = CHR ''0'' \<and> lower_byte (itoa_nat ?n ! 1) = CHR ''x'')"
  proof
    assume h: "3 \<le> length (itoa_nat ?n) \<and> hd (itoa_nat ?n) = CHR ''0'' \<and> lower_byte (itoa_nat ?n ! 1) = CHR ''x''"
    then have m: "itoa_nat ?n ! 1 \<in> set (itoa_nat ?n)" by (intro nth_mem) simp
    with dec have "lower_byte (itoa_nat ?n ! 1) = itoa_nat ?n ! 1" by (intro lower_decimal) blast
    with h m dec nd(3) show False by metis
  qed
  define t where "t = itoa_nat ?n"
  define m where "m = ?n"
  have us': "unsign (Itoa i) = (i < 0, t)" by (simp add: unsign_Itoa t_def)
  have rd: "read_mantissa 10 False 0 0 False t = (m, 0, True, [])" by (simp add: t_def m_def read_mantissa_itoa_nat)
  have hex': "(3 \<le> length t \<and> hd t = CHR ''0'' \<and> lower_byte (t ! 1) = CHR ''x'') = False" using hex by (simp add: t_def)
  have m: "m < 2 ^ 53" using assms by (simp add: m_def nat_less_iff)
  have "ParseFloat (Itoa i) = Some (Fin (if i < 0 then - int m else int m) 0)"
    unfolding ParseFloat_def us' Let_def prod.case hex' if_False
    using sp na us rd m low by (simp add: t_def [symmetric] read_exp_part_def scale_number_def round_mag_exact del: read_mantissa.simps)
  then show ?thesis by (simp add: m_def)
qed

end
