(* ===== verification/Vindex.thy ===== *)
theory Vindex
  imports Prelude
begin

text \<open>
  The virtual index (vindex) of a \<open>ShardRange\<close>: \<open>api/v1alpha1/shardrange_types.go\<close> and
  \<open>internal/router/vindex.go\<close>. A vindex maps a routing key to the name of a shard, by comparing a
  32-bit hash of the key with hexadecimal ranges (\<open>hash\<close>) or the key itself with lexical ranges
  (\<open>range\<close>). The \<open>consistent-hash\<close> branch is in theory \<open>Consistent_Hash\<close>, which also puts the
  branches together as \<open>ResolveShard\<close>.

  Hash values are \<open>uint32\<close> and are kept at that width. The order of the \<open>Ranges\<close> list matters to
  the code (the first range that contains the hash wins); the lemmas show that for a list that
  \<open>ValidateNoOverlap\<close> accepts it does not.
\<close>

named_theorems vindex \<open>definitions of the vindex component\<close>

section \<open>Data\<close>

datatype VindexType =
    VindexTypeHash
  | VindexTypeRange
  | VindexTypeConsistentHash
  | VindexTypeLookup
  | VindexTypeUnknown string

datatype VindexHashFunction =
    VindexHashMurmur3
  | VindexHashFNV
  | VindexHashCRC32
  | VindexHashUnknown string

record VindexSpec =
  vindex_Type :: VindexType
  vindex_Column :: string
  vindex_Function :: VindexHashFunction
  vindex_VirtualNodes :: int

record ShardRangeEntry =
  entry_Lo :: string
  entry_Hi :: string
  entry_Shard :: string

record ShardRangeSpec =
  sr_Cluster :: string
  sr_Keyspace :: string
  sr_Vindex :: VindexSpec
  sr_Ranges :: "ShardRangeEntry list"
  sr_ReferenceTables :: "string list"
  sr_WriteBlocked :: bool

text \<open>The errors of the package, one constructor per sentinel or message shape. The texts of the
  messages are not modelled, what they report is.\<close>

datatype router_error =
    ErrVindexUnsupported
  | ErrVindexNoMatch
  | ErrInvalidHashBound string
  | ErrRangeLoAboveHi string string
  | ErrRangesOverlap u32 u32 u32 u32
  | ErrSplitPlanGap
  | ErrSplitPlanOverlap
  | ErrSplitPlanCoverage
  | ErrHashRangeTooSmall
  | ErrSplitLoAboveHi
  | ErrEmptyRangeList
  | ErrNoRoutingKey
  | ErrWriteBlocked
  | ErrCrossShardInsert
  | ErrNoBackendResolver
  | ErrNoExtractor
  | ErrUnknownExtractor string
  | ErrNoShardsInTopology
  | ErrNoReadyPrimary string
  | ErrNoReadyReplica string
  | ErrListShardRange
  | ErrNoShardRange
  | ErrPlacementEmptyID
  | ErrPlacementDuplicateID string
  | ErrPlacementNegativeWeight string
  | PanicIndexOutOfRange

section \<open>Hash functions\<close>

definition bytes :: "string \<Rightarrow> u8 list" where
  "bytes s = map of_char s"

text \<open>\<open>binary.LittleEndian.Uint32\<close> of four bytes.\<close>

definition le_uint32 :: "u8 \<Rightarrow> u8 \<Rightarrow> u8 \<Rightarrow> u8 \<Rightarrow> u32" where
  "le_uint32 a b c d = ucast a OR push_bit 8 (ucast b) OR push_bit 16 (ucast c) OR push_bit 24 (ucast d)"

definition murmur3_c1 :: u32 where "murmur3_c1 = 0xcc9e2d51"
definition murmur3_c2 :: u32 where "murmur3_c2 = 0x1b873593"

text \<open>The scrambling of one block, shared by the loop body and the tail: \<open>k *= c1\<close>, rotate left by
  15, \<open>k *= c2\<close>.\<close>

definition murmur3_scramble :: "u32 \<Rightarrow> u32" where
  "murmur3_scramble k0 =
     (let k = k0 * murmur3_c1; k = push_bit 15 k OR drop_bit 17 k in k * murmur3_c2)"

definition murmur3_round :: "u32 \<Rightarrow> u32 \<Rightarrow> u32" where
  "murmur3_round h k =
     (let h = h XOR murmur3_scramble k; h = push_bit 13 h OR drop_bit 19 h in h * 5 + 0xe6546b64)"

fun murmur3_body :: "u32 \<Rightarrow> u8 list \<Rightarrow> u32" where
  "murmur3_body h (a # b # c # d # rest) = murmur3_body (murmur3_round h (le_uint32 a b c d)) rest"
| "murmur3_body h rest = h"

text \<open>The switch on \<open>n & 3\<close> with its fall-throughs, on the bytes after the last whole block.\<close>

definition murmur3_tail :: "u32 \<Rightarrow> u8 list \<Rightarrow> u32" where
  "murmur3_tail h rest =
     (case rest of
        [] \<Rightarrow> h
      | [a] \<Rightarrow> h XOR murmur3_scramble (ucast a)
      | [a, b] \<Rightarrow> h XOR murmur3_scramble (push_bit 8 (ucast b) XOR ucast a)
      | a # b # c # _ \<Rightarrow> h XOR murmur3_scramble (push_bit 16 (ucast c) XOR push_bit 8 (ucast b) XOR ucast a))"

definition murmur3_fmix :: "u32 \<Rightarrow> u32" where
  "murmur3_fmix h0 =
     (let h = h0 XOR drop_bit 16 h0; h = h * 0x85ebca6b;
          h = h XOR drop_bit 13 h; h = h * 0xc2b2ae35
      in h XOR drop_bit 16 h)"

definition murmur3Sum32 :: "u8 list \<Rightarrow> u32 \<Rightarrow> u32" where
  "murmur3Sum32 data seed =
     (let n = length data; tail = n - n mod 4;
          h = murmur3_body seed (take tail data);
          h = murmur3_tail h (drop tail data)
      in murmur3_fmix (h XOR of_nat n))"

text \<open>\<open>hash/fnv.New32a\<close>: FNV-1a with the 32-bit offset basis and prime.\<close>

definition fnv32a :: "u8 list \<Rightarrow> u32" where
  "fnv32a data = foldl (\<lambda>h b. (h XOR ucast b) * 16777619) 2166136261 data"

text \<open>\<open>crc32.ChecksumIEEE\<close>: the reflected polynomial \<open>0xedb88320\<close>, bit by bit.\<close>

fun crc32_bits :: "nat \<Rightarrow> u32 \<Rightarrow> u32" where
  "crc32_bits 0 c = c"
| "crc32_bits (Suc n) c =
     crc32_bits n (if c AND 1 = 1 then drop_bit 1 c XOR 0xedb88320 else drop_bit 1 c)"

definition crc32_ChecksumIEEE :: "u8 list \<Rightarrow> u32" where
  "crc32_ChecksumIEEE data = NOT (foldl (\<lambda>c b. crc32_bits 8 (c XOR ucast b)) 0xffffffff data)"

fun hashKey :: "VindexHashFunction \<Rightarrow> string \<Rightarrow> (router_error, u32) result" where
  "hashKey VindexHashMurmur3 key = Inr (murmur3Sum32 (bytes key) 0)"
| "hashKey VindexHashFNV key = Inr (fnv32a (bytes key))"
| "hashKey VindexHashCRC32 key = Inr (crc32_ChecksumIEEE (bytes key))"
| "hashKey (VindexHashUnknown _) key = Inl ErrVindexUnsupported"

section \<open>Range bounds and resolution\<close>

definition parseHashBound :: "string \<Rightarrow> (router_error, u32) result" where
  "parseHashBound s =
     (case ParseUint s 0 32 of
        Some v \<Rightarrow> Inr (of_nat v)
      | None \<Rightarrow>
          (case ParseUint s 16 32 of
             Some v \<Rightarrow> Inr (of_nat v)
           | None \<Rightarrow> Inl (ErrInvalidHashBound s)))"

fun resolveHash_loop :: "u32 \<Rightarrow> ShardRangeEntry list \<Rightarrow> (router_error, string) result" where
  "resolveHash_loop h [] = Inl ErrVindexNoMatch"
| "resolveHash_loop h (r # rs) =
     (case parseHashBound (entry_Lo r) of
        Inl e \<Rightarrow> Inl e
      | Inr lo \<Rightarrow>
          (case parseHashBound (entry_Hi r) of
             Inl e \<Rightarrow> Inl e
           | Inr hi \<Rightarrow> if lo \<le> h \<and> h \<le> hi then Inr (entry_Shard r) else resolveHash_loop h rs))"

definition resolveHash :: "ShardRangeSpec \<Rightarrow> string \<Rightarrow> (router_error, string) result" where
  "resolveHash spec key =
     (case hashKey (vindex_Function (sr_Vindex spec)) key of
        Inl e \<Rightarrow> Inl e
      | Inr h \<Rightarrow> resolveHash_loop h (sr_Ranges spec))"

definition resolveRange :: "ShardRangeSpec \<Rightarrow> string \<Rightarrow> (router_error, string) result" where
  "resolveRange spec key =
     (case find (\<lambda>r. entry_Lo r \<le> key \<and> key \<le> entry_Hi r) (sr_Ranges spec) of
        Some r \<Rightarrow> Inr (entry_Shard r)
      | None \<Rightarrow> Inl ErrVindexNoMatch)"

text \<open>The parsing loop of \<open>ValidateNoOverlap\<close> and the scan of neighbours after the sort by \<open>lo\<close>.
  \<open>sort.Slice\<close> is not stable; \<open>overlap_scan_any_sort\<close> below shows that the verdict does not depend
  on how ties are ordered.\<close>

fun parse_bounds :: "ShardRangeEntry list \<Rightarrow> (router_error, (u32 \<times> u32) list) result" where
  "parse_bounds [] = Inr []"
| "parse_bounds (e # es) =
     (case parseHashBound (entry_Lo e) of
        Inl err \<Rightarrow> Inl err
      | Inr lo \<Rightarrow>
          (case parseHashBound (entry_Hi e) of
             Inl err \<Rightarrow> Inl err
           | Inr hi \<Rightarrow>
               if hi < lo then Inl (ErrRangeLoAboveHi (entry_Lo e) (entry_Hi e))
               else (case parse_bounds es of Inl err \<Rightarrow> Inl err | Inr rs \<Rightarrow> Inr ((lo, hi) # rs))))"

fun overlap_scan :: "(u32 \<times> u32) list \<Rightarrow> (router_error, unit) result" where
  "overlap_scan ((lo1, hi1) # (lo2, hi2) # rs) =
     (if lo2 \<le> hi1 then Inl (ErrRangesOverlap lo1 hi1 lo2 hi2) else overlap_scan ((lo2, hi2) # rs))"
| "overlap_scan rs = Inr ()"

definition ValidateNoOverlap :: "ShardRangeSpec \<Rightarrow> (router_error, unit) result" where
  "ValidateNoOverlap spec =
     (if vindex_Type (sr_Vindex spec) \<noteq> VindexTypeHash then Inr ()
      else case parse_bounds (sr_Ranges spec) of
             Inl e \<Rightarrow> Inl e
           | Inr parsed \<Rightarrow> overlap_scan (sort_key fst parsed))"

lemmas [vindex] = parseHashBound_def resolveHash_def resolveRange_def ValidateNoOverlap_def

text \<open>An entry covers a hash value when both bounds parse and enclose it; an entry is well bounded
  when its bounds parse to a non-empty interval.\<close>

definition entry_covers :: "u32 \<Rightarrow> ShardRangeEntry \<Rightarrow> bool" where
  "entry_covers h e =
     (case (parseHashBound (entry_Lo e), parseHashBound (entry_Hi e)) of
        (Inr lo, Inr hi) \<Rightarrow> lo \<le> h \<and> h \<le> hi
      | _ \<Rightarrow> False)"

definition well_bounded :: "ShardRangeEntry \<Rightarrow> bool" where
  "well_bounded e =
     (case (parseHashBound (entry_Lo e), parseHashBound (entry_Hi e)) of
        (Inr lo, Inr hi) \<Rightarrow> lo \<le> hi
      | _ \<Rightarrow> False)"

definition ivl_covers :: "'a::linorder \<Rightarrow> 'a \<times> 'a \<Rightarrow> bool" where
  "ivl_covers h iv \<longleftrightarrow> fst iv \<le> h \<and> h \<le> snd iv"

text \<open>An example specification: two shards, each with half of the hash space.\<close>

definition demo_vindex :: VindexSpec where
  "demo_vindex = \<lparr>vindex_Type = VindexTypeHash, vindex_Column = ''tenant_id'',
     vindex_Function = VindexHashMurmur3, vindex_VirtualNodes = 0\<rparr>"

definition demo_entry :: "string \<Rightarrow> string \<Rightarrow> string \<Rightarrow> ShardRangeEntry" where
  "demo_entry lo hi shard = \<lparr>entry_Lo = lo, entry_Hi = hi, entry_Shard = shard\<rparr>"

definition demo_spec :: ShardRangeSpec where
  "demo_spec = \<lparr>sr_Cluster = ''demo'', sr_Keyspace = ''app'', sr_Vindex = demo_vindex,
     sr_Ranges = [demo_entry ''0x00000000'' ''0x7fffffff'' ''shard-0'',
                  demo_entry ''0x80000000'' ''0xffffffff'' ''shard-1''],
     sr_ReferenceTables = [''countries''], sr_WriteBlocked = False\<rparr>"

lemmas demo_simps = demo_vindex_def demo_entry_def demo_spec_def

section \<open>Lemmas\<close>

subsection \<open>Disjoint intervals\<close>

lemma overlap_scan_sorted:
  assumes "sorted (map fst rs)" and "\<forall>iv\<in>set rs. fst iv \<le> snd iv"
  shows "(overlap_scan rs = Inr ()) = sorted_wrt (\<lambda>a b. snd a < fst b) rs"
  using assms
proof (induction rs rule: overlap_scan.induct)
  case (1 lo1 hi1 lo2 hi2 rs)
  show ?case
  proof (cases "lo2 \<le> hi1")
    case True
    then show ?thesis by auto
  next
    case False
    then have "hi1 < fst b" if "b \<in> set rs" "hi2 < fst b" for b
      using that 1(3) by (auto simp: not_le)
    with False 1 show ?thesis by auto
  qed
qed simp_all

lemma sorted_wrt_disjoint_count:
  assumes "sorted_wrt (\<lambda>a b. snd a < fst b) rs" and "\<forall>iv\<in>set rs. fst iv \<le> snd iv"
  shows "length (filter (ivl_covers h) rs) \<le> 1"
  using assms
proof (induction rs)
  case (Cons a rs)
  show ?case
  proof (cases "ivl_covers h a")
    case True
    have "\<not> ivl_covers h b" if "b \<in> set rs" for b
      using True that Cons.prems(1) by (auto simp: ivl_covers_def)
    then have "filter (ivl_covers h) rs = []" by (simp add: filter_empty_conv)
    then show ?thesis by simp
  next
    case False
    with Cons show ?thesis by simp
  qed
qed simp

lemma overlap_double_cover:
  assumes "sorted (map fst rs)" and "\<forall>iv\<in>set rs. fst iv \<le> snd iv"
    and "\<forall>h. length (filter (ivl_covers h) rs) \<le> 1"
  shows "overlap_scan rs = Inr ()"
  using assms
proof (induction rs rule: overlap_scan.induct)
  case (1 lo1 hi1 lo2 hi2 rs)
  have "length (filter (ivl_covers lo2) ((lo1, hi1) # (lo2, hi2) # rs)) \<le> 1"
    using 1(4) by blast
  moreover have "lo1 \<le> lo2" "lo2 \<le> hi2" using 1(2,3) by auto
  ultimately have gap: "\<not> lo2 \<le> hi1" by (auto simp: ivl_covers_def)
  have "length (filter (ivl_covers h) ((lo2, hi2) # rs)) \<le> 1" for h
    using 1(4) [rule_format, of h] by (auto split: if_splits)
  with 1(1) [OF gap] 1(2,3) gap show ?case by auto
qed simp_all

text \<open>The verdict on the sorted list says that every point is covered at most once, and it is the
  same for every way of sorting by the lower bound.\<close>

lemma overlap_scan_any_sort:
  assumes "mset ss = mset rs" and "sorted (map fst ss)" and "\<forall>iv\<in>set rs. fst iv \<le> snd iv"
  shows "(overlap_scan ss = Inr ()) = (\<forall>h. length (filter (ivl_covers h) rs) \<le> 1)"
proof -
  have set: "set ss = set rs" using assms(1) by (metis set_mset_mset)
  have len: "length (filter (ivl_covers h) ss) = length (filter (ivl_covers h) rs)" for h
    using assms(1) by (metis mset_filter size_mset)
  show ?thesis
    using overlap_scan_sorted [of ss] sorted_wrt_disjoint_count [of ss] overlap_double_cover [of ss]
      assms(2,3) by (auto simp: set len)
qed

subsection \<open>Parsing the bounds of a list of ranges\<close>

lemma well_bounded_iff:
  "well_bounded e =
     (\<exists>lo hi. parseHashBound (entry_Lo e) = Inr lo \<and> parseHashBound (entry_Hi e) = Inr hi \<and> lo \<le> hi)"
  by (simp add: well_bounded_def split: sum.split)

lemma entry_covers_parsed:
  "parseHashBound (entry_Lo e) = Inr lo \<Longrightarrow> parseHashBound (entry_Hi e) = Inr hi \<Longrightarrow>
     entry_covers h e = ivl_covers h (lo, hi)"
  by (simp add: entry_covers_def ivl_covers_def)

lemma parse_bounds_Cons_Inr:
  "(parse_bounds (e # es) = Inr rs) =
     (\<exists>lo hi rs'. parseHashBound (entry_Lo e) = Inr lo \<and> parseHashBound (entry_Hi e) = Inr hi \<and>
        lo \<le> hi \<and> parse_bounds es = Inr rs' \<and> rs = (lo, hi) # rs')"
  by (auto split: sum.split)

lemma parse_bounds_Inr_iff: "(\<exists>rs. parse_bounds es = Inr rs) = (\<forall>e\<in>set es. well_bounded e)"
proof (induction es)
  case (Cons e es)
  have "(\<exists>rs. parse_bounds (e # es) = Inr rs) = (well_bounded e \<and> (\<exists>rs. parse_bounds es = Inr rs))"
    unfolding parse_bounds_Cons_Inr well_bounded_iff by blast
  with Cons show ?case by simp
qed simp

lemma parse_bounds_props:
  "parse_bounds es = Inr rs \<Longrightarrow>
     (\<forall>iv\<in>set rs. fst iv \<le> snd iv) \<and>
     (\<forall>h. length (filter (ivl_covers h) rs) = length (filter (entry_covers h) es))"
proof (induction es arbitrary: rs)
  case (Cons e es)
  from Cons.prems obtain lo hi rs' where
    e: "parseHashBound (entry_Lo e) = Inr lo" "parseHashBound (entry_Hi e) = Inr hi" "lo \<le> hi"
    and es: "parse_bounds es = Inr rs'" and rs: "rs = (lo, hi) # rs'"
    unfolding parse_bounds_Cons_Inr by blast
  from Cons.IH [OF es] e show ?case by (simp add: rs entry_covers_parsed)
qed simp

lemma ValidateNoOverlap_iff:
  assumes "vindex_Type (sr_Vindex spec) = VindexTypeHash"
  shows "(ValidateNoOverlap spec = Inr ()) =
         ((\<forall>e\<in>set (sr_Ranges spec). well_bounded e) \<and>
          (\<forall>h. length (filter (entry_covers h) (sr_Ranges spec)) \<le> 1))"
proof (cases "parse_bounds (sr_Ranges spec)")
  case (Inl err)
  then have "\<not> (\<forall>e\<in>set (sr_Ranges spec). well_bounded e)"
    using parse_bounds_Inr_iff [of "sr_Ranges spec"] by simp
  then show ?thesis using assms Inl by (simp add: ValidateNoOverlap_def)
next
  case (Inr rs)
  then have wb: "\<forall>e\<in>set (sr_Ranges spec). well_bounded e" by (metis parse_bounds_Inr_iff)
  have "(overlap_scan (sort_key fst rs) = Inr ()) = (\<forall>h. length (filter (ivl_covers h) rs) \<le> 1)"
    by (rule overlap_scan_any_sort) (use parse_bounds_props [OF Inr] in auto)
  then show ?thesis
    using assms Inr wb parse_bounds_props [OF Inr] by (simp add: ValidateNoOverlap_def)
qed

subsection \<open>Resolution as a search for the covering entry\<close>

lemma resolveHash_loop_find:
  "\<forall>e\<in>set rs. well_bounded e \<Longrightarrow>
     resolveHash_loop h rs =
       (case find (entry_covers h) rs of Some r \<Rightarrow> Inr (entry_Shard r) | None \<Rightarrow> Inl ErrVindexNoMatch)"
  by (induction rs) (auto simp: well_bounded_def entry_covers_def split: sum.splits)

lemma find_unique_perm:
  assumes "mset xs = mset ys" and "length (filter P xs) \<le> 1"
  shows "find P xs = find P ys"
proof -
  have find_filter: "find P zs = (case filter P zs of [] \<Rightarrow> None | z # _ \<Rightarrow> Some z)" for zs
    by (induction zs) auto
  have perm: "mset (filter P xs) = mset (filter P ys)" using assms(1) by simp
  have "filter P xs = filter P ys"
  proof (cases "filter P xs")
    case Nil
    with perm show ?thesis by (metis mset_zero_iff_right mset.simps(1))
  next
    case (Cons z zs)
    with assms(2) have "filter P xs = [z]" by simp
    with perm show ?thesis by (metis mset_single_iff_right mset_single_iff)
  qed
  then show ?thesis by (simp add: find_filter)
qed

lemma find_Some_unique:
  assumes "length (filter P xs) \<le> 1"
  shows "(find P xs = Some x) = (x \<in> set xs \<and> P x)"
proof
  assume "find P xs = Some x"
  then show "x \<in> set xs \<and> P x" by (auto simp: find_Some_iff)
next
  assume x: "x \<in> set xs \<and> P x"
  then have "x \<in> set (filter P xs)" by simp
  then have f: "filter P xs = [x]"
    using assms by (cases "filter P xs") (simp_all only: list.set length_Cons, auto)
  obtain y where y: "find P xs = Some y" using x by (cases "find P xs") (auto simp: find_None_iff)
  then have "y \<in> set (filter P xs)" by (auto simp: find_Some_iff)
  with f y show "find P xs = Some x" by simp
qed

lemma resolveHash_valid:
  assumes "vindex_Type (sr_Vindex spec) = VindexTypeHash" and "ValidateNoOverlap spec = Inr ()"
    and "hashKey (vindex_Function (sr_Vindex spec)) key = Inr h"
  shows "(resolveHash spec key = Inr s) = (\<exists>e\<in>set (sr_Ranges spec). entry_covers h e \<and> entry_Shard e = s)"
proof -
  from assms(1,2) have wb: "\<forall>e\<in>set (sr_Ranges spec). well_bounded e"
    and one: "length (filter (entry_covers h) (sr_Ranges spec)) \<le> 1"
    by (simp_all add: ValidateNoOverlap_iff)
  show ?thesis
    using assms(3) find_Some_unique [OF one]
    by (simp add: resolveHash_def resolveHash_loop_find [OF wb] split: option.splits)
      (metis find_None_iff not_None_eq option.inject)
qed

subsection \<open>MurmurHash3: the mixing steps are permutations\<close>

lemma mult_inverse_inj: "c * d = 1 \<Longrightarrow> (x * c = y * c) = (x = (y::'a::len word))"
  by (metis mult.assoc mult.right_neutral)

lemma rotl_inj:
  "n < 32 \<Longrightarrow> (push_bit n x OR drop_bit (32 - n) x = push_bit n y OR drop_bit (32 - n) y) = (x = (y::u32))"
proof
  assume n: "n < 32" and eq: "push_bit n x OR drop_bit (32 - n) x = push_bit n y OR drop_bit (32 - n) y"
  show "x = y"
  proof (rule bit_word_eqI)
    fix i assume i: "i < LENGTH(32)"
    show "bit x i = bit y i"
    proof (cases "i + n < 32")
      case True
      have "bit (push_bit n x OR drop_bit (32 - n) x) (i + n) = bit (push_bit n y OR drop_bit (32 - n) y) (i + n)"
        using eq by simp
      with True show ?thesis by (auto simp: bit_or_iff bit_push_bit_iff bit_drop_bit_eq bit_imp_le_length)
        (auto dest: bit_imp_le_length)
    next
      case False
      have "bit (push_bit n x OR drop_bit (32 - n) x) (i + n - 32) = bit (push_bit n y OR drop_bit (32 - n) y) (i + n - 32)"
        using eq by simp
      with False i n show ?thesis by (auto simp: bit_or_iff bit_push_bit_iff bit_drop_bit_eq)
    qed
  qed
qed simp

lemma xorshift_inj:
  "0 < n \<Longrightarrow> (x XOR drop_bit n x = y XOR drop_bit n y) = (x = (y::'a::len word))"
proof
  assume n: "0 < n" and eq: "x XOR drop_bit n x = y XOR drop_bit n y"
  have "bit x i = bit y i" if "i < LENGTH('a)" for i
    using that
  proof (induction "LENGTH('a) - i" arbitrary: i rule: less_induct)
    case less
    have hi: "bit x (n + i) = bit y (n + i)"
    proof (cases "n + i < LENGTH('a)")
      case True
      with less n show ?thesis by (auto simp: add.commute)
    next
      case False
      then show ?thesis by (auto dest: bit_imp_le_length)
    qed
    have "bit (x XOR drop_bit n x) i = bit (y XOR drop_bit n y) i" using eq by simp
    then show ?case using hi by (auto simp: bit_xor_iff bit_drop_bit_eq)
  qed
  then show "x = y" by (rule bit_word_eqI)
qed simp

lemma murmur3_scramble_inj: "(murmur3_scramble x = murmur3_scramble y) = (x = y)"
proof -
  have c1: "murmur3_c1 * 0xdee13bb1 = 1" and c2: "murmur3_c2 * 0x56ed309b = 1"
    by (simp_all add: murmur3_c1_def murmur3_c2_def)
  show ?thesis
    using rotl_inj [of 15] by (simp add: murmur3_scramble_def Let_def mult_inverse_inj [OF c1] mult_inverse_inj [OF c2])
qed

lemma murmur3_fmix_inj: "(murmur3_fmix x = murmur3_fmix y) = (x = y)"
proof -
  have a: "0x85ebca6b * 0xa5cb9243 = (1::u32)" and b: "0xc2b2ae35 * 0x7ed1b41d = (1::u32)" by simp_all
  show ?thesis
    by (simp add: murmur3_fmix_def Let_def xorshift_inj mult_inverse_inj [OF a] mult_inverse_inj [OF b])
qed

lemma xor_cancel_left: "(z XOR x = z XOR y) = (x = (y::'a::len word))"
  by (auto simp: bit_eq_iff bit_xor_iff)

lemma xor_cancel_right: "(x XOR z = y XOR z) = (x = (y::'a::len word))"
  by (auto simp: bit_eq_iff bit_xor_iff)

lemmas rotl13_inj = rotl_inj [of 13, simplified]

lemma murmur3_round_inj_block: "(murmur3_round h k = murmur3_round h k') = (k = k')"
proof -
  have five: "5 * 0xcccccccd = (1::u32)" by simp
  show ?thesis
    by (simp only: murmur3_round_def Let_def add_right_cancel mult_inverse_inj [OF five] rotl13_inj
        xor_cancel_left murmur3_scramble_inj)
qed

lemma murmur3_round_inj_state: "(murmur3_round h k = murmur3_round h' k) = (h = h')"
proof -
  have five: "5 * 0xcccccccd = (1::u32)" by simp
  show ?thesis
    by (simp only: murmur3_round_def Let_def add_right_cancel mult_inverse_inj [OF five] rotl13_inj
        xor_cancel_right)
qed

lemma murmur3_body_inj_state: "(murmur3_body h data = murmur3_body h' data) = (h = h')"
  by (induction h data arbitrary: h' rule: murmur3_body.induct) (simp_all add: murmur3_round_inj_state)

lemma murmur3_body_append:
  "length xs mod 4 = 0 \<Longrightarrow> murmur3_body h (xs @ ys) = murmur3_body (murmur3_body h xs) ys"
proof (induction h xs rule: murmur3_body.induct)
  case (1 h a b c d rest)
  then show ?case by (simp add: mod_Suc split: if_splits)
qed simp_all

lemma murmur3_tail_inj_state: "(murmur3_tail h rest = murmur3_tail h' rest) = (h = h')"
  by (simp add: murmur3_tail_def xor_cancel_right split: list.split)

lemma bit_u8_bound: "bit (b::u8) i \<Longrightarrow> i < 8"
  using bit_imp_le_length [of b i] by simp

lemma le_uint32_inj:
  "le_uint32 a b c d = le_uint32 a' b' c' d' \<Longrightarrow> a = a' \<and> b = b' \<and> c = c' \<and> d = d'"
proof -
  assume eq: "le_uint32 a b c d = le_uint32 a' b' c' d'"
  have bits: "bit (le_uint32 a b c d) i =
      (if i < 8 then bit a i else if i < 16 then bit b (i - 8)
       else if i < 24 then bit c (i - 16) else bit d (i - 24))" for a b c d :: u8 and i
    by (auto simp: le_uint32_def bit_or_iff bit_push_bit_iff bit_ucast_iff dest: bit_u8_bound)
  have byte: "x = y" if "\<And>i. i < 8 \<Longrightarrow> bit x i = bit y i" for x y :: u8
    by (rule bit_word_eqI) (use that in simp)
  have same: "bit (le_uint32 a b c d) i = bit (le_uint32 a' b' c' d') i" for i
    using eq by simp
  show ?thesis
  proof (intro conjI byte)
    fix i :: nat assume i: "i < 8"
    show "bit a i = bit a' i" using same [of i] i by (simp only: bits if_True)
    show "bit b i = bit b' i" using same [of "i + 8"] i by (simp add: bits)
    show "bit c i = bit c' i" using same [of "i + 16"] i by (simp add: bits)
    show "bit d i = bit d' i" using same [of "i + 24"] i by (simp add: bits)
  qed
qed

section \<open>Properties\<close>



text \<open>C18: On validated ranges a hash vindex sends a key to the shard of the only range that encloses
  the key's hash; when no range does, the key has no shard.\<close>

theorem resolveHash_covering_shard:
  assumes "vindex_Type (sr_Vindex spec) = VindexTypeHash" and "ValidateNoOverlap spec = Inr ()"
    and "hashKey (vindex_Function (sr_Vindex spec)) key = Inr h"
  shows "(resolveHash spec key = Inr s) = (\<exists>e\<in>set (sr_Ranges spec). entry_covers h e \<and> entry_Shard e = s) \<and>
         (resolveHash spec key = Inl ErrVindexNoMatch) = (\<forall>e\<in>set (sr_Ranges spec). \<not> entry_covers h e)"
proof -
  from assms(1,2) have wb: "\<forall>e\<in>set (sr_Ranges spec). well_bounded e"
    by (simp add: ValidateNoOverlap_iff)
  have "(resolveHash spec key = Inl ErrVindexNoMatch) = (find (entry_covers h) (sr_Ranges spec) = None)"
    using assms(3) by (simp add: resolveHash_def resolveHash_loop_find [OF wb] split: option.split)
  then show ?thesis using resolveHash_valid [OF assms] by (auto simp: find_None_iff)
qed

theorem resolveHash_covering_shard_witness:
  "resolveHash demo_spec ''tenant-7'' = Inr ''shard-0'' \<or> resolveHash demo_spec ''tenant-7'' = Inr ''shard-1''"
proof -
  let ?h = "murmur3Sum32 (bytes ''tenant-7'') 0"
  have ok: "ValidateNoOverlap demo_spec = Inr ()" by (simp add: demo_simps vindex go_lib)
  have hash: "hashKey (vindex_Function (sr_Vindex demo_spec)) ''tenant-7'' = Inr ?h"
    by (simp add: demo_simps)
  have ty: "vindex_Type (sr_Vindex demo_spec) = VindexTypeHash" by (simp add: demo_simps)
  have lo: "entry_covers ?h (demo_entry ''0x00000000'' ''0x7fffffff'' ''shard-0'') = (?h \<le> 0x7fffffff)"
    and hi: "entry_covers ?h (demo_entry ''0x80000000'' ''0xffffffff'' ''shard-1'') = (0x80000000 \<le> ?h \<and> ?h \<le> 0xffffffff)"
    by (simp_all add: entry_covers_def demo_simps vindex go_lib)
  have "?h \<le> 0x7fffffff \<or> (0x80000000 \<le> ?h \<and> ?h \<le> 0xffffffff)"
    using u32_le_max [of ?h] inc_le [of "0x7fffffff" ?h] by (cases "?h \<le> 0x7fffffff") auto
  with lo hi show ?thesis
    using resolveHash_covering_shard [OF ty ok hash] by (auto simp: demo_spec_def demo_entry_def)
qed

text \<open>The order in which a validated spec lists its ranges does not matter for routing.\<close>

theorem resolveHash_order_irrelevant:
  assumes "vindex_Type (sr_Vindex spec) = VindexTypeHash" and "ValidateNoOverlap spec = Inr ()"
    and "mset ranges = mset (sr_Ranges spec)"
  shows "ValidateNoOverlap (spec\<lparr>sr_Ranges := ranges\<rparr>) = Inr () \<and>
         resolveHash (spec\<lparr>sr_Ranges := ranges\<rparr>) key = resolveHash spec key"
proof -
  from assms(1,2) have wb: "\<forall>e\<in>set (sr_Ranges spec). well_bounded e"
    and one: "\<forall>h. length (filter (entry_covers h) (sr_Ranges spec)) \<le> 1"
    by (simp_all add: ValidateNoOverlap_iff)
  have sets: "set ranges = set (sr_Ranges spec)" using assms(3) by (rule mset_eq_setD)
  have len: "length (filter P ranges) = length (filter P (sr_Ranges spec))" for P
    using assms(3) by (metis mset_filter size_mset)
  have "find (entry_covers h) ranges = find (entry_covers h) (sr_Ranges spec)" for h
    using find_unique_perm [of "sr_Ranges spec" ranges "entry_covers h"] assms(3) one by simp
  then show ?thesis
    using assms(1) wb one
    by (simp add: ValidateNoOverlap_iff sets len resolveHash_def resolveHash_loop_find split: sum.split)
qed

theorem resolveHash_order_irrelevant_witness:
  "resolveHash (demo_spec\<lparr>sr_Ranges := rev (sr_Ranges demo_spec)\<rparr>) ''tenant-7'' = resolveHash demo_spec ''tenant-7''"
proof -
  have ok: "ValidateNoOverlap demo_spec = Inr ()" by (simp add: demo_simps vindex go_lib)
  have ty: "vindex_Type (sr_Vindex demo_spec) = VindexTypeHash" by (simp add: demo_simps)
  show ?thesis using resolveHash_order_irrelevant [OF ty ok, of "rev (sr_Ranges demo_spec)"] by simp
qed

text \<open>MurmurHash3 does not collide within one aligned block: two keys of the same length that
  differ only in the four bytes of one block have different hashes, whatever the seed.\<close>

theorem murmur3_block_injective:
  assumes "length pre mod 4 = 0"
  shows "(murmur3Sum32 (pre @ [a, b, c, d] @ post) seed = murmur3Sum32 (pre @ [a', b', c', d'] @ post) seed) =
         ([a, b, c, d] = [a', b', c', d'])"
proof -
  define t where "t = length post - length post mod 4"
  have n: "(length pre + (4 + length post)) mod 4 = length post mod 4"
    using assms by (metis add.left_commute add_0 mod_add_left_eq mod_add_self1)
  have len: "length pre + (4 + length post) - length post mod 4 = length pre + (4 + t)"
    by (simp add: t_def)
  have sum: "murmur3Sum32 (pre @ [p, q, r, u] @ post) seed =
      murmur3_fmix (murmur3_tail (murmur3_body (murmur3_round (murmur3_body seed pre) (le_uint32 p q r u)) (take t post))
        (drop t post) XOR of_nat (length pre + (4 + length post)))" for p q r u
  proof -
    have "length (pre @ [p, q, r, u] @ post) = length pre + (4 + length post)" by simp
    moreover have "take (length pre + (4 + t)) (pre @ [p, q, r, u] @ post) = pre @ [p, q, r, u] @ take t post"
      "drop (length pre + (4 + t)) (pre @ [p, q, r, u] @ post) = drop t post" by (simp_all add: eval_nat_numeral)
    ultimately show ?thesis
      unfolding murmur3Sum32_def Let_def n len by (simp only: n len murmur3_body_append [OF assms]) simp
  qed
  show ?thesis
    unfolding sum murmur3_fmix_inj xor_cancel_right murmur3_tail_inj_state murmur3_body_inj_state
      murmur3_round_inj_block
    using le_uint32_inj by fastforce
qed

theorem murmur3_block_injective_witness:
  "murmur3Sum32 ([] @ [1, 2, 3, 4] @ [9]) 0 \<noteq> murmur3Sum32 ([] @ [1, 2, 3, 5] @ [9]) 0"
  using murmur3_block_injective [of "[]" 1 2 3 4 "[9]" 0 1 2 3 5] by simp

end
