(* ===== verification/Consistent_Hash.thy ===== *)
theory Consistent_Hash
  imports Vindex
begin

text \<open>
  The consistent-hash vindex: \<open>internal/router/vindex_consistent.go\<close>, and the dispatcher
  \<open>ResolveShard\<close> of \<open>vindex.go\<close>. A ring is the list of virtual nodes sorted by hash and, for equal
  hashes, by shard name; a lookup is the binary search \<open>sort.Search\<close> with wrap-around.

  The process-wide \<open>ringCache\<close> (a \<open>sync.Map\<close>) is an explicit state, a map from fingerprints to
  rings. \<open>resolveConsistentHash\<close> touches it twice, with \<open>Load\<close> and, on a miss, with
  \<open>LoadOrStore\<close>; other goroutines may run in between, so the model takes the cache as each of the two
  calls finds it. The lemmas show that the cached path answers like the uncached one.
\<close>

section \<open>The ring\<close>

type_synonym chPoint = "u32 \<times> string"
type_synonym ConsistentHashRing = "chPoint list"
type_synonym ring_cache = "string \<rightharpoonup> ConsistentHashRing"

definition defaultVirtualNodes :: nat where "defaultVirtualNodes = 128"

text \<open>Distinct non-empty shard names in order of appearance.\<close>

definition ring_shards :: "ShardRangeSpec \<Rightarrow> string list" where
  "ring_shards spec = collect_distinct {} (filter (\<lambda>s. s \<noteq> []) (map entry_Shard (sr_Ranges spec)))"

fun hash_name :: "VindexHashFunction \<Rightarrow> string" where
  "hash_name VindexHashMurmur3 = ''murmur3''"
| "hash_name VindexHashFNV = ''fnv''"
| "hash_name VindexHashCRC32 = ''crc32''"
| "hash_name (VindexHashUnknown s) = s"

definition ringFingerprint :: "ShardRangeSpec \<Rightarrow> string" where
  "ringFingerprint spec =
     hash_name (vindex_Function (sr_Vindex spec)) @ ''|'' @
     Itoa (vindex_VirtualNodes (sr_Vindex spec)) @ ''|'' @ str_Join '','' (sort (ring_shards spec))"

definition ring_vnodes :: "ShardRangeSpec \<Rightarrow> nat" where
  "ring_vnodes spec =
     (let v = vindex_VirtualNodes (sr_Vindex spec) in if v \<le> 0 then defaultVirtualNodes else nat v)"

definition vnode_key :: "string \<Rightarrow> nat \<Rightarrow> string" where
  "vnode_key s v = s @ '':'' @ Itoa (int v)"

text \<open>The inner loop over the virtual nodes of one shard and the outer loop over shards; the first
  hash error ends both.\<close>

fun vnode_points :: "VindexHashFunction \<Rightarrow> string \<Rightarrow> nat list \<Rightarrow> (router_error, chPoint list) result" where
  "vnode_points fn s [] = Inr []"
| "vnode_points fn s (v # vs) =
     (case hashKey fn (vnode_key s v) of
        Inl e \<Rightarrow> Inl e
      | Inr h \<Rightarrow> (case vnode_points fn s vs of Inl e \<Rightarrow> Inl e | Inr ps \<Rightarrow> Inr ((h, s) # ps)))"

fun shard_points :: "VindexHashFunction \<Rightarrow> nat \<Rightarrow> string list \<Rightarrow> (router_error, chPoint list) result" where
  "shard_points fn n [] = Inr []"
| "shard_points fn n (s # ss) =
     (case vnode_points fn s [0..<n] of
        Inl e \<Rightarrow> Inl e
      | Inr ps \<Rightarrow> (case shard_points fn n ss of Inl e \<Rightarrow> Inl e | Inr qs \<Rightarrow> Inr (ps @ qs)))"

definition NewConsistentHashRing :: "ShardRangeSpec \<Rightarrow> (router_error, ConsistentHashRing) result" where
  "NewConsistentHashRing spec =
     (if ring_shards spec = [] then Inl ErrVindexNoMatch
      else case shard_points (vindex_Function (sr_Vindex spec)) (ring_vnodes spec) (ring_shards spec) of
             Inl e \<Rightarrow> Inl e
           | Inr points \<Rightarrow> Inr (sort points))"

text \<open>Indexing an empty ring would panic, which is the value \<open>None\<close>.\<close>

definition ring_Lookup :: "ConsistentHashRing \<Rightarrow> u32 \<Rightarrow> string option" where
  "ring_Lookup r h =
     (let i = sort_Search (length r) (\<lambda>i. h \<le> fst (r ! i));
          i = (if i = length r then 0 else i)
      in if i < length r then Some (snd (r ! i)) else None)"

definition ring_answer :: "ShardRangeSpec \<Rightarrow> string \<Rightarrow> ConsistentHashRing \<Rightarrow> (router_error, string) result" where
  "ring_answer spec key ring =
     (case hashKey (vindex_Function (sr_Vindex spec)) key of
        Inl e \<Rightarrow> Inl e
      | Inr h \<Rightarrow> (case ring_Lookup ring h of Some s \<Rightarrow> Inr s | None \<Rightarrow> Inl PanicIndexOutOfRange))"

text \<open>The first cache argument is what \<open>ringCache.Load\<close> sees, the second what \<open>LoadOrStore\<close>
  sees (a sequential call passes the same cache twice); the result pairs the answer with the cache
  left behind.\<close>

definition resolveConsistentHash ::
  "ShardRangeSpec \<Rightarrow> string \<Rightarrow> ring_cache \<Rightarrow> ring_cache \<Rightarrow> (router_error, string) result \<times> ring_cache" where
  "resolveConsistentHash spec key c1 c2 =
     (case c1 (ringFingerprint spec) of
        Some ring \<Rightarrow> (ring_answer spec key ring, c2)
      | None \<Rightarrow>
          (case NewConsistentHashRing spec of
             Inl e \<Rightarrow> (Inl e, c2)
           | Inr r \<Rightarrow>
               (case c2 (ringFingerprint spec) of
                  Some actual \<Rightarrow> (ring_answer spec key actual, c2)
                | None \<Rightarrow> (ring_answer spec key r, c2(ringFingerprint spec \<mapsto> r)))))"

definition ResolveShard_cached ::
  "ShardRangeSpec \<Rightarrow> string \<Rightarrow> ring_cache \<Rightarrow> ring_cache \<Rightarrow> (router_error, string) result \<times> ring_cache" where
  "ResolveShard_cached spec key c1 c2 =
     (case vindex_Type (sr_Vindex spec) of
        VindexTypeHash \<Rightarrow> (resolveHash spec key, c2)
      | VindexTypeRange \<Rightarrow> (resolveRange spec key, c2)
      | VindexTypeConsistentHash \<Rightarrow> resolveConsistentHash spec key c1 c2
      | VindexTypeLookup \<Rightarrow> (Inl ErrVindexUnsupported, c2)
      | VindexTypeUnknown _ \<Rightarrow> (Inl ErrVindexUnsupported, c2))"

text \<open>Resolution from an empty cache: the function the other components use. The property
  \<open>ring_cache_transparent\<close> justifies leaving the cache out.\<close>

definition ResolveShard :: "ShardRangeSpec \<Rightarrow> string \<Rightarrow> (router_error, string) result" where
  "ResolveShard spec key = fst (ResolveShard_cached spec key Map.empty Map.empty)"

section \<open>Specification of the ring\<close>

text \<open>Clockwise successor of a hash among a set of points: the least point at or after it, or the
  least point of all when the search wraps around.\<close>

definition clockwise :: "chPoint set \<Rightarrow> u32 \<Rightarrow> chPoint" where
  "clockwise P h = (let A = {p \<in> P. h \<le> fst p} in if A = {} then Min P else Min A)"

text \<open>A name outside the three known ones is what \<open>VindexHashUnknown\<close> stands for.\<close>

fun hash_known :: "VindexHashFunction \<Rightarrow> bool" where
  "hash_known (VindexHashUnknown _) = False"
| "hash_known _ = True"

fun hash_canonical :: "VindexHashFunction \<Rightarrow> bool" where
  "hash_canonical (VindexHashUnknown s) = (s \<notin> {''murmur3'', ''fnv'', ''crc32''} \<and> CHR ''|'' \<notin> set s)"
| "hash_canonical _ = True"

definition ring_points :: "VindexHashFunction \<Rightarrow> nat \<Rightarrow> string set \<Rightarrow> chPoint set" where
  "ring_points fn n S = {(h, s). s \<in> S \<and> (\<exists>v<n. hashKey fn (vnode_key s v) = Inr h)}"

text \<open>Shard names without a comma, which is the separator of the fingerprint.\<close>

definition names_ok :: "ShardRangeSpec \<Rightarrow> bool" where
  "names_ok spec \<longleftrightarrow>
     hash_canonical (vindex_Function (sr_Vindex spec)) \<and>
     (\<forall>e\<in>set (sr_Ranges spec). CHR '','' \<notin> set (entry_Shard e))"

definition cache_ok :: "ring_cache \<Rightarrow> bool" where
  "cache_ok c \<longleftrightarrow>
     (\<forall>fp ring. c fp = Some ring \<longrightarrow>
        (\<exists>spec. names_ok spec \<and> ringFingerprint spec = fp \<and> NewConsistentHashRing spec = Inr ring))"

text \<open>Example specifications with one virtual node per shard.\<close>

definition ring_demo :: "string list \<Rightarrow> ShardRangeSpec" where
  "ring_demo names =
     \<lparr> sr_Cluster = ''c'', sr_Keyspace = ''k'',
       sr_Vindex = \<lparr> vindex_Type = VindexTypeConsistentHash, vindex_Column = ''id'', vindex_Function = VindexHashMurmur3,
                     vindex_VirtualNodes = 1 \<rparr>,
       sr_Ranges = map (\<lambda>n. \<lparr> entry_Lo = [], entry_Hi = [], entry_Shard = n \<rparr>) names,
       sr_ReferenceTables = [], sr_WriteBlocked = False \<rparr>"

section \<open>Lemmas\<close>

subsection \<open>Lookup is the clockwise successor\<close>

lemma sorted_fst_mono: "sorted (r :: chPoint list) \<Longrightarrow> i \<le> j \<Longrightarrow> j < length r \<Longrightarrow> fst (r ! i) \<le> fst (r ! j)"
  by (metis (no_types, lifting) less_eq_prod_def order.strict_implies_order sorted_nth_mono)

lemma sorted_nth_Min:
  assumes "sorted r" and "i < length r" and "A \<subseteq> set r" and "r ! i \<in> A"
    and "\<And>j. j < i \<Longrightarrow> r ! j \<notin> A"
  shows "Min A = r ! i"
proof (rule Min_eqI)
  show "finite A" using assms(3) finite_subset by blast
  show "r ! i \<le> p" if "p \<in> A" for p
  proof -
    from that assms(3) obtain j where j: "j < length r" "p = r ! j" by (metis in_set_conv_nth subsetD)
    with that assms(5) have "i \<le> j" by (meson not_le)
    with j assms(1) show ?thesis by (simp add: sorted_nth_mono)
  qed
qed (rule assms(4))

lemma ring_Lookup_clockwise:
  assumes "sorted r" and "r \<noteq> []"
  shows "ring_Lookup r h = Some (snd (clockwise (set r) h))"
proof -
  let ?f = "\<lambda>i. h \<le> fst (r ! i)"
  let ?k = "sort_Search (length r) ?f"
  let ?A = "{p \<in> set r. h \<le> fst p}"
  have mono: "?f b" if "a \<le> b" "b < length r" "?f a" for a b
    using sorted_fst_mono [OF assms(1) that(1,2)] that(3) by order
  have "(\<forall>j < ?k. \<not> ?f j) \<and> (\<forall>j. ?k \<le> j \<longrightarrow> j < length r \<longrightarrow> ?f j)"
    by (rule sort_Search_boundary) (rule mono)
  then have below: "\<And>j. j < ?k \<Longrightarrow> \<not> ?f j" and above: "\<And>j. ?k \<le> j \<Longrightarrow> j < length r \<Longrightarrow> ?f j"
    by blast+
  show ?thesis
  proof (cases "?k = length r")
    case True
    then have "\<not> h \<le> fst p" if "p \<in> set r" for p using that below by (metis in_set_conv_nth)
    then have "?A = {}" by blast
    moreover have "Min (set r) = r ! 0"
      by (rule sorted_nth_Min) (use assms in auto)
    ultimately show ?thesis using True assms(2) by (simp add: ring_Lookup_def clockwise_def Let_def)
  next
    case False
    then have k: "?k < length r" using sort_Search_le [of "length r" ?f] by simp
    have "Min ?A = r ! ?k"
      by (rule sorted_nth_Min [OF assms(1) k]) (use below above [of ?k] k in auto)
    moreover have ne: "?A \<noteq> {}" using above [of ?k] k nth_mem [OF k] by blast
    moreover have "clockwise (set r) h = Min ?A"
      unfolding clockwise_def Let_def by (rule if_not_P [OF ne])
    ultimately show ?thesis using False k by (simp add: ring_Lookup_def Let_def)
  qed
qed

text \<open>Adding points changes the successor of a hash only to one of the new points.\<close>

lemma clockwise_Un:
  assumes "finite P" and "finite Q" and "P \<noteq> {}"
  shows "clockwise (P \<union> Q) h = clockwise P h \<or> clockwise (P \<union> Q) h \<in> Q"
proof -
  let ?ge = "\<lambda>S. {p \<in> S. h \<le> fst p}"
  have min_un: "Min (S \<union> T) = Min S \<or> Min (S \<union> T) \<in> T" if "finite S" "finite T" "S \<noteq> {}" for S T :: "chPoint set"
    using that by (cases "T = {}") (auto simp: Min_Un min_def)
  have split: "?ge (P \<union> Q) = ?ge P \<union> ?ge Q" by auto
  have fin: "finite (?ge P)" "finite (?ge Q)" using assms by auto
  show ?thesis
  proof (cases "?ge P = {}")
    case P: True
    show ?thesis
    proof (cases "?ge Q = {}")
      case True
      with P split have "?ge (P \<union> Q) = {}" by simp
      then show ?thesis using min_un [OF assms] P by (simp add: clockwise_def Let_def)
    next
      case False
      then have "Min (?ge Q) \<in> Q" using fin Min_in by blast
      moreover have "clockwise (P \<union> Q) h = Min (?ge Q)"
        unfolding clockwise_def Let_def split P Un_empty_left by (rule if_not_P [OF False])
      ultimately show ?thesis by simp
    qed
  next
    case False
    then have ne: "?ge P \<union> ?ge Q \<noteq> {}" by blast
    have "clockwise (P \<union> Q) h = Min (?ge P \<union> ?ge Q)"
      unfolding clockwise_def Let_def split by (rule if_not_P [OF ne])
    moreover have "clockwise P h = Min (?ge P)"
      unfolding clockwise_def Let_def by (rule if_not_P [OF False])
    ultimately show ?thesis using min_un [OF fin False] by auto
  qed
qed

subsection \<open>The points of a ring\<close>

lemma hashKey_known: "hash_known fn \<Longrightarrow> \<exists>h. hashKey fn k = Inr h"
  by (cases fn) auto

lemma hashKey_unknown: "\<not> hash_known fn \<Longrightarrow> hashKey fn k = Inl ErrVindexUnsupported"
  by (cases fn) auto

lemma vnode_points_known: "hash_known fn \<Longrightarrow> \<exists>ps. vnode_points fn s vs = Inr ps"
proof (induction vs)
  case (Cons v vs)
  with hashKey_known [of fn "vnode_key s v"] show ?case by auto
qed simp

lemma shard_points_known: "hash_known fn \<Longrightarrow> \<exists>ps. shard_points fn n ss = Inr ps"
proof (induction ss)
  case (Cons s ss)
  with vnode_points_known [of fn s "[0..<n]"] show ?case by auto
qed simp

lemma vnode_points_set:
  "vnode_points fn s vs = Inr ps \<Longrightarrow>
     set ps = {(h, t). t = s \<and> (\<exists>v\<in>set vs. hashKey fn (vnode_key s v) = Inr h)}"
proof (induction vs arbitrary: ps)
  case (Cons v vs)
  then obtain h qs where "hashKey fn (vnode_key s v) = Inr h" "vnode_points fn s vs = Inr qs" "ps = (h, s) # qs"
    by (auto split: sum.splits)
  with Cons.IH show ?case by auto
qed simp

lemma shard_points_set: "shard_points fn n ss = Inr ps \<Longrightarrow> set ps = ring_points fn n (set ss)"
proof (induction ss arbitrary: ps)
  case (Cons s ss)
  then obtain vs qs where vs: "vnode_points fn s [0..<n] = Inr vs" and qs: "shard_points fn n ss = Inr qs"
    and ps: "ps = vs @ qs"
    by (auto split: sum.splits)
  have "set vs = ring_points fn n {s}"
    using vnode_points_set [OF vs] by (auto simp: ring_points_def)
  with Cons.IH [OF qs] ps show ?case by (auto simp: ring_points_def)
qed (simp add: ring_points_def)

lemma ring_vnodes_pos: "0 < ring_vnodes spec"
  by (simp add: ring_vnodes_def defaultVirtualNodes_def Let_def)

lemma ring_points_nonempty:
  assumes "hash_known fn" and "0 < n" and "S \<noteq> {}"
  shows "ring_points fn n S \<noteq> {}"
proof -
  from assms(3) obtain s where "s \<in> S" by blast
  moreover obtain h where "hashKey fn (vnode_key s 0) = Inr h" using hashKey_known [OF assms(1)] by blast
  ultimately have "(h, s) \<in> ring_points fn n S" using assms(2) by (auto simp: ring_points_def)
  then show ?thesis by blast
qed

lemma NewRing_unknown:
  "\<not> hash_known (vindex_Function (sr_Vindex spec)) \<Longrightarrow> \<exists>e. NewConsistentHashRing spec = Inl e"
proof (cases "ring_shards spec")
  case (Cons s ss)
  assume unknown: "\<not> hash_known (vindex_Function (sr_Vindex spec))"
  have "[0..<ring_vnodes spec] = 0 # [1..<ring_vnodes spec]"
    using ring_vnodes_pos [of spec] by (simp add: upt_conv_Cons)
  with Cons hashKey_unknown [OF unknown] show ?thesis by (simp add: NewConsistentHashRing_def)
qed (simp add: NewConsistentHashRing_def)

lemma NewRing_Inr:
  assumes "NewConsistentHashRing spec = Inr r"
  shows "hash_known (vindex_Function (sr_Vindex spec))" and "ring_shards spec \<noteq> []" and "sorted r"
    and "set r = ring_points (vindex_Function (sr_Vindex spec)) (ring_vnodes spec) (set (ring_shards spec))"
    and "r \<noteq> []"
proof -
  let ?fn = "vindex_Function (sr_Vindex spec)"
  show known: "hash_known ?fn" using NewRing_unknown [of spec] assms by auto
  show ne: "ring_shards spec \<noteq> []" using assms by (auto simp: NewConsistentHashRing_def)
  from ne assms obtain ps where ps: "shard_points ?fn (ring_vnodes spec) (ring_shards spec) = Inr ps"
    and r: "r = sort ps"
    by (auto simp: NewConsistentHashRing_def split: sum.splits)
  show "sorted r" by (simp add: r)
  show eq: "set r = ring_points ?fn (ring_vnodes spec) (set (ring_shards spec))"
    using shard_points_set [OF ps] by (simp add: r)
  show "r \<noteq> []"
    using ring_points_nonempty [OF known ring_vnodes_pos [of spec], of "set (ring_shards spec)"] ne eq by auto
qed

lemma NewRing_known:
  assumes "hash_known (vindex_Function (sr_Vindex spec))" and "ring_shards spec \<noteq> []"
  shows "\<exists>r. NewConsistentHashRing spec = Inr r"
  using shard_points_known [OF assms(1), of "ring_vnodes spec" "ring_shards spec"] assms(2)
  by (auto simp: NewConsistentHashRing_def)

text \<open>The answer of a ring depends only on its set of points.\<close>

lemma ring_answer_set:
  assumes "sorted r" "r \<noteq> []" "sorted r'" "set r = set r'"
  shows "ring_answer spec key r = ring_answer spec key r'"
proof -
  have "r' \<noteq> []" using assms(2,4) by auto
  then show ?thesis
    using assms by (simp add: ring_answer_def ring_Lookup_clockwise split: sum.split)
qed

subsection \<open>The fingerprint determines the ring\<close>

lemma hash_name_inj:
  "hash_canonical f \<Longrightarrow> hash_canonical g \<Longrightarrow> hash_name f = hash_name g \<Longrightarrow> f = g"
  by (cases f; cases g) auto

lemma hash_name_no_bar: "hash_canonical f \<Longrightarrow> CHR ''|'' \<notin> set (hash_name f)"
  by (cases f) auto

lemma set_ring_shards: "set (ring_shards spec) = {s \<in> entry_Shard ` set (sr_Ranges spec). s \<noteq> []}"
  by (auto simp: ring_shards_def set_collect_distinct)

lemma fingerprint_inj:
  assumes "ringFingerprint s1 = ringFingerprint s2" and "names_ok s1" and "names_ok s2"
  shows "vindex_Function (sr_Vindex s1) = vindex_Function (sr_Vindex s2)"
    and "vindex_VirtualNodes (sr_Vindex s1) = vindex_VirtualNodes (sr_Vindex s2)"
    and "set (ring_shards s1) = set (ring_shards s2)"
proof -
  have bar: "CHR ''|'' \<notin> set (Itoa i)" for i using Itoa_chars [of "CHR ''|''" i] by auto
  let ?rest = "\<lambda>s. Itoa (vindex_VirtualNodes (sr_Vindex s)) @ CHR ''|'' # str_Join '','' (sort (ring_shards s))"
  have "hash_name (vindex_Function (sr_Vindex s1)) @ CHR ''|'' # ?rest s1 =
        hash_name (vindex_Function (sr_Vindex s2)) @ CHR ''|'' # ?rest s2"
    using assms(1) by (simp add: ringFingerprint_def)
  then have fn: "hash_name (vindex_Function (sr_Vindex s1)) = hash_name (vindex_Function (sr_Vindex s2))"
    and rest: "?rest s1 = ?rest s2"
    using assms(2,3) split_at_first hash_name_no_bar by (metis names_ok_def)+
  show "vindex_Function (sr_Vindex s1) = vindex_Function (sr_Vindex s2)"
    using fn assms(2,3) hash_name_inj by (simp add: names_ok_def)
  from split_at_first [OF rest bar bar]
  have vn: "Itoa (vindex_VirtualNodes (sr_Vindex s1)) = Itoa (vindex_VirtualNodes (sr_Vindex s2))"
    and join: "str_Join '','' (sort (ring_shards s1)) = str_Join '','' (sort (ring_shards s2))" by auto
  show "vindex_VirtualNodes (sr_Vindex s1) = vindex_VirtualNodes (sr_Vindex s2)"
    using Itoa_inj [OF vn] .
  have words: "\<forall>w\<in>set (sort (ring_shards s)). w \<noteq> [] \<and> CHR '','' \<notin> set w" if "names_ok s" for s
    using that by (auto simp: set_ring_shards names_ok_def)
  have "sort (ring_shards s1) = sort (ring_shards s2)"
    using join words [OF assms(2)] words [OF assms(3)] by (rule str_Join_inj)
  then show "set (ring_shards s1) = set (ring_shards s2)" by (metis set_sort)
qed

lemma cached_ring_answer:
  assumes "cache_ok c" and "names_ok spec" and "c (ringFingerprint spec) = Some ring"
  shows "\<exists>r. NewConsistentHashRing spec = Inr r \<and> ring_answer spec key ring = ring_answer spec key r"
proof -
  from assms(1,3) obtain s0 where s0: "names_ok s0" "ringFingerprint s0 = ringFingerprint spec"
    "NewConsistentHashRing s0 = Inr ring" unfolding cache_ok_def by blast
  note inj = fingerprint_inj [OF s0(2,1) assms(2)]
  note new0 = NewRing_Inr [OF s0(3)]
  have "ring_shards spec \<noteq> []" using inj(3) new0(2) by auto
  with new0(1) inj(1) obtain r where r: "NewConsistentHashRing spec = Inr r"
    using NewRing_known [of spec] by auto
  have "set r = set ring"
    using NewRing_Inr(4) [OF r] new0(4) inj by (simp add: ring_vnodes_def)
  with r NewRing_Inr(3,5) [OF r] new0(3,5) show ?thesis using ring_answer_set by metis
qed

lemma cache_ok_update:
  assumes "cache_ok c" and "names_ok spec" and "NewConsistentHashRing spec = Inr r"
  shows "cache_ok (c(ringFingerprint spec \<mapsto> r))"
  using assms by (auto simp: cache_ok_def)

lemma cache_ok_empty [simp]: "cache_ok Map.empty"
  by (simp add: cache_ok_def)

lemma resolveConsistentHash_uncached:
  "fst (resolveConsistentHash spec key Map.empty Map.empty) =
     (case NewConsistentHashRing spec of Inl e \<Rightarrow> Inl e | Inr r \<Rightarrow> ring_answer spec key r)"
  by (simp add: resolveConsistentHash_def split: sum.split)

lemma resolveConsistentHash_cached:
  assumes "cache_ok c1" and "cache_ok c2" and "names_ok spec"
  shows "fst (resolveConsistentHash spec key c1 c2) = fst (resolveConsistentHash spec key Map.empty Map.empty)"
    and "cache_ok (snd (resolveConsistentHash spec key c1 c2))"
proof -
  let ?plain = "case NewConsistentHashRing spec of Inl e \<Rightarrow> Inl e | Inr r \<Rightarrow> ring_answer spec key r"
  have hit: "ring_answer spec key ring = ?plain"
    if "cache_ok c" "c (ringFingerprint spec) = Some ring" for c ring
    using cached_ring_answer [OF that(1) assms(3) that(2), of key] by (elim exE conjE) simp
  have "fst (resolveConsistentHash spec key c1 c2) = ?plain"
  proof (cases "c1 (ringFingerprint spec)")
    case (Some ring)
    then show ?thesis using hit [OF assms(1) Some] by (simp add: resolveConsistentHash_def)
  next
    case None
    show ?thesis
    proof (cases "c2 (ringFingerprint spec)")
      case (Some ring)
      have "NewConsistentHashRing spec \<noteq> Inl e" for e
        using cached_ring_answer [OF assms(2,3) Some, of key] by (elim exE conjE) simp
      then show ?thesis
        using hit [OF assms(2) Some] None Some
        by (cases "NewConsistentHashRing spec") (simp_all add: resolveConsistentHash_def)
    qed (simp add: None resolveConsistentHash_def split: sum.split)
  qed
  then show "fst (resolveConsistentHash spec key c1 c2) = fst (resolveConsistentHash spec key Map.empty Map.empty)"
    by (simp only: resolveConsistentHash_uncached)
  show "cache_ok (snd (resolveConsistentHash spec key c1 c2))"
    using assms(2) cache_ok_update [OF assms(2,3)]
    by (simp add: resolveConsistentHash_def split: option.split sum.split)
qed

text \<open>Resolution on a consistent-hash vindex, in terms of the points alone.\<close>

lemma clockwise_in: "finite P \<Longrightarrow> P \<noteq> {} \<Longrightarrow> clockwise P h \<in> P"
proof -
  assume fin: "finite P" and ne: "P \<noteq> {}"
  let ?A = "{p \<in> P. h \<le> fst p}"
  have "?A \<noteq> {} \<Longrightarrow> Min ?A \<in> ?A" using fin by (intro Min_in) auto
  then show ?thesis using Min_in [OF fin ne] by (auto simp: clockwise_def Let_def)
qed

lemma ring_answer_clockwise:
  assumes "NewConsistentHashRing spec = Inr r" and "hashKey (vindex_Function (sr_Vindex spec)) key = Inr h"
  shows "ring_answer spec key r =
    Inr (snd (clockwise (ring_points (vindex_Function (sr_Vindex spec)) (ring_vnodes spec) (set (ring_shards spec))) h))"
  using NewRing_Inr [OF assms(1)] assms(2) by (simp add: ring_answer_def ring_Lookup_clockwise)

lemma ring_answer_shard:
  assumes "NewConsistentHashRing spec = Inr r" and "ring_answer spec' key r = Inr s"
  shows "s \<in> set (ring_shards spec)"
proof -
  note new = NewRing_Inr [OF assms(1)]
  from assms(2) obtain h where "ring_Lookup r h = Some s"
    by (auto simp: ring_answer_def split: sum.splits option.splits)
  then have "s = snd (clockwise (set r) h)" by (simp add: ring_Lookup_clockwise [OF new(3,5)])
  moreover have "clockwise (set r) h \<in> set r" using new(5) by (simp add: clockwise_in)
  ultimately show ?thesis using new(4) by (auto simp: ring_points_def)
qed

lemma ResolveShard_ring:
  assumes "vindex_Type (sr_Vindex spec) = VindexTypeConsistentHash"
    and "hash_known (vindex_Function (sr_Vindex spec))" and "ring_shards spec \<noteq> []"
  obtains h where "hashKey (vindex_Function (sr_Vindex spec)) key = Inr h"
    and "ResolveShard spec key =
      Inr (snd (clockwise (ring_points (vindex_Function (sr_Vindex spec)) (ring_vnodes spec) (set (ring_shards spec))) h))"
proof -
  obtain h where h: "hashKey (vindex_Function (sr_Vindex spec)) key = Inr h"
    using hashKey_known [OF assms(2)] by blast
  obtain r where r: "NewConsistentHashRing spec = Inr r" using NewRing_known [OF assms(2,3)] by blast
  show ?thesis
    by (rule that [OF h])
       (simp add: ResolveShard_def ResolveShard_cached_def assms(1) resolveConsistentHash_uncached r
         ring_answer_clockwise [OF r h])
qed

lemma finite_ring_points: "finite S \<Longrightarrow> finite (ring_points fn n S)"
proof -
  assume "finite S"
  have "ring_points fn n S \<subseteq> (\<lambda>(s, v). (projr (hashKey fn (vnode_key s v)), s)) ` (S \<times> {..<n})"
    by (force simp: ring_points_def image_iff)
  with \<open>finite S\<close> show ?thesis by (meson finite_SigmaI finite_imageI finite_lessThan finite_subset)
qed

lemma ring_points_insert: "ring_points fn n (insert s S) = ring_points fn n S \<union> ring_points fn n {s}"
  by (auto simp: ring_points_def)

section \<open>Properties\<close>

text \<open>C15: A consistent-hash vindex sends a key to the shard that owns the clockwise successor of the
  key's hash among the virtual nodes (hashes of \<open>shard:0\<close>, \<open>shard:1\<close>, ...) of the non-empty shard
  names of the spec; it fails with no match exactly when there is no such name.\<close>

theorem consistent_hash_successor:
  assumes "vindex_Type (sr_Vindex spec) = VindexTypeConsistentHash"
    and "hash_known (vindex_Function (sr_Vindex spec))"
  shows "ResolveShard spec key =
    (if ring_shards spec = [] then Inl ErrVindexNoMatch
     else Inr (snd (clockwise
       (ring_points (vindex_Function (sr_Vindex spec)) (ring_vnodes spec) (set (ring_shards spec)))
       (projr (hashKey (vindex_Function (sr_Vindex spec)) key)))))"
proof (cases "ring_shards spec = []")
  case True
  then show ?thesis
    by (simp add: ResolveShard_def ResolveShard_cached_def assms(1) resolveConsistentHash_uncached
      NewConsistentHashRing_def)
next
  case False
  with ResolveShard_ring [OF assms, of key] show ?thesis by force
qed

theorem consistent_hash_successor_witness:
  "ResolveShard (ring_demo [''a'', ''b'']) ''k'' =
     Inr (snd (clockwise (ring_points VindexHashMurmur3 1 {''a'', ''b''}) (murmur3Sum32 (bytes ''k'') 0)))"
  using consistent_hash_successor [of "ring_demo [''a'', ''b'']" "''k''"]
  by (simp add: ring_demo_def ring_shards_def ring_vnodes_def)

text \<open>C16: Minimal movement. When one shard name \<open>s\<close> is added to a consistent-hash spec, every key either
  keeps its shard or moves to \<open>s\<close>: no key moves between two old shards.\<close>

theorem consistent_hash_minimal_movement:
  assumes "vindex_Type (sr_Vindex spec) = VindexTypeConsistentHash"
    and "hash_known (vindex_Function (sr_Vindex spec))" and "ring_shards spec \<noteq> []"
    and "sr_Vindex spec' = sr_Vindex spec"
    and "set (ring_shards spec') = insert s (set (ring_shards spec))"
  shows "\<exists>a b. ResolveShard spec key = Inr a \<and> ResolveShard spec' key = Inr b \<and> (b = a \<or> b = s)"
proof -
  let ?fn = "vindex_Function (sr_Vindex spec)"
  let ?P = "ring_points ?fn (ring_vnodes spec) (set (ring_shards spec))"
  let ?Q = "ring_points ?fn (ring_vnodes spec) {s}"
  obtain h where h: "hashKey ?fn key = Inr h" and a: "ResolveShard spec key = Inr (snd (clockwise ?P h))"
    using ResolveShard_ring [OF assms(1-3)] .
  have "ring_shards spec' \<noteq> []" "ring_vnodes spec' = ring_vnodes spec"
    using assms(4,5) by (auto simp: ring_vnodes_def)
  then have b: "ResolveShard spec' key = Inr (snd (clockwise (?P \<union> ?Q) h))"
    using ResolveShard_ring [of spec' key] assms(1,2,4,5) h ring_points_insert by (metis Inr_inject)
  have "clockwise (?P \<union> ?Q) h = clockwise ?P h \<or> clockwise (?P \<union> ?Q) h \<in> ?Q"
    using assms(2,3) ring_points_nonempty ring_vnodes_pos
    by (intro clockwise_Un finite_ring_points) (auto simp: finite_ring_points)
  with a b show ?thesis by (auto simp: ring_points_def)
qed

theorem consistent_hash_minimal_movement_witness:
  "\<exists>a b. ResolveShard (ring_demo [''a'', ''b'']) ''k'' = Inr a \<and>
         ResolveShard (ring_demo [''a'', ''s'', ''b'']) ''k'' = Inr b \<and> (b = a \<or> b = ''s'')"
  by (rule consistent_hash_minimal_movement)
     (auto simp: ring_demo_def ring_shards_def ring_vnodes_def)



text \<open>C40: The condition on commas is needed. A spec with the single shard \<open>a,b\<close> has the fingerprint
  of the spec with the shards \<open>a\<close> and \<open>b\<close>; once the latter's ring is cached, every key of the former
  resolves to a shard that it does not name.\<close>

theorem ring_cache_comma_collision:
  "\<exists>s. fst (resolveConsistentHash (ring_demo [''a,b'']) key
           (snd (resolveConsistentHash (ring_demo [''a'', ''b'']) key0 Map.empty Map.empty))
           (snd (resolveConsistentHash (ring_demo [''a'', ''b'']) key0 Map.empty Map.empty))) = Inr s \<and>
       s \<notin> set (ring_shards (ring_demo [''a,b'']))"
proof -
  let ?s1 = "ring_demo [''a'', ''b'']" and ?s2 = "ring_demo [''a,b'']"
  have shards: "ring_shards ?s1 = [''a'', ''b'']" "ring_shards ?s2 = [''a,b'']"
    by (simp_all add: ring_demo_def ring_shards_def)
  have fp: "ringFingerprint ?s2 = ringFingerprint ?s1"
    by (simp add: ringFingerprint_def shards) (simp add: ring_demo_def)
  obtain r where r: "NewConsistentHashRing ?s1 = Inr r"
    using NewRing_known [of ?s1] shards by (auto simp: ring_demo_def)
  have hit: "fst (resolveConsistentHash ?s2 key (Map.empty(ringFingerprint ?s1 \<mapsto> r))
      (Map.empty(ringFingerprint ?s1 \<mapsto> r))) = ring_answer ?s2 key r"
    by (simp add: resolveConsistentHash_def fp)
  have c: "snd (resolveConsistentHash ?s1 key0 Map.empty Map.empty) = Map.empty(ringFingerprint ?s1 \<mapsto> r)"
    by (simp add: resolveConsistentHash_def r)
  obtain h where "hashKey (vindex_Function (sr_Vindex ?s2)) key = Inr h"
    by (simp add: ring_demo_def)
  then obtain s where s: "ring_answer ?s2 key r = Inr s"
    using NewRing_Inr [OF r] by (simp add: ring_answer_def ring_Lookup_clockwise)
  with ring_answer_shard [OF r s] shards hit c show ?thesis by auto
qed

end
