(* ===== verification/Resharding.thy ===== *)
theory Resharding
  imports Vindex
begin

text \<open>
  The arithmetic of online resharding: \<open>internal/router/resharding.go\<close>. \<open>SplitHashRange\<close> halves
  a hash range, \<open>hexSuccessor\<close> adds one to a fixed-width hexadecimal bound, byte by byte, and
  \<open>ValidateSplitPlan\<close> accepts a plan when sources and targets are gapless, free of overlaps and
  span the same bounds. Bounds are strings that the code compares bytewise; the lemmas relate this
  to the numeric order for bounds in the fixed-width form that \<open>formatHashBound\<close> prints.
\<close>

named_theorems reshard \<open>definitions of the resharding component\<close>

section \<open>Definitions\<close>

definition formatHashBound :: "u32 \<Rightarrow> string" where
  "formatHashBound v = ''0x'' @ fixed_hex 8 (unat v)"

definition SplitHashRange :: "string \<Rightarrow> string \<Rightarrow> (router_error, string \<times> string \<times> string \<times> string) result" where
  "SplitHashRange lo hi =
     (case parseHashBound lo of
        Inl e \<Rightarrow> Inl e
      | Inr l \<Rightarrow>
          (case parseHashBound hi of
             Inl e \<Rightarrow> Inl e
           | Inr h \<Rightarrow>
               if h < l then Inl ErrSplitLoAboveHi
               else if h = l then Inl ErrHashRangeTooSmall
               else let mid = l + (h - l) div 2 in
                    Inr (formatHashBound l, formatHashBound mid, formatHashBound (mid + 1), formatHashBound h)))"

text \<open>The loop of \<open>hexSuccessor\<close> runs over the bytes from the last to the first, so its model reads
  the reversed body; \<open>None\<close> stands for the two branches that return the input unchanged.\<close>

definition next_byte :: "char \<Rightarrow> char" where
  "next_byte c = char_of (of_char c + (1 :: nat))"

fun hex_carry :: "string \<Rightarrow> string option" where
  "hex_carry [] = None"
| "hex_carry (c # cs) =
     (if CHR ''0'' \<le> c \<and> c < CHR ''9'' \<or> CHR ''a'' \<le> c \<and> c < CHR ''f'' then Some (next_byte c # cs)
      else if c = CHR ''9'' then Some (CHR ''a'' # cs)
      else if c = CHR ''f'' then (case hex_carry cs of Some r \<Rightarrow> Some (CHR ''0'' # r) | None \<Rightarrow> None)
      else None)"

definition restore :: "bool \<Rightarrow> string \<Rightarrow> string" where
  "restore hasPrefix body = (if hasPrefix then ''0x'' @ body else body)"

definition hexSuccessor :: "string \<Rightarrow> string" where
  "hexSuccessor s =
     (let hasPrefix = (2 \<le> length s \<and> take 2 s = ''0x'');
          body = (if hasPrefix then drop 2 s else s)
      in case hex_carry (rev body) of Some r \<Rightarrow> restore hasPrefix (rev r) | None \<Rightarrow> s)"

definition adjacent :: "string \<Rightarrow> string \<Rightarrow> bool" where
  "adjacent hi lo = (hexSuccessor hi = lo)"

text \<open>The loop of \<open>contiguousSpan\<close>; its first argument is the previous entry (\<open>None\<close> when \<open>i = 0\<close>).\<close>

fun span_check :: "ShardRangeEntry option \<Rightarrow> ShardRangeEntry list \<Rightarrow> (router_error, unit) result" where
  "span_check prev [] = Inr ()"
| "span_check prev (r # rs) =
     (if entry_Hi r < entry_Lo r then Inl (ErrRangeLoAboveHi (entry_Lo r) (entry_Hi r))
      else case prev of
             None \<Rightarrow> span_check (Some r) rs
           | Some p \<Rightarrow>
               if entry_Lo r \<le> entry_Hi p then Inl ErrSplitPlanOverlap
               else if \<not> adjacent (entry_Hi p) (entry_Lo r) then Inl ErrSplitPlanGap
               else span_check (Some r) rs)"

definition contiguousSpan :: "ShardRangeEntry list \<Rightarrow> (router_error, string \<times> string) result" where
  "contiguousSpan ranges =
     (if ranges = [] then Inl ErrEmptyRangeList
      else let sorted = sort_key entry_Lo ranges in
           case span_check None sorted of
             Inl e \<Rightarrow> Inl e
           | Inr _ \<Rightarrow> Inr (entry_Lo (hd sorted), entry_Hi (last sorted)))"

definition ValidateSplitPlan :: "ShardRangeEntry list \<Rightarrow> ShardRangeEntry list \<Rightarrow> (router_error, unit) result" where
  "ValidateSplitPlan sources targets =
     (case contiguousSpan sources of
        Inl e \<Rightarrow> Inl e
      | Inr (sLo, sHi) \<Rightarrow>
          (case contiguousSpan targets of
             Inl e \<Rightarrow> Inl e
           | Inr (tLo, tHi) \<Rightarrow>
               if sLo \<noteq> tLo \<or> sHi \<noteq> tHi then Inl ErrSplitPlanCoverage else Inr ()))"

lemmas [reshard] = formatHashBound_def SplitHashRange_def next_byte_def restore_def hexSuccessor_def
  adjacent_def contiguousSpan_def ValidateSplitPlan_def

section \<open>Specification\<close>

text \<open>A bound is canonical when it is what \<open>formatHashBound\<close> prints; \<open>bound_val\<close> is its number and
  \<open>ivl\<close> the interval of an entry. \<open>chain\<close> says that intervals follow each other without a gap.\<close>

definition canonical_bound :: "string \<Rightarrow> bool" where
  "canonical_bound s = (case parseHashBound s of Inr v \<Rightarrow> formatHashBound v = s | Inl _ \<Rightarrow> False)"

definition canonical_entry :: "ShardRangeEntry \<Rightarrow> bool" where
  "canonical_entry e \<longleftrightarrow> canonical_bound (entry_Lo e) \<and> canonical_bound (entry_Hi e)"

definition bound_val :: "string \<Rightarrow> nat" where
  "bound_val s = (case parseHashBound s of Inr v \<Rightarrow> unat v | Inl _ \<Rightarrow> 0)"

definition ivl :: "ShardRangeEntry \<Rightarrow> nat \<times> nat" where
  "ivl e = (bound_val (entry_Lo e), bound_val (entry_Hi e))"

fun chain :: "(nat \<times> nat) list \<Rightarrow> bool" where
  "chain (p # q # ps) \<longleftrightarrow> fst p \<le> snd p \<and> fst q = Suc (snd p) \<and> chain (q # ps)"
| "chain [p] \<longleftrightarrow> fst p \<le> snd p"
| "chain [] \<longleftrightarrow> True"

text \<open>The entries cover the hash values from \<open>lo\<close> to \<open>hi\<close> once each and no other value.\<close>

definition covers_exactly :: "ShardRangeEntry list \<Rightarrow> u32 \<Rightarrow> u32 \<Rightarrow> bool" where
  "covers_exactly es lo hi \<longleftrightarrow>
     (\<forall>e\<in>set es. well_bounded e) \<and>
     (\<forall>h. length (filter (entry_covers h) es) = (if lo \<le> h \<and> h \<le> hi then 1 else 0))"

section \<open>Lemmas\<close>

subsection \<open>Printing and parsing bounds\<close>

lemma unat_less_16_8: "unat (v :: u32) < 16 ^ 8"
  using unsigned_less [of v] by simp

lemma parse_formatHashBound: "parseHashBound (formatHashBound v) = Inr v"
proof -
  have "parse_prefix (formatHashBound v) = (16, fixed_hex 8 (unat v))"
    by (simp add: parse_prefix_def formatHashBound_def lower_byte_def)
  moreover have "unat v \<le> 2 ^ 32 - 1" using unat_less_16_8 [of v] by simp
  ultimately have "ParseUint (formatHashBound v) 0 32 = Some (unat v)"
    using parse_digits_fixed_hex [OF unat_less_16_8, of v "2 ^ 32 - 1" True]
    by (simp add: ParseUint_def underscore_notin_fixed_hex formatHashBound_def)
  then show ?thesis by (simp add: parseHashBound_def)
qed

lemma formatHashBound_le_iff: "(formatHashBound a \<le> formatHashBound b) = (a \<le> b)"
  by (simp add: formatHashBound_def fixed_hex_le_iff [OF unat_less_16_8 unat_less_16_8] word_le_nat_alt)

lemma formatHashBound_less_iff: "(formatHashBound a < formatHashBound b) = (a < b)"
  by (simp add: formatHashBound_def fixed_hex_less_iff [OF unat_less_16_8 unat_less_16_8] word_less_nat_alt)

lemma formatHashBound_inj: "(formatHashBound a = formatHashBound b) = (a = b)"
  using parse_formatHashBound by (metis Inr_inject)

lemma canonical_bound_format [simp]: "canonical_bound (formatHashBound v)"
  by (simp add: canonical_bound_def parse_formatHashBound)

lemma bound_val_format [simp]: "bound_val (formatHashBound v) = unat v"
  by (simp add: bound_val_def parse_formatHashBound)

lemma canonical_boundE:
  assumes "canonical_bound s" obtains v where "s = formatHashBound v"
  using assms by (auto simp: canonical_bound_def split: sum.splits)

subsection \<open>The successor of a bound\<close>

lemma hex_carry_digit: "d < 15 \<Longrightarrow> hex_carry (digit_char d # cs) = Some (digit_char (Suc d) # cs)"
proof -
  assume "d < 15"
  then have "d \<in> set [0..<15]" by simp
  moreover have "\<forall>d\<in>set [0..<15]. hex_carry (digit_char d # cs) = Some (digit_char (Suc d) # cs)"
    by (simp add: upt_rec next_byte_def digit_char_def char_of_def bit_Suc_0_iff)
  ultimately show ?thesis by blast
qed

lemma hex_carry_fixed_hex:
  "Suc n < 16 ^ w \<Longrightarrow> hex_carry (rev (fixed_hex w n)) = Some (rev (fixed_hex w (Suc n)))"
proof (induction w arbitrary: n)
  case (Suc w)
  show ?case
  proof (cases "n mod 16 = 15")
    case True
    then have "Suc n mod 16 = 0" "Suc n div 16 = Suc (n div 16)" by (simp_all add: mod_Suc div_Suc)
    moreover have "Suc n div 16 < 16 ^ w"
      by (rule less_mult_imp_div_less) (use Suc.prems in simp)
    ultimately show ?thesis using True Suc.IH by (simp add: digit_char_def)
  next
    case False
    then have "Suc n mod 16 = Suc (n mod 16)" "Suc n div 16 = n div 16" "n mod 16 < 15"
      using mod_less_divisor [of 16 n] by (simp_all add: mod_Suc div_Suc)
    then show ?thesis by (simp add: hex_carry_digit del: hex_carry.simps)
  qed
qed simp

lemma hexSuccessor_format:
  assumes "v \<noteq> 0xffffffff"
  shows "hexSuccessor (formatHashBound v) = formatHashBound (v + 1)"
proof -
  have "(- 1 :: u32) = 0xffffffff" by simp
  then have "1 + v \<noteq> 0" using assms by (metis add.commute eq_neg_iff_add_eq_0)
  then have un: "unat (v + 1) = Suc (unat v)" using unatSuc [of v] by (simp add: add.commute)
  have "Suc (unat v) < 16 ^ 8" using unat_less_16_8 [of "v + 1"] un by simp
  from hex_carry_fixed_hex [OF this] show ?thesis
    by (simp add: hexSuccessor_def formatHashBound_def restore_def un)
qed

subsection \<open>Chains of intervals\<close>

lemma chain_bounds: "chain (p # ps) \<Longrightarrow> fst p \<le> snd (last (p # ps))"
proof (induction ps arbitrary: p)
  case (Cons q ps)
  then have "fst p \<le> snd p" "fst q = Suc (snd p)" "chain (q # ps)" by simp_all
  with Cons.IH [of q] show ?case by simp
qed simp

lemma chain_hd: "chain (p # ps) \<Longrightarrow> fst p \<le> snd p"
  by (cases ps) simp_all

lemma chain_count:
  "chain (p # ps) \<Longrightarrow>
     length (filter (ivl_covers h) (p # ps)) = (if fst p \<le> h \<and> h \<le> snd (last (p # ps)) then 1 else 0)"
proof (induction ps arbitrary: p)
  case (Cons q ps)
  then have p: "fst p \<le> snd p" "fst q = Suc (snd p)" and q: "chain (q # ps)" by auto
  define hi where "hi = snd (last (q # ps))"
  have "length (filter (ivl_covers h) (p # q # ps)) =
      (if ivl_covers h p then 1 else 0) + length (filter (ivl_covers h) (q # ps))" by simp
  also have "\<dots> = (if fst p \<le> h \<and> h \<le> hi then 1 else 0)"
    using chain_bounds [OF q] p unfolding Cons.IH [OF q] hi_def [symmetric] ivl_covers_def by auto
  finally show ?case by (simp add: hi_def)
qed (simp add: ivl_covers_def)

lemma count_pos: "p \<in> set ps \<Longrightarrow> P p \<Longrightarrow> 0 < length (filter P ps)"
  by (auto simp: filter_empty_conv)

lemma exact_cover_chain:
  assumes "sorted (map fst ps)" and "\<forall>p\<in>set ps. fst p \<le> snd p" and "ps \<noteq> []" and "lo \<le> hi"
    and "\<forall>h. length (filter (ivl_covers h) ps) = (if lo \<le> h \<and> h \<le> hi then 1 else 0)"
  shows "chain ps \<and> fst (hd ps) = lo \<and> snd (last ps) = hi"
  using assms
proof (induction ps arbitrary: lo)
  case (Cons p ps)
  let ?c = "\<lambda>h xs. length (filter (ivl_covers h) xs)"
  have p: "fst p \<le> snd p" using Cons.prems(2) by simp
  have inside: "lo \<le> h \<and> h \<le> hi" if "q \<in> set (p # ps)" "ivl_covers h q" for q h
    using count_pos [of q "p # ps" "ivl_covers h"] that Cons.prems(5) by (metis less_numeral_extra(3))
  have "?c lo (p # ps) = 1" using Cons.prems(4,5) by simp
  then obtain q where q: "q \<in> set (p # ps)" "ivl_covers lo q"
    by (metis filter_False length_0_conv zero_neq_one)
  then have "fst p \<le> lo" using Cons.prems(1) by (auto simp: ivl_covers_def)
  with inside [of p "fst p"] p have lo: "fst p = lo" by (simp add: ivl_covers_def)
  have hi: "snd p \<le> hi" using inside [of p "snd p"] p by (simp add: ivl_covers_def)
  have rest: "?c h ps = (if Suc (snd p) \<le> h \<and> h \<le> hi then 1 else 0)" for h
  proof -
    have "?c h (p # ps) = (if lo \<le> h \<and> h \<le> hi then 1 else 0)" using Cons.prems(5) by blast
    then show ?thesis using lo hi p by (auto simp: ivl_covers_def split: if_splits)
  qed
  show ?case
  proof (cases ps)
    case Nil
    with rest [of hi] have "\<not> Suc (snd p) \<le> hi" by auto
    with hi lo p Nil show ?thesis by simp
  next
    case (Cons r rs)
    have r: "fst r \<le> snd r" using Cons Cons.prems(2) by simp
    then have "?c (fst r) ps \<noteq> 0" using Cons by (simp add: ivl_covers_def)
    then have "Suc (snd p) \<le> hi" using rest [of "fst r"] by (auto split: if_splits)
    then have "chain ps \<and> fst (hd ps) = Suc (snd p) \<and> snd (last ps) = hi"
      using Cons.prems(1,2) Cons rest by (intro Cons.IH) auto
    with Cons lo p show ?thesis by simp
  qed
qed simp

subsection \<open>Entries with canonical bounds\<close>

lemma canonical_entryE:
  assumes "canonical_entry e"
  obtains a b where "entry_Lo e = formatHashBound a" "entry_Hi e = formatHashBound b"
  using assms unfolding canonical_entry_def by (metis canonical_boundE)

lemma entry_covers_ivl: "canonical_entry e \<Longrightarrow> entry_covers h e = ivl_covers (unat h) (ivl e)"
  by (erule canonical_entryE)
     (simp add: entry_covers_def ivl_covers_def ivl_def parse_formatHashBound word_le_nat_alt)

lemma well_bounded_ivl: "canonical_entry e \<Longrightarrow> well_bounded e = (fst (ivl e) \<le> snd (ivl e))"
  by (erule canonical_entryE)
     (simp add: well_bounded_def ivl_def parse_formatHashBound word_le_nat_alt)

lemma count_ivl:
  "\<forall>e\<in>set es. canonical_entry e \<Longrightarrow>
     length (filter (entry_covers h) es) = length (filter (ivl_covers (unat h)) (map ivl es))"
  by (induction es) (auto simp: entry_covers_ivl)

lemma entry_Lo_le_iff:
  "canonical_entry a \<Longrightarrow> canonical_entry b \<Longrightarrow> (entry_Lo a \<le> entry_Lo b) = (fst (ivl a) \<le> fst (ivl b))"
  by (elim canonical_entryE) (simp add: ivl_def formatHashBound_le_iff word_le_nat_alt)

lemma sorted_ivl:
  assumes "\<forall>e\<in>set es. canonical_entry e"
  shows "sorted (map fst (map ivl (sort_key entry_Lo es)))"
proof -
  have "sorted_wrt (\<lambda>a b. entry_Lo a \<le> entry_Lo b) (sort_key entry_Lo es)"
    using sorted_sort_key [of entry_Lo es] by (simp add: sorted_wrt_map)
  then have "sorted_wrt (\<lambda>a b. fst (ivl a) \<le> fst (ivl b)) (sort_key entry_Lo es)"
    by (rule sorted_wrt_mono_rel [rotated]) (use assms entry_Lo_le_iff in auto)
  then show ?thesis by (simp add: sorted_wrt_map)
qed

text \<open>One step of the loop: the two guards together say that the next interval starts one above the
  previous one. The top value is its own \<open>hexSuccessor\<close>, which the overlap guard rules out.\<close>

lemma span_step:
  assumes "canonical_entry p" and "canonical_entry r"
  shows "(\<not> entry_Lo r \<le> entry_Hi p \<and> adjacent (entry_Hi p) (entry_Lo r)) =
         (fst (ivl r) = Suc (snd (ivl p)))"
proof -
  obtain b where b: "entry_Hi p = formatHashBound b" using assms(1) by (elim canonical_entryE)
  obtain a where a: "entry_Lo r = formatHashBound a" using assms(2) by (elim canonical_entryE)
  have goal: "(\<not> a \<le> b \<and> hexSuccessor (formatHashBound b) = formatHashBound a) = (unat a = Suc (unat b))"
  proof (cases "b = 0xffffffff")
    case True
    then show ?thesis using u32_le_max [of a] unat_less_16_8 [of a] by simp
  next
    case False
    have "(- 1 :: u32) = 0xffffffff" by simp
    with False have "1 + b \<noteq> 0" by (metis add.commute eq_neg_iff_add_eq_0)
    then have un: "unat (b + 1) = Suc (unat b)" using unatSuc [of b] by (simp add: add.commute)
    have "(a = b + 1) = (unat a = Suc (unat b))" using un by (metis word_unat_eq_iff)
    moreover have "unat a = Suc (unat b) \<Longrightarrow> \<not> a \<le> b" by (simp add: word_le_nat_alt)
    ultimately show ?thesis
      using hexSuccessor_format [OF False] by (auto simp: formatHashBound_inj)
  qed
  then show ?thesis by (simp add: a b ivl_def formatHashBound_le_iff adjacent_def)
qed

lemma span_check_chain:
  "canonical_entry p \<Longrightarrow> well_bounded p \<Longrightarrow> \<forall>e\<in>set es. canonical_entry e \<Longrightarrow>
     (span_check (Some p) es = Inr ()) = chain (map ivl (p # es))"
proof (induction es arbitrary: p)
  case (Cons r es)
  have ord: "(entry_Hi r < entry_Lo r) = (\<not> well_bounded r)"
    using Cons.prems(3) by (auto elim!: canonical_entryE
      simp: well_bounded_def parse_formatHashBound formatHashBound_less_iff)
  have "(span_check (Some p) (r # es) = Inr ()) =
      (well_bounded r \<and> (\<not> entry_Lo r \<le> entry_Hi p \<and> adjacent (entry_Hi p) (entry_Lo r)) \<and>
       span_check (Some r) es = Inr ())"
    by (simp add: ord)
  also have "\<dots> = chain (map ivl (p # r # es))"
  proof (cases "well_bounded r")
    case True
    with Cons have "(span_check (Some r) es = Inr ()) = chain (map ivl (r # es))" by simp
    with True Cons.prems span_step [of p r] show ?thesis by (simp add: well_bounded_ivl)
  next
    case False
    with Cons.prems(3) show ?thesis using chain_hd [of "ivl r"] by (auto simp: well_bounded_ivl)
  qed
  finally show ?case .
qed (simp add: well_bounded_ivl)

subsection \<open>Spans and plans\<close>

lemma span_check_None:
  assumes "\<forall>e\<in>set es. canonical_entry e" and "es \<noteq> []"
  shows "(span_check None es = Inr ()) = chain (map ivl es)"
proof -
  obtain p ps where es: "es = p # ps" using assms(2) by (cases es) auto
  have ord: "(entry_Hi p < entry_Lo p) = (\<not> well_bounded p)"
    using assms(1) es by (auto elim!: canonical_entryE
      simp: well_bounded_def parse_formatHashBound formatHashBound_less_iff)
  show ?thesis
  proof (cases "well_bounded p")
    case True
    with assms(1) es span_check_chain [of p ps] show ?thesis by (simp add: ord)
  next
    case False
    with assms(1) es chain_hd [of "ivl p" "map ivl ps"] show ?thesis by (auto simp: ord well_bounded_ivl)
  qed
qed

lemma count_sort_key: "length (filter P (sort_key f es)) = length (filter P es)"
  by (metis mset_filter mset_sort size_mset)

lemma sort_key_nonempty: "es \<noteq> [] \<Longrightarrow> sort_key f es \<noteq> []"
  by (metis length_0_conv length_sort)

lemma contiguousSpan_chain:
  assumes "\<forall>e\<in>set es. canonical_entry e" and "es \<noteq> []"
  shows "(contiguousSpan es = Inr (formatHashBound lo, formatHashBound hi)) =
      (let ps = map ivl (sort_key entry_Lo es) in
       chain ps \<and> fst (hd ps) = unat lo \<and> snd (last ps) = unat hi)"
proof -
  let ?es = "sort_key entry_Lo es"
  have can: "\<forall>e\<in>set ?es. canonical_entry e" using assms(1) by simp
  note nes = sort_key_nonempty [OF assms(2), of entry_Lo]
  have "canonical_entry (hd ?es)" "canonical_entry (last ?es)"
    using can nes hd_in_set [of ?es] last_in_set [of ?es] by blast+
  then have "(entry_Lo (hd ?es) = formatHashBound lo) = (fst (ivl (hd ?es)) = unat lo)"
    "(entry_Hi (last ?es) = formatHashBound hi) = (snd (ivl (last ?es)) = unat hi)"
    by (auto elim!: canonical_entryE simp: ivl_def formatHashBound_inj word_unat_eq_iff)
  then show ?thesis
    using assms(2) span_check_None [OF can nes] nes
    by (auto simp: contiguousSpan_def Let_def hd_map last_map split: sum.splits)
qed

lemma chain_ordered: "chain ps \<Longrightarrow> p \<in> set ps \<Longrightarrow> fst p \<le> snd p"
  by (induction ps rule: chain.induct) auto

lemma count_sorted_ivl:
  assumes "\<forall>e\<in>set es. canonical_entry e"
  shows "length (filter (ivl_covers n) (map ivl (sort_key entry_Lo es))) =
    (if n < 2 ^ 32 then length (filter (entry_covers (of_nat n)) es) else 0)"
proof (cases "n < 2 ^ 32")
  case True
  then have "unat (of_nat n :: u32) = n" by (simp add: unat_of_nat_u32)
  then show ?thesis
    using True count_ivl [of "sort_key entry_Lo es" "of_nat n"] assms by (simp add: count_sort_key)
next
  case False
  have "\<not> ivl_covers n (ivl e)" if e: "e \<in> set es" for e
  proof -
    obtain b where "entry_Hi e = formatHashBound b" using assms e by (meson canonical_entryE)
    then show ?thesis using False unat_less_16_8 [of b] by (simp add: ivl_covers_def ivl_def)
  qed
  then show ?thesis using False by (auto simp: filter_empty_conv)
qed

lemma contiguousSpan_iff:
  assumes "\<forall>e\<in>set es. canonical_entry e" and "es \<noteq> []"
  shows "(contiguousSpan es = Inr (formatHashBound lo, formatHashBound hi)) = (lo \<le> hi \<and> covers_exactly es lo hi)"
proof -
  let ?ps = "map ivl (sort_key entry_Lo es)"
  note count = count_sorted_ivl [OF assms(1)]
  have wb: "(\<forall>e\<in>set es. well_bounded e) = (\<forall>p\<in>set ?ps. fst p \<le> snd p)"
    using assms(1) by (simp add: well_bounded_ivl)
  obtain p ps where ps: "?ps = p # ps" using sort_key_nonempty [OF assms(2), of entry_Lo] by (cases ?ps) auto
  have "chain ?ps \<and> fst (hd ?ps) = unat lo \<and> snd (last ?ps) = unat hi \<Longrightarrow> lo \<le> hi \<and> covers_exactly es lo hi"
  proof (elim conjE)
    assume ch: "chain ?ps" and lo: "fst (hd ?ps) = unat lo" and hi: "snd (last ?ps) = unat hi"
    have "length (filter (entry_covers h) es) = (if lo \<le> h \<and> h \<le> hi then 1 else 0)" for h
      using chain_count [of p ps "unat h"] ch lo hi count [of "unat h"] unat_less_16_8 [of h] unfolding ps
      by (simp add: word_le_nat_alt)
    then show "lo \<le> hi \<and> covers_exactly es lo hi"
      using chain_bounds [of p ps] chain_ordered [OF ch] wb ch lo hi ps
      by (simp add: covers_exactly_def word_le_nat_alt)
  qed
  moreover have "lo \<le> hi \<and> covers_exactly es lo hi \<Longrightarrow>
      chain ?ps \<and> fst (hd ?ps) = unat lo \<and> snd (last ?ps) = unat hi"
  proof (rule exact_cover_chain)
    assume right: "lo \<le> hi \<and> covers_exactly es lo hi"
    show "\<forall>n. length (filter (ivl_covers n) ?ps) = (if unat lo \<le> n \<and> n \<le> unat hi then 1 else 0)"
      using count right unat_less_16_8 [of hi]
      by (auto simp: covers_exactly_def word_le_nat_alt unat_of_nat_u32)
    show "\<forall>p\<in>set ?ps. fst p \<le> snd p" using right wb by (simp add: covers_exactly_def)
    show "unat lo \<le> unat hi" using right by (simp add: word_le_nat_alt)
    show "sorted (map fst ?ps)" using assms(1) by (rule sorted_ivl)
    show "?ps \<noteq> []" using ps by simp
  qed
  ultimately show ?thesis using contiguousSpan_chain [OF assms] by (metis (mono_tags, lifting))
qed

lemma contiguousSpan_format:
  assumes "\<forall>e\<in>set es. canonical_entry e" and "contiguousSpan es = Inr (l, h)"
  obtains lo hi where "l = formatHashBound lo" "h = formatHashBound hi"
proof -
  have ne: "es \<noteq> []" using assms(2) by (auto simp: contiguousSpan_def)
  let ?es = "sort_key entry_Lo es"
  note nes = sort_key_nonempty [OF ne, of entry_Lo]
  have "hd ?es \<in> set es" "last ?es \<in> set es" using nes by (metis hd_in_set set_sort, metis last_in_set set_sort)
  then have can: "canonical_entry (hd ?es)" "canonical_entry (last ?es)" using assms(1) by auto
  have "l = entry_Lo (hd ?es)" "h = entry_Hi (last ?es)"
    using assms(2) ne by (auto simp: contiguousSpan_def Let_def split: sum.splits)
  with can that show ?thesis by (metis canonical_entryE)
qed

lemma ValidateSplitPlan_covers:
  assumes "\<forall>e\<in>set sources. canonical_entry e" and "\<forall>e\<in>set targets. canonical_entry e"
    and "ValidateSplitPlan sources targets = Inr ()"
  shows "\<exists>lo hi. lo \<le> hi \<and> covers_exactly sources lo hi \<and> covers_exactly targets lo hi"
proof -
  from assms(3) obtain l h where lh: "contiguousSpan sources = Inr (l, h)" "contiguousSpan targets = Inr (l, h)"
    by (auto simp: ValidateSplitPlan_def split: sum.splits if_splits)
  obtain lo hi where "l = formatHashBound lo" "h = formatHashBound hi"
    using contiguousSpan_format [OF assms(1) lh(1)] .
  moreover have "sources \<noteq> []" "targets \<noteq> []" using lh by (auto simp: contiguousSpan_def)
  ultimately show ?thesis using lh contiguousSpan_iff assms(1,2) by metis
qed

lemma ValidateSplitPlan_coversI:
  assumes "\<forall>e\<in>set sources. canonical_entry e" and "\<forall>e\<in>set targets. canonical_entry e" and "lo \<le> hi"
    and "covers_exactly sources lo hi" and "covers_exactly targets lo hi"
  shows "ValidateSplitPlan sources targets = Inr ()"
proof -
  have "es \<noteq> []" if "covers_exactly es lo hi" for es
    using that assms(3) by (auto simp: covers_exactly_def dest!: spec [of _ lo])
  then have "contiguousSpan sources = Inr (formatHashBound lo, formatHashBound hi)"
    "contiguousSpan targets = Inr (formatHashBound lo, formatHashBound hi)"
    using assms contiguousSpan_iff by metis+
  then show ?thesis by (simp add: ValidateSplitPlan_def)
qed

lemma SplitHashRange_covers:
  assumes "parseHashBound lo = Inr l" and "parseHashBound hi = Inr h" and "l < h"
  obtains m where "SplitHashRange lo hi = Inr (formatHashBound l, formatHashBound m, formatHashBound (m + 1), formatHashBound h)"
    and "l \<le> m" "m < h"
    and "\<And>s0 s1. covers_exactly [\<lparr>entry_Lo = formatHashBound l, entry_Hi = formatHashBound m, entry_Shard = s0\<rparr>,
           \<lparr>entry_Lo = formatHashBound (m + 1), entry_Hi = formatHashBound h, entry_Shard = s1\<rparr>] l h"
proof -
  define mid where "mid = l + (h - l) div 2"
  have sub: "unat (h - l) = unat h - unat l" using assms(3) by (simp add: unat_sub)
  have "unat l + (unat h - unat l) div 2 < 2 ^ 32" using unat_less_16_8 [of h] assms(3) by (simp add: word_less_nat_alt)
  then have mid: "unat mid = unat l + (unat h - unat l) div 2"
    by (simp add: mid_def unat_word_ariths unat_div sub)
  have bounds: "unat l \<le> unat mid" "unat mid < unat h" using mid assms(3) by (auto simp: word_less_nat_alt)
  have "unat (mid + 1) = Suc (unat mid)"
    using bounds unat_less_16_8 [of h] by (simp add: unat_word_ariths)
  with bounds have "covers_exactly
      [\<lparr>entry_Lo = formatHashBound l, entry_Hi = formatHashBound mid, entry_Shard = s0\<rparr>,
       \<lparr>entry_Lo = formatHashBound (mid + 1), entry_Hi = formatHashBound h, entry_Shard = s1\<rparr>] l h" for s0 s1
    by (auto simp: covers_exactly_def well_bounded_def entry_covers_def parse_formatHashBound word_le_nat_alt)
  moreover have "SplitHashRange lo hi = Inr (formatHashBound l, formatHashBound mid, formatHashBound (mid + 1), formatHashBound h)"
    using assms by (auto simp: SplitHashRange_def mid_def Let_def)
  moreover have "l \<le> mid" "mid < h" using bounds by (simp_all add: word_le_nat_alt word_less_nat_alt)
  ultimately show ?thesis using that by blast
qed

section \<open>Properties\<close>


text \<open>Splitting a range of at least two values always succeeds and gives two non-empty ranges
  that together cover every value of the range exactly once and nothing else; the computation of the
  midpoint never overflows.\<close>

theorem SplitHashRange_partition:
  assumes "parseHashBound lo = Inr l" and "parseHashBound hi = Inr h" and "l < h"
  shows "\<exists>lo0 hi0 lo1 hi1. SplitHashRange lo hi = Inr (lo0, hi0, lo1, hi1) \<and>
    covers_exactly [\<lparr>entry_Lo = lo0, entry_Hi = hi0, entry_Shard = s0\<rparr>, \<lparr>entry_Lo = lo1, entry_Hi = hi1, entry_Shard = s1\<rparr>] l h"
  using SplitHashRange_covers [OF assms] by metis

theorem SplitHashRange_partition_witness:
  "\<exists>lo0 hi0 lo1 hi1. SplitHashRange ''0x00000000'' ''0xffffffff'' = Inr (lo0, hi0, lo1, hi1) \<and>
    covers_exactly [\<lparr>entry_Lo = lo0, entry_Hi = hi0, entry_Shard = ''a''\<rparr>, \<lparr>entry_Lo = lo1, entry_Hi = hi1, entry_Shard = ''b''\<rparr>]
      0 0xffffffff"
  by (rule SplitHashRange_partition) (simp_all add: vindex go_lib)

text \<open>C14: For entries with fixed-width bounds, \<open>ValidateSplitPlan\<close> accepts exactly the plans that preserve
  the data: sources and targets each cover one interval of hash values, the same one, and every
  value of it lies in exactly one source and in exactly one target.\<close>

theorem ValidateSplitPlan_correct:
  assumes "\<forall>e\<in>set sources. canonical_entry e" and "\<forall>e\<in>set targets. canonical_entry e"
  shows "(ValidateSplitPlan sources targets = Inr ()) =
         (\<exists>lo hi. lo \<le> hi \<and> covers_exactly sources lo hi \<and> covers_exactly targets lo hi)"
proof
  assume "ValidateSplitPlan sources targets = Inr ()"
  with assms show "\<exists>lo hi. lo \<le> hi \<and> covers_exactly sources lo hi \<and> covers_exactly targets lo hi"
    by (rule ValidateSplitPlan_covers)
next
  assume "\<exists>lo hi. lo \<le> hi \<and> covers_exactly sources lo hi \<and> covers_exactly targets lo hi"
  with assms show "ValidateSplitPlan sources targets = Inr ()" using ValidateSplitPlan_coversI by blast
qed

theorem ValidateSplitPlan_correct_witness:
  "\<exists>lo hi. lo \<le> hi \<and> covers_exactly [demo_entry ''0x00000000'' ''0x7fffffff'' ''s''] lo hi \<and>
     covers_exactly [demo_entry ''0x40000000'' ''0x7fffffff'' ''t1'', demo_entry ''0x00000000'' ''0x3fffffff'' ''t0''] lo hi"
proof -
  have "ValidateSplitPlan [demo_entry ''0x00000000'' ''0x7fffffff'' ''s'']
      [demo_entry ''0x40000000'' ''0x7fffffff'' ''t1'', demo_entry ''0x00000000'' ''0x3fffffff'' ''t0''] = Inr ()"
    by code_simp
  moreover have "\<forall>e\<in>set [demo_entry ''0x00000000'' ''0x7fffffff'' ''s'']. canonical_entry e"
    "\<forall>e\<in>set [demo_entry ''0x40000000'' ''0x7fffffff'' ''t1'', demo_entry ''0x00000000'' ''0x3fffffff'' ''t0'']. canonical_entry e"
    by (simp_all add: canonical_entry_def canonical_bound_def demo_entry_def vindex go_lib reshard)
  ultimately show ?thesis using ValidateSplitPlan_correct by blast
qed

end
