(* ===== verification/Tokenizer.thy ===== *)
theory Tokenizer
  imports Prelude
begin

text \<open>
  The SQL tokenizer and the token-based extraction of routing keys:
  \<open>internal/router/route_extractor_parser.go\<close>.

  The source walks an index over the text. The model recurses on the rest of the text instead, so
  that \<open>s[i:]\<close> is the argument; every inner loop of the source is one helper that returns what is
  left. A Go pair \<open>(key, ok)\<close> is an option.
\<close>

named_theorems tokenizer \<open>definitions of the tokenizer component\<close>

section \<open>Tokens\<close>

datatype tokKind = tokIdent | tokStr | tokNum | tokSym

record token =
  tok_kind :: tokKind
  tok_text :: string

abbreviation tk :: "tokKind \<Rightarrow> string \<Rightarrow> token" where
  "tk k t \<equiv> \<lparr>tok_kind = k, tok_text = t\<rparr>"

abbreviation byte_in :: "char \<Rightarrow> char \<Rightarrow> char \<Rightarrow> bool" where
  "byte_in lo hi c \<equiv> lo \<le> c \<and> c \<le> hi"

definition is_digit :: "char \<Rightarrow> bool" where
  "is_digit c = byte_in CHR ''0'' CHR ''9'' c"

definition is_letter :: "char \<Rightarrow> bool" where
  "is_letter c = (byte_in CHR ''a'' CHR ''z'' c \<or> byte_in CHR ''A'' CHR ''Z'' c)"

definition isIdentStart :: "char \<Rightarrow> bool" where
  "isIdentStart c \<longleftrightarrow> c = CHR ''_'' \<or> is_letter c"

definition isIdentPart :: "char \<Rightarrow> bool" where
  "isIdentPart c \<longleftrightarrow> isIdentStart c \<or> is_digit c \<or> c = CHR ''$''"

definition isTagChar :: "char \<Rightarrow> bool" where
  "isTagChar c \<longleftrightarrow> c = CHR ''_'' \<or> is_letter c \<or> is_digit c"

definition isOpChar :: "char \<Rightarrow> bool" where
  "isOpChar c \<longleftrightarrow> c \<in> set ''=<>!+-*/%~&|^''"

definition is_blank :: "char \<Rightarrow> bool" where
  "is_blank c \<longleftrightarrow> c = CHR '' '' \<or> c = CHR 0x09 \<or> c = CHR 0x0A \<or> c = CHR 0x0D"

definition is_punct :: "char \<Rightarrow> bool" where
  "is_punct c \<longleftrightarrow> c \<in> set ''(),;.''"

text \<open>The end of a block comment, after the opening \<open>/*\<close>; an unterminated comment ends with the text.\<close>

fun skip_block :: "string \<Rightarrow> string" where
  "skip_block (a # b # s) = (if a = CHR ''*'' \<and> b = CHR ''/'' then s else skip_block (b # s))"
| "skip_block s = []"

text \<open>The body of a quoted literal or identifier, after the opening quote \<open>q\<close>: a doubled quote is one
  quote byte, a single one ends the body, and so does the end of the text.\<close>

fun scan_quoted :: "char \<Rightarrow> string \<Rightarrow> string \<times> string" where
  "scan_quoted q [] = ([], [])"
| "scan_quoted q (c # s) =
     (if c = q then
        (case s of
           d # s' \<Rightarrow> if d = q then (let (b, r) = scan_quoted q s' in (q # b, r)) else ([], s)
         | [] \<Rightarrow> ([], []))
      else (let (b, r) = scan_quoted q s in (c # b, r)))"

text \<open>A dollar-quoted literal, after its first \<open>$\<close>; \<open>None\<close> for a parameter such as \<open>$1\<close> or a stray \<open>$\<close>.\<close>

definition dollarQuoted :: "string \<Rightarrow> (string \<times> string) option" where
  "dollarQuoted s =
     (let tag = takeWhile isTagChar s; r = dropWhile isTagChar s in
      if r = [] \<or> hd r \<noteq> CHR ''$'' then None
      else let opening = ''$'' @ tag @ ''$''; rest = tl r in
           case str_Index rest opening of
             Some idx \<Rightarrow> Some (take idx rest, drop (idx + length opening) rest)
           | None \<Rightarrow> Some (rest, []))"

lemma length_skip_block: "length (skip_block s) \<le> length s"
  by (induction s rule: skip_block.induct) auto

lemma length_scan_quoted: "length (snd (scan_quoted q s)) \<le> length s"
proof (induction q s rule: scan_quoted.induct)
  case (2 q c s)
  then show ?case by (cases s) (auto simp: case_prod_beta)
qed simp

lemma length_dollarQuoted:
  assumes "dollarQuoted s = Some (b, r)" shows "length r \<le> length s"
proof -
  let ?d = "dropWhile isTagChar s"
  have "\<exists>n. r = drop n (tl ?d) \<or> r = []"
    using assms unfolding dollarQuoted_def Let_def
    by (cases "str_Index (tl ?d) (''$'' @ takeWhile isTagChar s @ ''$'')") (auto split: if_split_asm)
  moreover have "length ?d \<le> length s" by (rule length_dropWhile_le)
  ultimately show ?thesis by auto
qed

function tokenize :: "string \<Rightarrow> token list" where
  "tokenize [] = []"
| "tokenize (c # s) =
     (if is_blank c then tokenize s
      else if c = CHR ''-'' \<and> HasPrefix s ''-'' then tokenize (dropWhile (\<lambda>x. x \<noteq> CHR 0x0A) s)
      else if c = CHR ''/'' \<and> HasPrefix s ''*'' then tokenize (skip_block (drop 1 s))
      else if c = CHR 0x27 then tk tokStr (fst (scan_quoted c s)) # tokenize (snd (scan_quoted c s))
      else if c = CHR 0x22 then tk tokIdent (fst (scan_quoted c s)) # tokenize (snd (scan_quoted c s))
      else if c = CHR ''$'' then
        (case dollarQuoted s of
           Some (inner, rest) \<Rightarrow> tk tokStr inner # tokenize rest
         | None \<Rightarrow> tk tokSym ''$'' # tokenize s)
      else if isIdentStart c then
        tk tokIdent (c # takeWhile isIdentPart s) # tokenize (dropWhile isIdentPart s)
      else if is_digit c then
        tk tokNum (c # takeWhile (\<lambda>x. is_digit x \<or> x = CHR ''.'') s) # tokenize (dropWhile (\<lambda>x. is_digit x \<or> x = CHR ''.'') s)
      else if is_punct c then tk tokSym [c] # tokenize s
      else if isOpChar c then tk tokSym (c # takeWhile isOpChar s) # tokenize (dropWhile isOpChar s)
      else tk tokSym [c] # tokenize s)"
  by pat_completeness auto
termination
proof (relation "measure length", goal_cases)
  case (4 c s)
  then show ?case using length_skip_block [of "drop 1 s"] by simp
next
  case (5 c s)
  then show ?case using length_scan_quoted [of c s] by (simp add: less_Suc_eq_le)
next
  case (6 c s)
  then show ?case using length_scan_quoted [of c s] by (simp add: less_Suc_eq_le)
next
  case (8 c s p inner rest)
  then show ?case using length_dollarQuoted [of s inner rest] by (simp add: less_Suc_eq_le)
qed (auto simp: less_Suc_eq_le length_dropWhile_le)

declare tokenize.simps(2) [simp del]

section \<open>Extraction from tokens\<close>

definition is_sym :: "string \<Rightarrow> token \<Rightarrow> bool" where
  "is_sym x t \<longleftrightarrow> tok_kind t = tokSym \<and> tok_text t = x"

definition is_word :: "string \<Rightarrow> token \<Rightarrow> bool" where
  "is_word w t \<longleftrightarrow> tok_kind t = tokIdent \<and> EqualFold (tok_text t) w"

fun param_ref_loop :: "string \<Rightarrow> token list \<Rightarrow> int option" where
  "param_ref_loop col (a # b # c # d # rest) =
     (if is_word col a \<and> is_sym ''='' b \<and> is_sym ''$'' c \<and> tok_kind d = tokNum then
        (case Atoi (tok_text d) of
           Some n \<Rightarrow> if 1 \<le> n then Some n else param_ref_loop col (b # c # d # rest)
         | None \<Rightarrow> param_ref_loop col (b # c # d # rest))
      else param_ref_loop col (b # c # d # rest))"
| "param_ref_loop col toks = None"

definition ExtractParamRef :: "string \<Rightarrow> string \<Rightarrow> int option" where
  "ExtractParamRef query col = (if col = [] then None else param_ref_loop col (tokenize query))"

definition isKeyLiteral :: "token \<Rightarrow> bool" where
  "isKeyLiteral t \<longleftrightarrow> (tok_kind t = tokStr \<or> tok_kind t = tokNum) \<and> tok_text t \<noteq> []"

text \<open>The loop of \<open>whereEqTok\<close>; the accumulator is \<open>found\<close> when \<open>got\<close> holds.\<close>

fun whereEq_loop :: "string \<Rightarrow> string option \<Rightarrow> token list \<Rightarrow> string option" where
  "whereEq_loop col acc (a # b # c # rest) =
     (if is_word col a \<and> is_sym ''='' b \<and> isKeyLiteral c then
        (if acc \<noteq> None \<and> acc \<noteq> Some (tok_text c) then None
         else whereEq_loop col (Some (tok_text c)) (b # c # rest))
      else whereEq_loop col acc (b # c # rest))"
| "whereEq_loop col acc toks = acc"

definition whereEqTok :: "token list \<Rightarrow> string \<Rightarrow> string option" where
  "whereEqTok toks col = whereEq_loop col None toks"

fun indexOfKeyword :: "token list \<Rightarrow> string \<Rightarrow> nat option" where
  "indexOfKeyword [] kw = None"
| "indexOfKeyword (t # ts) kw = (if is_word kw t then Some 0 else map_option Suc (indexOfKeyword ts kw))"

text \<open>The loop of \<open>parenSplit\<close> from the opening parenthesis on; \<open>elems\<close> and \<open>cur\<close> are in order.\<close>

fun paren_loop :: "int \<Rightarrow> token list list \<Rightarrow> token list \<Rightarrow> token list \<Rightarrow> token list list option" where
  "paren_loop depth elems cur [] = None"
| "paren_loop depth elems cur (t # ts) =
     (let depth1 = (if is_sym ''('' t then depth + 1 else depth) in
      if is_sym ''('' t \<and> depth1 = 1 then paren_loop depth1 elems cur ts
      else let depth2 = (if is_sym '')'' t then depth1 - 1 else depth1) in
           if is_sym '')'' t \<and> depth2 = 0 then Some (elems @ [cur])
           else if depth2 = 1 \<and> is_sym '','' t then paren_loop depth2 (elems @ [cur]) [] ts
           else paren_loop depth2 elems (cur @ [t]) ts)"

definition parenSplit :: "token list \<Rightarrow> nat \<Rightarrow> token list list option" where
  "parenSplit toks from =
     (case dropWhile (\<lambda>t. \<not> is_sym ''('' t) (drop from toks) of
        [] \<Rightarrow> None
      | ts \<Rightarrow> paren_loop 0 [] [] ts)"

definition lastIdent :: "token list \<Rightarrow> string" where
  "lastIdent elem = foldl (\<lambda>name t. if tok_kind t = tokIdent then tok_text t else name) [] elem"

fun insert_pick :: "string \<Rightarrow> token list list \<Rightarrow> token list list \<Rightarrow> string option" where
  "insert_pick col (ce # ces) (ve # ves) =
     (let name = lastIdent ce in
      if name = [] \<or> \<not> EqualFold name col then insert_pick col ces ves
      else case ve of [t] \<Rightarrow> if isKeyLiteral t then Some (tok_text t) else None | _ \<Rightarrow> None)"
| "insert_pick col _ _ = None"

definition insertValueTok :: "token list \<Rightarrow> string \<Rightarrow> string option" where
  "insertValueTok toks col =
     (case indexOfKeyword toks ''values'' of
        None \<Rightarrow> None
      | Some vi \<Rightarrow>
          (case (parenSplit toks 0, parenSplit toks vi) of
             (Some colElems, Some valElems) \<Rightarrow>
               if length colElems \<noteq> length valElems then None else insert_pick col colElems valElems
           | _ \<Rightarrow> None))"

definition parserExtractor :: "string \<Rightarrow> string \<Rightarrow> string option" where
  "parserExtractor query col =
     (if col = [] then None
      else case tokenize query of
             [] \<Rightarrow> None
           | t # ts \<Rightarrow>
               let w = ToLower (tok_text t) in
               if w = ''insert'' then insertValueTok (t # ts) col
               else if w \<in> {''select'', ''update'', ''delete'', ''with''} then whereEqTok (t # ts) col
               else None)"

definition IsReadOnlyQuery :: "string \<Rightarrow> bool" where
  "IsReadOnlyQuery query =
     (case tokenize query of
        [] \<Rightarrow> False
      | t # ts \<Rightarrow>
          if ToLower (tok_text t) \<in> {''select'', ''show'', ''values'', ''table''}
          then \<not> list_ex (is_word ''for'') (t # ts)
          else False)"

lemmas [tokenizer] = is_digit_def is_letter_def isIdentStart_def isIdentPart_def isTagChar_def isOpChar_def
  is_blank_def is_punct_def dollarQuoted_def is_sym_def is_word_def ExtractParamRef_def isKeyLiteral_def
  whereEqTok_def parenSplit_def lastIdent_def insertValueTok_def parserExtractor_def IsReadOnlyQuery_def
  tokenize.simps(2) Let_def

section \<open>Specification\<close>

text \<open>The literals that the token list compares with the column, read off by position.\<close>

definition eq_literals :: "string \<Rightarrow> token list \<Rightarrow> string list" where
  "eq_literals col toks =
     [tok_text (toks ! Suc (Suc i)). i \<leftarrow> [0..<length toks - 2],
        is_word col (toks ! i) \<and> is_sym ''='' (toks ! Suc i) \<and> isKeyLiteral (toks ! Suc (Suc i))]"

text \<open>A text as an SQL literal: quote bytes doubled.\<close>

definition sql_quote :: "char \<Rightarrow> string \<Rightarrow> string" where
  "sql_quote q s = q # concat (map (\<lambda>c. if c = q then [q, q] else [c]) s) @ [q]"

abbreviation sql_literal :: "string \<Rightarrow> string" where
  "sql_literal \<equiv> sql_quote (CHR 0x27)"

definition sql_ident :: "string \<Rightarrow> bool" where
  "sql_ident w \<longleftrightarrow> w \<noteq> [] \<and> isIdentStart (hd w) \<and> list_all isIdentPart (tl w)"

text \<open>Statements as a client writes them: a point query and an insert of one row.\<close>

definition point_sql :: "string \<Rightarrow> string \<Rightarrow> string \<Rightarrow> string" where
  "point_sql t col v = ''SELECT * FROM '' @ t @ '' WHERE '' @ col @ '' = '' @ sql_literal v"

definition insert_sql :: "string \<Rightarrow> string list \<Rightarrow> string list \<Rightarrow> string" where
  "insert_sql t cols vals =
     ''INSERT INTO '' @ t @ '' ('' @ str_Join '', '' cols @ '') VALUES ('' @ str_Join '', '' (map sql_literal vals) @ '')''"

section \<open>Lemmas\<close>

subsection \<open>Quoting\<close>

lemma scan_quoted_escaped:
  "\<not> HasPrefix r [q] \<Longrightarrow>
     scan_quoted q (concat (map (\<lambda>c. if c = q then [q, q] else [c]) s) @ q # r) = (s, r)"
  by (induction s) (auto split: list.splits)

lemma tokenize_literal:
  "\<not> HasPrefix r [CHR 0x27] \<Longrightarrow> tokenize (sql_quote (CHR 0x27) s @ r) = tk tokStr s # tokenize r"
  by (simp add: sql_quote_def tokenize.simps is_blank_def scan_quoted_escaped)

lemma tokenize_quoted_ident:
  "\<not> HasPrefix r [CHR 0x22] \<Longrightarrow> tokenize (sql_quote (CHR 0x22) s @ r) = tk tokIdent s # tokenize r"
  by (simp add: sql_quote_def tokenize.simps is_blank_def scan_quoted_escaped)

lemma tokenize_blank: "list_all is_blank w \<Longrightarrow> tokenize (w @ r) = tokenize r"
  by (induction w) (simp_all add: tokenize.simps)

lemma skip_block_end:
  "\<not> str_Contains (s @ ''*'') ''*/'' \<Longrightarrow> skip_block (s @ ''*/'' @ r) = r"
proof (induction s)
  case (Cons c s)
  then have IH: "skip_block (s @ ''*/'' @ r) = r" and no: "\<not> HasPrefix (c # s @ ''*'') ''*/''"
    by (simp_all add: str_Contains_def split: if_split_asm)
  show ?case by (cases s) (use IH no in simp_all)
qed simp

lemma tokenize_comment:
  "\<not> str_Contains (s @ ''*'') ''*/'' \<Longrightarrow> tokenize (''/*'' @ s @ ''*/'' @ r) = tokenize r"
  using skip_block_end [of s r] by (simp add: tokenize.simps is_blank_def)

lemma tokenize_space [simp]: "tokenize (CHR '' '' # r) = tokenize r"
  by (simp add: tokenize.simps is_blank_def)

lemma ident_char_classes:
  "isIdentStart c \<Longrightarrow> \<not> is_blank c \<and> c \<noteq> CHR ''-'' \<and> c \<noteq> CHR ''/'' \<and> c \<noteq> CHR 0x27 \<and> c \<noteq> CHR 0x22 \<and> c \<noteq> CHR ''$''"
  by (auto simp: isIdentStart_def is_letter_def is_blank_def)

lemma tokenize_ident:
  assumes "sql_ident w" and "r = [] \<or> \<not> isIdentPart (hd r)"
  shows "tokenize (w @ r) = tk tokIdent w # tokenize r"
proof -
  obtain c s where w: "w = c # s" "isIdentStart c" "list_all isIdentPart s"
    using assms(1) by (cases w) (auto simp: sql_ident_def)
  have "takeWhile isIdentPart (s @ r) = s" "dropWhile isIdentPart (s @ r) = r"
    using w(3) assms(2) by (cases r; induction s; simp)+
  with w ident_char_classes [OF w(2)] show ?thesis by (simp add: tokenize.simps)
qed

lemma tokenize_punct:
  assumes "c \<in> set ''(),;.''"
  shows "tokenize (c # r) = tk tokSym [c] # tokenize r"
proof -
  have step: "tokenize (c # r) = tk tokSym [c] # tokenize r"
    if "\<not> is_blank c" "c \<noteq> CHR ''-''" "c \<noteq> CHR ''/''" "c \<noteq> CHR 0x27" "c \<noteq> CHR 0x22" "c \<noteq> CHR ''$''"
      "\<not> isIdentStart c" "\<not> is_digit c" "is_punct c"
    using that by (simp add: tokenize.simps(2))
  from assms show ?thesis
    by (intro step) (auto simp: is_punct_def is_blank_def isIdentStart_def is_letter_def is_digit_def)
qed

lemma tokenize_eq_sign: "tokenize (CHR ''='' # CHR '' '' # r) = tk tokSym ''='' # tokenize r"
  by (subst tokenize.simps(2)) (simp add: is_blank_def isIdentStart_def is_letter_def is_digit_def is_punct_def isOpChar_def)

subsection \<open>Key extraction\<close>

lemma eq_literals_Cons3:
  "eq_literals col (a # b # c # rest) =
     (if is_word col a \<and> is_sym ''='' b \<and> isKeyLiteral c then [tok_text c] else []) @ eq_literals col (b # c # rest)"
proof -
  have "[0..<length (a # b # c # rest) - 2] = 0 # map Suc [0..<length (b # c # rest) - 2]"
    by (simp add: map_Suc_upt upt_conv_Cons del: upt_Suc)
  then show ?thesis unfolding eq_literals_def by (simp only:) (simp add: comp_def cong: if_cong)
qed

lemma whereEq_loop_Some:
  "(whereEq_loop col acc toks = Some v) = (set_option acc \<union> set (eq_literals col toks) = {v})"
proof (induction col acc toks rule: whereEq_loop.induct)
  case (1 col acc a b c rest)
  then show ?case by (cases acc) (auto simp: eq_literals_Cons3)
qed (auto simp: eq_literals_def elem_set)

lemma whereEqTok_Some: "(whereEqTok toks col = Some v) = (set (eq_literals col toks) = {v})"
  by (simp add: whereEqTok_def whereEq_loop_Some)

lemma EqualFold_refl [simp]: "EqualFold w w"
  by (simp add: EqualFold_def)

subsection \<open>Parenthesised lists\<close>

text \<open>A list in parentheses whose elements are single tokens, as the tokenizer returns it.\<close>

fun list_toks :: "token list \<Rightarrow> token list" where
  "list_toks [] = []"
| "list_toks [t] = [t]"
| "list_toks (t # u # ts) = t # tk tokSym '','' # list_toks (u # ts)"

definition plain_tok :: "token \<Rightarrow> bool" where
  "plain_tok t \<longleftrightarrow> tok_kind t \<noteq> tokSym"

lemma paren_loop_list:
  "list_all plain_tok ts \<Longrightarrow> ts \<noteq> [] \<Longrightarrow>
     paren_loop 1 elems [] (list_toks ts @ tk tokSym '')'' # rest) = Some (elems @ map (\<lambda>t. [t]) ts)"
proof (induction ts arbitrary: elems rule: list_toks.induct)
  case (2 t)
  then show ?case by (simp add: plain_tok_def is_sym_def Let_def)
next
  case (3 t u ts)
  then show ?case by (simp add: plain_tok_def is_sym_def Let_def)
qed simp

lemma parenSplit_list:
  assumes "list_all plain_tok ts" and "ts \<noteq> []" and "list_all (\<lambda>t. \<not> is_sym ''('' t) pre"
  shows "parenSplit (pre @ tk tokSym ''('' # list_toks ts @ tk tokSym '')'' # rest) 0 = Some (map (\<lambda>t. [t]) ts)"
proof -
  have "dropWhile (\<lambda>t. \<not> is_sym ''('' t) (pre @ tk tokSym ''('' # xs) = tk tokSym ''('' # xs" for xs
    using assms(3) by (induction pre) (auto simp: is_sym_def)
  then show ?thesis
    using paren_loop_list [OF assms(1,2), of "[]" rest] by (simp add: parenSplit_def is_sym_def Let_def)
qed

lemma tokenize_list:
  assumes "ws \<noteq> []"
    and "\<And>w r. w \<in> set ws \<Longrightarrow> r \<noteq> [] \<Longrightarrow> hd r \<in> set '',)'' \<Longrightarrow> tokenize (w @ r) = f w # tokenize r"
  shows "tokenize (str_Join '', '' ws @ CHR '')'' # r) = list_toks (map f ws) @ tk tokSym '')'' # tokenize r"
  using assms
proof (induction ws rule: induct_list012)
  case (2 w)
  have "tokenize (w @ CHR '')'' # r) = f w # tokenize (CHR '')'' # r)" by (rule 2) auto
  then show ?case by (simp add: tokenize_punct)
next
  case (3 w v ws)
  have IH: "tokenize (str_Join '', '' (v # ws) @ CHR '')'' # r) = list_toks (map f (v # ws)) @ tk tokSym '')'' # tokenize r"
    by (rule 3) (use 3 in auto)
  have "tokenize (w @ CHR '','' # CHR '' '' # str_Join '', '' (v # ws) @ CHR '')'' # r) =
      f w # tokenize (CHR '','' # CHR '' '' # str_Join '', '' (v # ws) @ CHR '')'' # r)" by (rule 3) auto
  with IH show ?case by (simp add: tokenize_punct)
qed simp

lemma insert_pick_singletons:
  assumes "length cols = length vals" and "distinct (map ToLower cols)" and "i < length cols"
    and "\<forall>c\<in>set cols. c \<noteq> []" and "vals ! i \<noteq> []"
  shows "insert_pick (cols ! i) (map (\<lambda>c. [tk tokIdent c]) cols) (map (\<lambda>v. [tk tokStr v]) vals) = Some (vals ! i)"
  using assms
proof (induction cols vals arbitrary: i rule: list_induct2')
  case (4 c cs v vs)
  show ?case
  proof (cases i)
    case 0
    with 4 show ?thesis by (simp add: lastIdent_def isKeyLiteral_def)
  next
    case (Suc j)
    with 4 have "ToLower c \<noteq> ToLower (cs ! j)" by (auto simp: nth_mem)
    with 4 Suc show ?thesis by (simp add: lastIdent_def EqualFold_def)
  qed
qed simp_all

subsection \<open>The rendered statements\<close>

lemma not_identPart: "c \<in> set '' ,)(='' \<Longrightarrow> \<not> isIdentPart c"
  by (auto simp: isIdentPart_def isIdentStart_def is_letter_def is_digit_def)

lemma sql_ident_keyword:
  "sql_ident ''SELECT''" "sql_ident ''FROM''" "sql_ident ''WHERE''" "sql_ident ''INSERT''" "sql_ident ''INTO''" "sql_ident ''VALUES''"
  by (simp_all add: sql_ident_def isIdentPart_def isIdentStart_def is_letter_def)

lemma tokenize_word_space:
  "sql_ident w \<Longrightarrow> tokenize (w @ CHR '' '' # r) = tk tokIdent w # tokenize r"
  using tokenize_ident [of w "CHR '' '' # r"] not_identPart by simp

lemmas tokenize_keywords = sql_ident_keyword [THEN tokenize_word_space, simplified]

lemma tokenize_star: "tokenize (CHR ''*'' # CHR '' '' # r) = tk tokSym ''*'' # tokenize r"
  by (subst tokenize.simps(2)) (simp add: is_blank_def isIdentStart_def is_letter_def is_digit_def is_punct_def isOpChar_def)

lemma tokenize_point_sql:
  assumes "sql_ident t" and "sql_ident col"
  shows "tokenize (point_sql t col v) =
    [tk tokIdent ''SELECT'', tk tokSym ''*'', tk tokIdent ''FROM'', tk tokIdent t, tk tokIdent ''WHERE'',
     tk tokIdent col, tk tokSym ''='', tk tokStr v]"
  using assms tokenize_literal [of "[]" v]
  by (simp add: point_sql_def tokenize_keywords tokenize_star tokenize_word_space tokenize_eq_sign)

lemma tokenize_insert_sql:
  assumes "sql_ident t" and "list_all sql_ident cols" and "cols \<noteq> []" and "vals \<noteq> []"
  shows "tokenize (insert_sql t cols vals) =
    [tk tokIdent ''INSERT'', tk tokIdent ''INTO'', tk tokIdent t] @
    tk tokSym ''('' # list_toks (map (tk tokIdent) cols) @ tk tokSym '')'' #
    tk tokIdent ''VALUES'' # tk tokSym ''('' # list_toks (map (tk tokStr) vals) @ [tk tokSym '')'']"
proof -
  have cols: "tokenize (str_Join '', '' cols @ CHR '')'' # r) =
      list_toks (map (tk tokIdent) cols) @ tk tokSym '')'' # tokenize r" for r
    by (rule tokenize_list [OF assms(3)])
       (use assms(2) in \<open>auto simp: list_all_iff not_identPart intro!: tokenize_ident\<close>)
  have vals: "tokenize (str_Join '', '' (map sql_literal vals) @ CHR '')'' # r) =
      list_toks (map (tk tokStr) vals) @ tk tokSym '')'' # tokenize r" for r
  proof -
    have quoted: "inj sql_literal" by (rule injI) (metis append_Nil2 HasPrefix.simps(2) tokenize_literal list.inject token.ext_inject)
    have "tokenize (str_Join '', '' (map sql_literal vals) @ CHR '')'' # r) =
        list_toks (map (\<lambda>w. tk tokStr (inv sql_literal w)) (map sql_literal vals)) @ tk tokSym '')'' # tokenize r"
    proof (rule tokenize_list)
      fix w u assume "w \<in> set (map sql_literal vals)" "u \<noteq> []" "hd u \<in> set '',)''"
      then obtain v where "w = sql_literal v" "\<not> HasPrefix u [CHR 0x27]" by (cases u) auto
      with quoted show "tokenize (w @ u) = tk tokStr (inv sql_literal w) # tokenize u"
        by (simp add: tokenize_literal inv_f_f)
    qed (use assms(4) in simp)
    then show ?thesis using quoted by (simp add: comp_def inv_f_f)
  qed
  show ?thesis
    using assms(1) by (simp add: insert_sql_def tokenize_keywords tokenize_word_space tokenize_punct cols vals)
qed

lemma indexOfKeyword_append:
  "list_all (\<lambda>t. \<not> is_word kw t) pre \<Longrightarrow> is_word kw t \<Longrightarrow> indexOfKeyword (pre @ t # post) kw = Some (length pre)"
  by (induction pre) auto

lemma list_all_list_toks:
  "P (tk tokSym '','') \<Longrightarrow> list_all P ts \<Longrightarrow> list_all P (list_toks ts)"
  by (induction ts rule: list_toks.induct) auto

lemma parenSplit_drop: "parenSplit toks n = parenSplit (drop n toks) 0"
  by (simp add: parenSplit_def)

lemma parserExtractor_insert:
  assumes "sql_ident t" and "list_all sql_ident cols" and "\<not> EqualFold t ''values''"
    and "list_all (\<lambda>c. \<not> EqualFold c ''values'') cols" and "distinct (map ToLower cols)"
    and "length vals = length cols" and "i < length cols" and "vals ! i \<noteq> []"
  shows "parserExtractor (insert_sql t cols vals) (cols ! i) = Some (vals ! i)"
proof -
  let ?head = "[tk tokIdent ''INSERT'', tk tokIdent ''INTO'', tk tokIdent t]"
  let ?cols = "map (tk tokIdent) cols" and ?vals = "map (tk tokStr) vals"
  let ?pre = "?head @ tk tokSym ''('' # list_toks ?cols @ [tk tokSym '')'']"
  let ?post = "tk tokSym ''('' # list_toks ?vals @ [tk tokSym '')'']"
  have ne: "cols \<noteq> []" "vals \<noteq> []" using assms(6,7) by auto
  have toks: "tokenize (insert_sql t cols vals) = ?pre @ tk tokIdent ''VALUES'' # ?post"
    using tokenize_insert_sql [OF assms(1,2) ne] by simp
  have kwds: "\<not> EqualFold ''INSERT'' ''values''" "\<not> EqualFold ''INTO'' ''values''" "EqualFold ''VALUES'' ''values''"
    "ToLower ''INSERT'' = ''insert''" by code_simp+
  have "list_all (\<lambda>t. \<not> is_word ''values'' t) (list_toks ?cols)"
    by (rule list_all_list_toks) (use assms(4) in \<open>auto simp: is_word_def list_all_iff\<close>)
  then have "list_all (\<lambda>t. \<not> is_word ''values'' t) ?pre"
    using assms(3) kwds by (simp add: is_word_def)
  then have idx: "indexOfKeyword (?pre @ tk tokIdent ''VALUES'' # ?post) ''values'' = Some (length ?pre)"
    by (rule indexOfKeyword_append)
       (simp add: is_word_def kwds)
  have head: "list_all (\<lambda>t. \<not> is_sym ''('' t) ?head" by (simp add: is_sym_def)
  have "parenSplit (?pre @ tk tokIdent ''VALUES'' # ?post) 0 = Some (map (\<lambda>t. [t]) ?cols)"
    using parenSplit_list [OF _ _ head, of ?cols "tk tokIdent ''VALUES'' # ?post"] ne
    by (simp add: plain_tok_def list_all_iff)
  moreover have "parenSplit (?pre @ tk tokIdent ''VALUES'' # ?post) (length ?pre) = Some (map (\<lambda>t. [t]) ?vals)"
    using parenSplit_list [of ?vals "[tk tokIdent ''VALUES'']" "[]"] ne
    by (subst parenSplit_drop) (simp add: plain_tok_def list_all_iff is_sym_def)
  moreover have "insert_pick (cols ! i) (map (\<lambda>t. [t]) ?cols) (map (\<lambda>t. [t]) ?vals) = Some (vals ! i)"
    using insert_pick_singletons [of cols vals i] assms(2,5-8)
    by (simp add: comp_def list_all_iff sql_ident_def)
  ultimately have ins: "insertValueTok (?pre @ tk tokIdent ''VALUES'' # ?post) (cols ! i) = Some (vals ! i)"
    unfolding insertValueTok_def idx using assms(6) by simp
  have "cols ! i \<noteq> []" using assms(2,7) by (auto simp: list_all_length sql_ident_def)
  then show ?thesis using ins kwds(4) unfolding parserExtractor_def toks by (simp add: Let_def)
qed

lemma parserExtractor_point:
  assumes "sql_ident t" and "sql_ident col" and "v \<noteq> []"
  shows "parserExtractor (point_sql t col v) col = Some v"
proof -
  have "set (eq_literals col (tokenize (point_sql t col v))) = {v}"
    using assms by (auto simp: tokenize_point_sql eq_literals_Cons3 is_word_def is_sym_def isKeyLiteral_def)
      (auto simp: eq_literals_def)
  moreover have "ToLower ''SELECT'' = ''select''" by code_simp
  moreover have "col \<noteq> []" using assms(2) by (simp add: sql_ident_def)
  ultimately show ?thesis
    using assms by (simp add: parserExtractor_def tokenize_point_sql whereEqTok_Some)
qed

section \<open>Properties\<close>

text \<open>C28: Text inside a quoted literal, a quoted identifier or a block comment never leaks into other
  tokens: the tokenizer turns a quoted text (with its quote bytes doubled) into one token with
  exactly that text, drops a comment, and continues behind it.\<close>

theorem tokenize_roundtrip:
  "(\<not> HasPrefix r [CHR 0x27] \<longrightarrow> tokenize (sql_quote (CHR 0x27) s @ r) = tk tokStr s # tokenize r) \<and>
   (\<not> HasPrefix r [CHR 0x22] \<longrightarrow> tokenize (sql_quote (CHR 0x22) s @ r) = tk tokIdent s # tokenize r) \<and>
   (\<not> str_Contains (s @ ''*'') ''*/'' \<longrightarrow> tokenize (''/*'' @ s @ ''*/'' @ r) = tokenize r)"
  by (intro conjI impI tokenize_literal tokenize_quoted_ident tokenize_comment)

theorem tokenize_roundtrip_witness:
  "tokenize (sql_quote (CHR 0x27) ''it is'' @ '' x'') = tk tokStr ''it is'' # tokenize '' x'' \<and>
   tokenize (sql_quote (CHR 0x22) ''it is'' @ '' x'') = tk tokIdent ''it is'' # tokenize '' x'' \<and>
   tokenize (''/*'' @ ''it is'' @ ''*/'' @ '' x'') = tokenize '' x''"
proof -
  have "\<not> HasPrefix '' x'' [CHR 0x27]" "\<not> HasPrefix '' x'' [CHR 0x22]" "\<not> str_Contains (''it is'' @ ''*'') ''*/''"
    by (simp_all add: str_Contains_def)
  then show ?thesis using tokenize_roundtrip [of "'' x''" "''it is''"] by blast
qed

text \<open>C14: Ambiguity is refused. \<open>whereEqTok\<close> returns a key exactly when the statement compares the
  column with at least one literal and with no two different ones.\<close>

theorem whereEqTok_unambiguous:
  "(whereEqTok toks col = Some v) = (set (eq_literals col toks) = {v})"
  by (rule whereEqTok_Some)

text \<open>C29: From a point query or a single-row insert, written with any table, any columns and any
  non-empty text as the key, the parser strategy extracts exactly the key of the asked column.\<close>

theorem parserExtractor_rendered:
  assumes "sql_ident t" and "list_all sql_ident cols" and "\<not> EqualFold t ''values''"
    and "list_all (\<lambda>c. \<not> EqualFold c ''values'') cols" and "distinct (map ToLower cols)"
    and "length vals = length cols" and "i < length cols" and "vals ! i \<noteq> []"
  shows "parserExtractor (insert_sql t cols vals) (cols ! i) = Some (vals ! i) \<and>
         parserExtractor (point_sql t (cols ! i) (vals ! i)) (cols ! i) = Some (vals ! i)"
  using parserExtractor_insert [OF assms] parserExtractor_point [of t "cols ! i" "vals ! i"] assms
  by (simp add: list_all_length)

theorem parserExtractor_rendered_witness:
  "parserExtractor (insert_sql ''orders'' [''id'', ''tenant''] [''7'', ''acme'']) ''tenant'' = Some ''acme''"
  using parserExtractor_rendered [of "''orders''" "[''id'', ''tenant'']" "[''7'', ''acme'']" 1]
  by (simp add: sql_ident_def isIdentPart_def isIdentStart_def is_letter_def go_lib)

text \<open>C16: The classification of reads looks at the first keyword and at \<open>for\<close> only. A text with two statements whose
  first is a \<open>select\<close> counts as read-only although its second statement deletes rows, and so does a
  \<open>select ... into\<close> that creates a table.\<close>

theorem IsReadOnlyQuery_accepts_writes:
  "IsReadOnlyQuery ''select 1; delete from orders'' \<and> IsReadOnlyQuery ''select * into copy from orders''"
  by code_simp

end
