(* ===== verification/Scatter.thy ===== *)
theory Scatter
  imports Tokenizer Float64
begin

text \<open>
  Scatter and gather (\<open>scatter.go\<close>), recombination of partial aggregates (\<open>scatter_aggregate.go\<close>) and the
  detection of aggregate queries (\<open>aggregate_detect.go\<close>). The shard executor is a parameter: a function from
  the position in the list of shards to the answer; the order in which answers arrive is an argument.
\<close>

section \<open>Values and rows\<close>

text \<open>Go's \<open>any\<close> as the merge distinguishes it: signed integers, \<open>uint8\<close> and \<open>uint16\<close>, the other unsigned integers, \<open>float64\<close>,
  strings, byte slices, and any other value by its text under \<open>%v\<close>. Values of \<open>float32\<close> are left out.\<close>

datatype any = VNil | VInt int | VSmallUint nat | VUint nat | VFloat float64 | VStr string | VBytes string | VOther string

record Row =
  row_Shard :: string
  row_Values :: "any list"

datatype FailurePolicy = FailFast | BestEffort
datatype MergeStrategy = MergeConcat | MergeOrderBy | MergeAggregate
datatype AggregateFunc = AggNone | AggCount | AggSum | AggMin | AggMax

record ScatterGather =
  sg_Policy :: FailurePolicy
  sg_Merge :: MergeStrategy
  sg_Limit :: int
  sg_OrderByCol :: int
  sg_OrderByDesc :: bool
  sg_PushDownLimit :: bool
  sg_Aggregates :: "AggregateFunc list"

definition NewScatterGather :: ScatterGather where
  "NewScatterGather = \<lparr>sg_Policy = FailFast, sg_Merge = MergeConcat, sg_Limit = 0, sg_OrderByCol = 0,
     sg_OrderByDesc = False, sg_PushDownLimit = False, sg_Aggregates = []\<rparr>"

section \<open>Comparison\<close>

fun toFloat :: "any \<Rightarrow> float64 option" where
  "toFloat (VInt i) = Some (f64_of_int i)"
| "toFloat (VUint n) = Some (f64_of_int (int n))"
| "toFloat (VFloat f) = Some f"
| "toFloat (VStr s) = ParseFloat (TrimSpace s)"
| "toFloat (VBytes s) = ParseFloat (TrimSpace s)"
| "toFloat _ = None"

fun fmt_v :: "any \<Rightarrow> string" where
  "fmt_v VNil = ''<nil>''"
| "fmt_v (VInt i) = Itoa i"
| "fmt_v (VSmallUint n) = itoa_nat n"
| "fmt_v (VUint n) = itoa_nat n"
| "fmt_v (VFloat f) = fmt_float f"
| "fmt_v (VStr s) = s"
| "fmt_v (VBytes s) = ''['' @ str_Join '' '' (map (\<lambda>c. itoa_nat (of_char c)) s) @ '']''"
| "fmt_v (VOther s) = s"

fun toStr :: "any \<Rightarrow> string" where
  "toStr (VBytes s) = s"
| "toStr (VStr s) = s"
| "toStr v = fmt_v v"

definition str_Compare :: "string \<Rightarrow> string \<Rightarrow> int" where
  "str_Compare s t = (if s = t then 0 else if s < t then - 1 else 1)"

definition compareValues :: "any \<Rightarrow> any \<Rightarrow> int" where
  "compareValues a b =
     (case (toFloat a, toFloat b) of
        (Some af, Some bf) \<Rightarrow> if f64_less af bf then - 1 else if f64_less bf af then 1 else 0
      | _ \<Rightarrow> str_Compare (toStr a) (toStr b))"

definition valueAt :: "Row \<Rightarrow> int \<Rightarrow> any" where
  "valueAt r col = (if 0 \<le> col \<and> col < int (length (row_Values r)) then row_Values r ! nat col else VNil)"

definition cmpAtCol :: "Row \<Rightarrow> Row \<Rightarrow> int \<Rightarrow> int" where
  "cmpAtCol a b col =
     (case (valueAt a col, valueAt b col) of
        (VNil, VNil) \<Rightarrow> 0
      | (VNil, _) \<Rightarrow> 1
      | (_, VNil) \<Rightarrow> - 1
      | (av, bv) \<Rightarrow> compareValues av bv)"

text \<open>\<open>sort.SliceStable\<close> as the insertion sort it uses for up to twenty elements: each element moves left
  past the elements it is less than. On a strict weak order every stable sort gives this list.\<close>

fun sink :: "('a \<Rightarrow> 'a \<Rightarrow> bool) \<Rightarrow> 'a \<Rightarrow> 'a list \<Rightarrow> 'a list" where
  "sink lt x [] = [x]"
| "sink lt x (y # ys) = (if lt x y then y # sink lt x ys else x # y # ys)"

definition SliceStable :: "('a \<Rightarrow> 'a \<Rightarrow> bool) \<Rightarrow> 'a list \<Rightarrow> 'a list" where
  "SliceStable lt xs = rev (foldl (\<lambda>p x. sink lt x p) [] xs)"

definition row_less :: "int \<Rightarrow> bool \<Rightarrow> Row \<Rightarrow> Row \<Rightarrow> bool" where
  "row_less col desc a b = (let c = cmpAtCol a b col in if desc then 0 < c else c < 0)"

definition SortRowsByCol :: "Row list \<Rightarrow> int \<Rightarrow> bool \<Rightarrow> Row list" where
  "SortRowsByCol rows col desc = SliceStable (row_less col desc) rows"

section \<open>Aggregates\<close>

fun toInt64 :: "any \<Rightarrow> int option" where
  "toInt64 (VInt i) = Some i"
| "toInt64 (VSmallUint n) = Some (int n)"
| "toInt64 (VUint n) = Some (wrap64 (int n))"
| "toInt64 (VStr s) = Atoi (TrimSpace s)"
| "toInt64 (VBytes s) = Atoi (TrimSpace s)"
| "toInt64 _ = None"

record aggAcc =
  acc_fn :: AggregateFunc
  acc_i :: int
  acc_f :: float64
  acc_isFloat :: bool
  acc_hasNum :: bool
  acc_best :: any
  acc_hasBest :: bool

definition new_acc :: "AggregateFunc \<Rightarrow> aggAcc" where
  "new_acc fn = \<lparr>acc_fn = fn, acc_i = 0, acc_f = Fin 0 0, acc_isFloat = False, acc_hasNum = False, acc_best = VNil,
     acc_hasBest = False\<rparr>"

definition acc_number :: "any \<Rightarrow> aggAcc \<Rightarrow> aggAcc" where
  "acc_number v a =
     (case (if acc_isFloat a then None else toInt64 v) of
        Some iv \<Rightarrow> a\<lparr>acc_i := wrap64 (acc_i a + iv), acc_hasNum := True\<rparr>
      | None \<Rightarrow>
          (case toFloat v of
             None \<Rightarrow> a
           | Some fv \<Rightarrow>
               let f = (if acc_isFloat a then acc_f a else f64_of_int (acc_i a))
               in a\<lparr>acc_f := f64_add f fv, acc_isFloat := True, acc_hasNum := True\<rparr>))"

definition acc_extreme :: "any \<Rightarrow> aggAcc \<Rightarrow> aggAcc" where
  "acc_extreme v a =
     (if \<not> acc_hasBest a then a\<lparr>acc_best := v, acc_hasBest := True\<rparr>
      else
        let c = compareValues v (acc_best a) in
        if acc_fn a = AggMin \<and> c < 0 \<or> acc_fn a = AggMax \<and> 0 < c then a\<lparr>acc_best := v\<rparr> else a)"

definition acc_add :: "any \<Rightarrow> aggAcc \<Rightarrow> aggAcc" where
  "acc_add v a =
     (if v = VNil then a
      else case acc_fn a of
        AggCount \<Rightarrow> acc_number v a
      | AggSum \<Rightarrow> acc_number v a
      | AggMin \<Rightarrow> acc_extreme v a
      | AggMax \<Rightarrow> acc_extreme v a
      | AggNone \<Rightarrow> a)"

definition acc_result :: "aggAcc \<Rightarrow> any" where
  "acc_result a =
     (let num = (if acc_isFloat a then VFloat (acc_f a) else VInt (acc_i a)) in
      case acc_fn a of
        AggCount \<Rightarrow> if \<not> acc_hasNum a then VInt 0 else num
      | AggSum \<Rightarrow> if \<not> acc_hasNum a then VNil else num
      | AggMin \<Rightarrow> acc_best a
      | AggMax \<Rightarrow> acc_best a
      | AggNone \<Rightarrow> VNil)"

definition aggGroupKey :: "Row \<Rightarrow> AggregateFunc list \<Rightarrow> string" where
  "aggGroupKey row aggs =
     concat (map (\<lambda>i. if aggs ! i \<noteq> AggNone then [] else toStr (valueAt row (int i)) @ [CHR 0x1f]) [0..<length aggs])"

text \<open>The map \<open>groups\<close> with \<open>groupOrder\<close> is an association list in the order of first appearance; a group is
  its first row and an accumulator for every column.\<close>

definition add_row :: "AggregateFunc list \<Rightarrow> Row \<Rightarrow> aggAcc list \<Rightarrow> aggAcc list" where
  "add_row aggs row accs = map (\<lambda>i. acc_add (valueAt row (int i)) (accs ! i)) [0..<length aggs]"

fun group_insert :: "AggregateFunc list \<Rightarrow> string \<Rightarrow> Row \<Rightarrow> (string \<times> Row \<times> aggAcc list) list \<Rightarrow> (string \<times> Row \<times> aggAcc list) list" where
  "group_insert aggs key row [] = [(key, row, add_row aggs row (map new_acc aggs))]"
| "group_insert aggs key row ((k, r, accs) # gs) =
     (if k = key then (k, r, add_row aggs row accs) # gs else (k, r, accs) # group_insert aggs key row gs)"

definition group_row :: "AggregateFunc list \<Rightarrow> Row \<Rightarrow> aggAcc list \<Rightarrow> Row" where
  "group_row aggs keyRow accs =
     \<lparr>row_Shard = [],
      row_Values = map (\<lambda>i. if aggs ! i = AggNone then valueAt keyRow (int i) else acc_result (accs ! i)) [0..<length aggs]\<rparr>"

definition merge_groups :: "AggregateFunc list \<Rightarrow> Row list \<Rightarrow> Row list" where
  "merge_groups aggs flat =
     map (\<lambda>(k, r, accs). group_row aggs r accs)
       (foldl (\<lambda>gs row. group_insert aggs (aggGroupKey row aggs) row gs) [] flat)"

definition mergeConcat :: "string list \<Rightarrow> (string \<rightharpoonup> Row list) \<Rightarrow> Row list" where
  "mergeConcat order collected = concat (map (\<lambda>sh. case collected sh of None \<Rightarrow> [] | Some rows \<Rightarrow> rows) order)"

definition mergeAggregate :: "AggregateFunc list \<Rightarrow> string list \<Rightarrow> (string \<rightharpoonup> Row list) \<Rightarrow> Row list" where
  "mergeAggregate aggs order collected = merge_groups aggs (mergeConcat order collected)"

definition MergeAggregatePartials :: "Row list \<Rightarrow> AggregateFunc list \<Rightarrow> Row list" where
  "MergeAggregatePartials rows aggs =
     (if aggs = [] then rows else mergeAggregate aggs [''scatter''] [''scatter'' \<mapsto> rows])"

section \<open>Execution\<close>

definition hasLimitClause :: "string \<Rightarrow> bool" where
  "hasLimitClause query = list_ex (is_word ''limit'') (tokenize query)"

definition withLimitPushdown :: "string \<Rightarrow> int \<Rightarrow> string" where
  "withLimitPushdown query n =
     (let q = TrimRight (\<lambda>c. c \<in> {CHR '';'', CHR '' '', CHR 0x09, CHR 0x0A}) (TrimSpace query) in
      if str_Contains q '';'' \<or> hasLimitClause q then query else q @ '' LIMIT '' @ Itoa n)"

definition sg_merge :: "ScatterGather \<Rightarrow> string list \<Rightarrow> (string \<rightharpoonup> Row list) \<Rightarrow> Row list" where
  "sg_merge s order collected =
     (if sg_Merge s = MergeAggregate \<and> sg_Aggregates s \<noteq> [] then mergeAggregate (sg_Aggregates s) order collected
      else if sg_Merge s \<noteq> MergeOrderBy then mergeConcat order collected
      else SliceStable (row_less (sg_OrderByCol s) (sg_OrderByDesc s)) (mergeConcat order collected))"

datatype ScatterError = ErrNoShards | ErrNoExecutor | ErrShardFailure string string | ErrAllFailed nat

text \<open>The loop over the channel of results; with \<open>FailFast\<close> the results after the first failure are ignored.\<close>

fun gather ::
  "FailurePolicy \<Rightarrow> (string \<rightharpoonup> Row list) \<Rightarrow> nat \<Rightarrow> (string \<times> (string, Row list) result) list \<Rightarrow>
   (ScatterError, (string \<rightharpoonup> Row list) \<times> nat) result" where
  "gather policy collected failed [] = Inr (collected, failed)"
| "gather policy collected failed ((shard, Inl e) # rs) =
     (if policy = FailFast then Inl (ErrShardFailure shard e) else gather policy collected (Suc failed) rs)"
| "gather policy collected failed ((shard, Inr rows) # rs) = gather policy (collected(shard \<mapsto> rows)) failed rs"

text \<open>\<open>exec i shard query\<close> is the answer to the \<open>i\<close>-th goroutine; \<open>arrival\<close> lists their numbers in the order
  in which the answers arrive. \<open>None\<close> is an executor that is not configured. The test \<open>len(collected) == 0\<close> is written as: every answer is a failure.\<close>

definition sg_query :: "ScatterGather \<Rightarrow> string \<Rightarrow> string" where
  "sg_query s query =
     (if sg_PushDownLimit s \<and> 0 < sg_Limit s \<and> sg_Merge s \<noteq> MergeAggregate
      then withLimitPushdown query (sg_Limit s) else query)"

definition sg_cap :: "ScatterGather \<Rightarrow> Row list \<Rightarrow> Row list" where
  "sg_cap s merged =
     (if 0 < sg_Limit s \<and> sg_Limit s < int (length merged) then take (nat (sg_Limit s)) merged else merged)"

definition sg_Execute ::
  "ScatterGather \<Rightarrow> (nat \<Rightarrow> string \<Rightarrow> string \<Rightarrow> (string, Row list) result) option \<Rightarrow> nat list \<Rightarrow> string \<Rightarrow> string list \<Rightarrow>
   (ScatterError, Row list) result" where
  "sg_Execute s executor arrival query shards =
     (if shards = [] then Inl ErrNoShards
      else case executor of
        None \<Rightarrow> Inl ErrNoExecutor
      | Some exec \<Rightarrow>
          (case gather (sg_Policy s) Map.empty 0
                 (map (\<lambda>i. (shards ! i, exec i (shards ! i) (sg_query s query))) arrival) of
             Inl e \<Rightarrow> Inl e
           | Inr (collected, failed) \<Rightarrow>
               if sg_Policy s = BestEffort \<and> failed = length arrival then Inl (ErrAllFailed failed)
               else Inr (sg_cap s (sg_merge s shards collected))))"

section \<open>Detection of aggregate queries\<close>

datatype aggFuncName = aggCountMarker | aggSumMarker | aggMinMarker | aggMaxMarker | aggAvgMarker

definition aggregateFuncName :: "token \<Rightarrow> aggFuncName option" where
  "aggregateFuncName t =
     (if tok_kind t \<noteq> tokIdent then None
      else let w = ToLower (tok_text t) in
        if w = ''count'' then Some aggCountMarker
        else if w = ''sum'' then Some aggSumMarker
        else if w = ''min'' then Some aggMinMarker
        else if w = ''max'' then Some aggMaxMarker
        else if w = ''avg'' then Some aggAvgMarker
        else None)"

fun toAggregateFunc :: "aggFuncName \<Rightarrow> AggregateFunc" where
  "toAggregateFunc aggCountMarker = AggCount"
| "toAggregateFunc aggSumMarker = AggSum"
| "toAggregateFunc aggMinMarker = AggMin"
| "toAggregateFunc aggMaxMarker = AggMax"
| "toAggregateFunc aggAvgMarker = AggNone"

definition aliasOnly :: "token list \<Rightarrow> bool" where
  "aliasOnly rest =
     (case rest of
        [] \<Rightarrow> True
      | [t] \<Rightarrow> tok_kind t = tokIdent
      | [t, u] \<Rightarrow> is_word ''as'' t \<and> tok_kind u = tokIdent
      | _ \<Rightarrow> False)"

text \<open>The tokens after the parenthesis that closes the first one; \<open>None\<close> when it is not closed.\<close>

fun after_close :: "int \<Rightarrow> token list \<Rightarrow> token list option" where
  "after_close depth [] = None"
| "after_close depth (t # ts) =
     (if is_sym ''('' t then after_close (depth + 1) ts
      else if is_sym '')'' t then (if depth - 1 = 0 then Some ts else after_close (depth - 1) ts)
      else after_close depth ts)"

text \<open>\<open>None\<close> is \<open>pure = false\<close>.\<close>

definition segmentAggregate :: "token list \<Rightarrow> AggregateFunc option" where
  "segmentAggregate seg =
     (case seg of
        [] \<Rightarrow> None
      | t # ts \<Rightarrow>
          (case aggregateFuncName t of
             Some af \<Rightarrow>
               if ts \<noteq> [] \<and> is_sym ''('' (hd ts) then
                 (case after_close 0 ts of
                    None \<Rightarrow> None
                  | Some rest \<Rightarrow>
                      if af = aggAvgMarker then None
                      else if aliasOnly rest then Some (toAggregateFunc af) else None)
               else None
           | None \<Rightarrow>
               if list_ex (\<lambda>t. aggregateFuncName t \<noteq> None \<or> is_sym ''*'' t) seg then None else Some AggNone))"

fun split_commas :: "int \<Rightarrow> token list \<Rightarrow> token list \<Rightarrow> token list list" where
  "split_commas depth cur [] = (if cur = [] then [] else [cur])"
| "split_commas depth cur (t # ts) =
     (if is_sym ''('' t then split_commas (depth + 1) (cur @ [t]) ts
      else if is_sym '')'' t then split_commas (depth - 1) (cur @ [t]) ts
      else if depth = 0 \<and> is_sym '','' t then cur # split_commas depth [] ts
      else split_commas depth (cur @ [t]) ts)"

definition splitTopLevelCommas :: "token list \<Rightarrow> token list list" where
  "splitTopLevelCommas toks = split_commas 0 [] toks"

text \<open>The tokens before the first \<open>FROM\<close> outside parentheses.\<close>

fun before_from :: "int \<Rightarrow> token list \<Rightarrow> token list option" where
  "before_from depth [] = None"
| "before_from depth (t # ts) =
     (if is_sym ''('' t then map_option ((#) t) (before_from (depth + 1) ts)
      else if is_sym '')'' t then map_option ((#) t) (before_from (depth - 1) ts)
      else if depth = 0 \<and> is_word ''from'' t then Some []
      else map_option ((#) t) (before_from depth ts))"

fun all_segments :: "token list list \<Rightarrow> AggregateFunc list option" where
  "all_segments [] = Some []"
| "all_segments (seg # segs) =
     (case segmentAggregate seg of
        None \<Rightarrow> None
      | Some fn \<Rightarrow> map_option ((#) fn) (all_segments segs))"

definition DetectAggregates :: "string \<Rightarrow> AggregateFunc list option" where
  "DetectAggregates query =
     (case tokenize query of
        [] \<Rightarrow> None
      | t # ts \<Rightarrow>
          if list_ex (is_sym '';'') (t # ts) then None
          else if \<not> is_word ''select'' t then None
          else if ts \<noteq> [] \<and> is_word ''distinct'' (hd ts) then None
          else case before_from 0 ts of
            None \<Rightarrow> None
          | Some items \<Rightarrow>
              if items = [] \<or> splitTopLevelCommas items = [] then None
              else case all_segments (splitTopLevelCommas items) of
                None \<Rightarrow> None
              | Some out \<Rightarrow> if list_all (\<lambda>fn. fn = AggNone) out then None else Some out)"

end
