(* ===== verification/Scatter_Correct.thy ===== *)
theory Scatter_Correct
  imports Scatter
begin

text \<open>
  Correctness of scatter and gather: stable sorting and the exactness of the limit pushed to the shards, independence of
  the order in which answers arrive, and recombined aggregates against the result of one database.
\<close>

section \<open>Stable sorting\<close>

text \<open>A strict weak order on the elements of a set: what a caller of \<open>sort.SliceStable\<close> has to provide.\<close>

locale weak_order =
  fixes lt :: "'a \<Rightarrow> 'a \<Rightarrow> bool" and S :: "'a set"
  assumes asym: "x \<in> S \<Longrightarrow> y \<in> S \<Longrightarrow> lt x y \<Longrightarrow> \<not> lt y x"
    and negtrans: "x \<in> S \<Longrightarrow> y \<in> S \<Longrightarrow> z \<in> S \<Longrightarrow> lt x z \<Longrightarrow> lt x y \<or> lt y z"
begin

definition ordered :: "'a list \<Rightarrow> bool" where
  "ordered xs \<longleftrightarrow> set xs \<subseteq> S \<and> sorted_wrt (\<lambda>x y. \<not> lt y x) xs"

definition ins :: "'a \<Rightarrow> 'a list \<Rightarrow> 'a list" where
  "ins x p = rev (sink lt x (rev p))"

lemma ins_snoc: "ins x (p @ [y]) = (if lt x y then ins x p @ [y] else p @ [y, x])"
  by (simp add: ins_def)

lemma ins_filter:
  assumes "ordered p" and "x \<in> S"
  shows "ins x p = filter (\<lambda>y. \<not> lt x y) p @ x # filter (lt x) p"
  using assms
proof (induction p rule: rev_induct)
  case (snoc y p)
  then have p: "ordered p" "y \<in> S" "\<forall>z\<in>set p. \<not> lt y z" by (auto simp: ordered_def sorted_wrt_append)
  show ?case
  proof (cases "lt x y")
    case True
    with snoc.IH [OF p(1) snoc.prems(2)] show ?thesis by (simp add: ins_snoc)
  next
    case False
    then have "\<forall>z\<in>set p. \<not> lt x z" using p snoc.prems negtrans [of x y] by (auto simp: ordered_def)
    with False show ?thesis by (simp add: ins_snoc filter_id_conv filter_empty_conv)
  qed
qed (simp add: ins_def)

lemma mset_ins: "mset (ins x p) = add_mset x (mset p)"
  by (induction p rule: rev_induct) (simp_all add: ins_snoc, simp add: ins_def)

lemma set_ins: "set (ins x p) = insert x (set p)"
  using mset_ins [of x p] by (metis set_mset_add_mset_insert set_mset_mset)

lemma ordered_split: "ordered p \<Longrightarrow> x \<in> S \<Longrightarrow> p = filter (\<lambda>y. \<not> lt x y) p @ filter (lt x) p"
proof (induction p rule: rev_induct)
  case (snoc y p)
  then have p: "ordered p" "y \<in> S" "\<forall>z\<in>set p. \<not> lt y z" by (auto simp: ordered_def sorted_wrt_append)
  show ?case
  proof (cases "lt x y")
    case False
    then have "\<forall>z\<in>set p. \<not> lt x z" using p snoc.prems negtrans [of x y] by (auto simp: ordered_def)
    with False show ?thesis by (simp add: filter_id_conv filter_empty_conv)
  qed (use snoc.IH [OF p(1) snoc.prems(2)] in simp)
qed simp

lemma ordered_ins:
  assumes "ordered p" and "x \<in> S"
  shows "ordered (ins x p)"
proof -
  have S: "set p \<subseteq> S" using assms(1) by (simp add: ordered_def)
  have "\<not> lt z y" if "y \<in> set p" "z \<in> set p" "\<not> lt x y" "lt x z" for y z
    using that S assms(2) negtrans [of z x y] asym [of x z] by blast
  then show ?thesis
    using assms S asym [OF assms(2)] unfolding ins_filter [OF assms] ordered_def
    by (auto simp: sorted_wrt_append sorted_wrt_filter)
qed

lemma ordered_foldl: "ordered p \<Longrightarrow> set xs \<subseteq> S \<Longrightarrow> ordered (foldl (\<lambda>p x. ins x p) p xs)"
  by (induction xs arbitrary: p) (simp_all add: ordered_ins)

lemma mset_foldl: "mset (foldl (\<lambda>p x. ins x p) p xs) = mset p + mset xs"
  by (induction xs arbitrary: p) (simp_all add: mset_ins)

lemma SliceStable_ins: "SliceStable lt xs = foldl (\<lambda>p x. ins x p) [] xs"
proof -
  have "foldl (\<lambda>p x. sink lt x p) [] xs = rev (foldl (\<lambda>p x. ins x p) [] xs)"
    by (induction xs rule: rev_induct) (simp_all add: ins_def)
  then show ?thesis by (simp add: SliceStable_def)
qed

lemma SliceStable_sorts: "set xs \<subseteq> S \<Longrightarrow> mset (SliceStable lt xs) = mset xs \<and> ordered (SliceStable lt xs)"
  unfolding SliceStable_ins by (simp add: mset_foldl ordered_foldl ordered_def [of "[]"])

lemma SliceStable_stable:
  assumes "set xs \<subseteq> S" and "a \<in> S"
  shows "filter (\<lambda>y. \<not> lt a y \<and> \<not> lt y a) (SliceStable lt xs) = filter (\<lambda>y. \<not> lt a y \<and> \<not> lt y a) xs"
  using assms(1)
proof (induction xs rule: rev_induct)
  case (snoc x xs)
  let ?p = "SliceStable lt xs"
  have p: "ordered ?p" "x \<in> S" using SliceStable_sorts [of xs] snoc.prems by auto
  have "filter (\<lambda>y. \<not> lt a y \<and> \<not> lt y a) (filter (lt x) ?p) = []" if "\<not> lt a x \<and> \<not> lt x a"
    using that p assms(2) negtrans [of x a] by (auto simp: filter_empty_conv ordered_def)
  then have "filter (\<lambda>y. \<not> lt a y \<and> \<not> lt y a) (ins x ?p) =
      filter (\<lambda>y. \<not> lt a y \<and> \<not> lt y a) ?p @ (if \<not> lt a x \<and> \<not> lt x a then [x] else [])"
    using arg_cong [OF ordered_split [OF p], of "filter (\<lambda>y. \<not> lt a y \<and> \<not> lt y a)"] unfolding ins_filter [OF p] by simp
  with snoc show ?case by (simp add: SliceStable_ins)
qed (simp add: SliceStable_def)

subsection \<open>Truncated inputs\<close>

lemma take_ins:
  assumes "ordered p" and "x \<in> S"
  shows "take n (ins x p) = take n (ins x (take n p))"
proof -
  let ?A = "filter (\<lambda>y. \<not> lt x y) p" and ?B = "filter (lt x) p"
  have p: "p = ?A @ ?B" by (rule ordered_split [OF assms])
  have o: "ordered (take n p)" using assms(1) by (auto simp: ordered_def sorted_wrt_take dest: in_set_takeD)
  have t: "take n p = take n ?A @ take (n - length ?A) ?B" by (metis p take_append)
  have same: "filter Q (take k (filter Q p)) = take k (filter Q p)" for Q k
    by (auto simp: filter_id_conv dest: in_set_takeD)
  have none: "filter (\<lambda>y. \<not> lt x y) (take k ?B) = []" "filter (lt x) (take k ?A) = []" for k
    by (auto simp: filter_empty_conv dest: in_set_takeD)
  have "filter (\<lambda>y. \<not> lt x y) (take n p) = take n ?A" "filter (lt x) (take n p) = take (n - length ?A) ?B"
    unfolding t by (simp_all only: filter_append same none append_Nil append_Nil2)
  then show ?thesis
    unfolding ins_filter [OF assms] ins_filter [OF o assms(2)] by (simp add: min_def take_Cons')
qed

lemma take_ins_large:
  assumes "ordered p" and "x \<in> S" and "n \<le> length (filter (\<lambda>y. \<not> lt x y) p)"
  shows "take n (ins x p) = take n p"
proof -
  have "take n p = take n (filter (\<lambda>y. \<not> lt x y) p @ filter (lt x) p)"
    by (rule arg_cong [OF ordered_split [OF assms(1,2)]])
  then show ?thesis using assms(3) by (simp add: ins_filter [OF assms(1,2)])
qed

lemma length_filter_ins: "length (filter P p) \<le> length (filter P (ins x p))"
  using arg_cong [OF mset_ins [of x p], of "\<lambda>M. size (filter_mset P M)"] by (simp flip: mset_filter split: if_splits)

lemma take_foldl_large:
  assumes "ordered p" and "set ys \<subseteq> S" and "\<forall>x\<in>set ys. n \<le> length (filter (\<lambda>y. \<not> lt x y) p)"
  shows "take n (foldl (\<lambda>p x. ins x p) p ys) = take n p"
  using assms
proof (induction ys arbitrary: p)
  case (Cons x ys)
  have "\<forall>z\<in>set ys. n \<le> length (filter (\<lambda>y. \<not> lt z y) (ins x p))"
    using Cons.prems(3) length_filter_ins by (metis le_trans list.set_intros(2))
  with Cons.IH [OF ordered_ins] Cons.prems take_ins_large show ?case by simp
qed simp

lemma take_foldl_cong:
  assumes "ordered p" "ordered q" "take n p = take n q" and "set ys \<subseteq> S"
  shows "take n (foldl (\<lambda>p x. ins x p) p ys) = take n (foldl (\<lambda>p x. ins x p) q ys)"
  using assms
proof (induction ys arbitrary: p q)
  case (Cons x ys)
  then have "take n (ins x p) = take n (ins x q)" using take_ins [of p x n] take_ins [of q x n] by simp
  with Cons ordered_ins show ?case by simp
qed simp

lemma take_foldl_truncated:
  assumes "ordered p" and "\<forall>xs\<in>set xss. ordered xs"
  shows "take n (foldl (\<lambda>p x. ins x p) p (concat xss)) = take n (foldl (\<lambda>p x. ins x p) p (concat (map (take n) xss)))"
  using assms
proof (induction xss arbitrary: p)
  case (Cons xs xss)
  let ?f = "foldl (\<lambda>p x. ins x p)"
  have S: "set xs \<subseteq> S" "set (concat xss) \<subseteq> S" using Cons.prems(2) by (auto simp: ordered_def)
  then have S': "set (take n xs) \<subseteq> S" "set (drop n xs) \<subseteq> S" by (auto dest: in_set_takeD in_set_dropD)
  define p1 where "p1 = ?f p (take n xs)"
  have p1: "ordered p1" unfolding p1_def by (rule ordered_foldl [OF Cons.prems(1) S'(1)])
  have "n \<le> length (filter (\<lambda>y. \<not> lt x y) p1)" if x: "x \<in> set (drop n xs)" for x
  proof -
    have len: "length (take n xs) = n" using x by (cases "n \<le> length xs") auto
    have "sorted_wrt (\<lambda>x y. \<not> lt y x) (take n xs @ drop n xs)" using Cons.prems(2) by (simp add: ordered_def)
    then have "filter (\<lambda>y. \<not> lt x y) (take n xs) = take n xs"
      using x by (auto simp: filter_id_conv sorted_wrt_append simp del: append_take_drop_id)
    moreover have "length (filter (\<lambda>y. \<not> lt x y) (take n xs)) \<le> length (filter (\<lambda>y. \<not> lt x y) p1)"
      using arg_cong [OF mset_foldl [of p "take n xs"], of "\<lambda>M. size (filter_mset (\<lambda>y. \<not> lt x y) M)"]
      by (simp add: p1_def flip: mset_filter)
    ultimately show ?thesis using len by simp
  qed
  then have t: "take n (?f p1 (drop n xs)) = take n p1" using take_foldl_large [OF p1 S'(2)] by blast
  have "?f p xs = ?f p1 (drop n xs)" unfolding p1_def by (metis append_take_drop_id foldl_append)
  with take_foldl_cong [OF ordered_foldl [OF p1 S'(2)] p1 t S(2)]
  have "take n (?f p (concat (xs # xss))) = take n (?f p1 (concat xss))" by simp
  with Cons.IH [OF p1] Cons.prems(2) show ?case by (simp add: p1_def)
qed simp

text \<open>The first \<open>n\<close> of sorted inputs are found among the first \<open>n\<close> of each.\<close>

lemma SliceStable_truncated:
  "\<forall>xs\<in>set xss. ordered xs \<Longrightarrow> take n (SliceStable lt (concat xss)) = take n (SliceStable lt (concat (map (take n) xss)))"
  unfolding SliceStable_ins by (rule take_foldl_truncated) (simp_all add: ordered_def)

end

section \<open>Columns of numbers\<close>

text \<open>A column value that is \<open>NULL\<close> or reads as a number, and its place in the order, \<open>NULL\<close> last.\<close>

definition numeric_at :: "int \<Rightarrow> Row \<Rightarrow> bool" where
  "numeric_at col r =
     (case valueAt r col of VNil \<Rightarrow> True | v \<Rightarrow> (case toFloat v of None \<Rightarrow> False | Some f \<Rightarrow> f \<noteq> NaN))"

definition row_key :: "int \<Rightarrow> Row \<Rightarrow> int \<times> real" where
  "row_key col r =
     (case valueAt r col of VNil \<Rightarrow> (2, 0) | v \<Rightarrow> (case toFloat v of None \<Rightarrow> (0, 0) | Some f \<Rightarrow> f64_key f))"

lemma f64_key_below_nil: "f64_key f < (2, 0)"
  by (cases f) (auto simp: less_prod_def)

lemma numeric_atE:
  assumes "numeric_at col r"
  obtains "valueAt r col = VNil" "row_key col r = (2, 0)"
  | f where "valueAt r col \<noteq> VNil" "toFloat (valueAt r col) = Some f" "f \<noteq> NaN" "row_key col r = f64_key f"
  using assms by (cases "valueAt r col") (auto simp: numeric_at_def row_key_def split: option.splits)

lemma cmpAtCol_numbers:
  assumes "valueAt a col \<noteq> VNil" "valueAt b col \<noteq> VNil" "toFloat (valueAt a col) = Some f" "toFloat (valueAt b col) = Some g"
  shows "cmpAtCol a b col = (if f64_less f g then - 1 else if f64_less g f then 1 else 0)"
  using assms by (cases "valueAt a col"; cases "valueAt b col") (simp_all add: cmpAtCol_def compareValues_def)

lemma cmpAtCol_key:
  assumes "numeric_at col a" and "numeric_at col b"
  shows "(cmpAtCol a b col < 0) = (row_key col a < row_key col b)" "(0 < cmpAtCol a b col) = (row_key col b < row_key col a)"
proof -
  have nil: "cmpAtCol a b col = (if valueAt a col = VNil then (if valueAt b col = VNil then 0 else 1) else - 1)"
    if "valueAt a col = VNil \<or> valueAt b col = VNil"
    using that by (cases "valueAt a col"; cases "valueAt b col") (simp_all add: cmpAtCol_def)
  have "(cmpAtCol a b col < 0) = (row_key col a < row_key col b) \<and> (0 < cmpAtCol a b col) = (row_key col b < row_key col a)"
    using assms
  proof (elim numeric_atE)
    fix f g assume "valueAt a col \<noteq> VNil" "toFloat (valueAt a col) = Some f" "f \<noteq> NaN" "row_key col a = f64_key f"
      "valueAt b col \<noteq> VNil" "toFloat (valueAt b col) = Some g" "g \<noteq> NaN" "row_key col b = f64_key g"
    then show ?thesis using cmpAtCol_numbers [of a col b f g] f64_less_iff [of f g] f64_less_iff [of g f] by auto
  qed (use nil f64_key_below_nil in \<open>auto dest: order.asym\<close>)
  then show "(cmpAtCol a b col < 0) = (row_key col a < row_key col b)"
    "(0 < cmpAtCol a b col) = (row_key col b < row_key col a)" by blast+
qed

lemma row_less_key:
  "numeric_at col a \<Longrightarrow> numeric_at col b \<Longrightarrow>
   row_less col desc a b = (if desc then row_key col b < row_key col a else row_key col a < row_key col b)"
  by (simp add: row_less_def Let_def cmpAtCol_key)

interpretation numeric_rows: weak_order "row_less col desc" "{r. numeric_at col r}" for col desc
proof
  fix x y assume "x \<in> {r. numeric_at col r}" "y \<in> {r. numeric_at col r}" "row_less col desc x y"
  then show "\<not> row_less col desc y x" by (auto simp: row_less_key split: if_splits)
next
  fix x y z assume "x \<in> {r. numeric_at col r}" "y \<in> {r. numeric_at col r}" "z \<in> {r. numeric_at col r}" "row_less col desc x z"
  then show "row_less col desc x y \<or> row_less col desc y z" by (auto simp: row_less_key split: if_splits)
qed

section \<open>Gathering\<close>

text \<open>The rows of the shards that answered.\<close>

definition answers :: "(nat \<Rightarrow> (string, Row list) result) \<Rightarrow> string list \<Rightarrow> string \<rightharpoonup> Row list" where
  "answers ans shards sh =
     (case map_of (map (\<lambda>i. (shards ! i, ans i)) [0..<length shards]) sh of Some (Inr rows) \<Rightarrow> Some rows | _ \<Rightarrow> None)"

lemma gather_fails:
  assumes "find (\<lambda>r. isl (snd r)) rs = Some (sh, Inl e)"
  shows "gather FailFast c n rs = Inl (ErrShardFailure sh e)"
  using assms
proof (induction rs arbitrary: c)
  case (Cons r rs)
  then show ?case by (cases r; cases "snd r") auto
qed simp

lemma gather_all:
  assumes "policy = BestEffort \<or> (\<forall>r\<in>set rs. \<not> isl (snd r))" and "distinct (map fst rs)"
  shows "gather policy c n rs =
    Inr (\<lambda>sh. case map_of rs sh of Some (Inr rows) \<Rightarrow> Some rows | _ \<Rightarrow> c sh, n + length (filter (\<lambda>r. isl (snd r)) rs))"
  using assms
proof (induction rs arbitrary: c n)
  case (Cons r rs)
  obtain sh a where r: "r = (sh, a)" by fastforce
  have sh: "map_of rs sh = None" using Cons.prems(2) r by (simp add: map_of_eq_None_iff)
  show ?case
  proof (cases a)
    case (Inl e)
    then have "policy \<noteq> FailFast" using Cons.prems(1) r by auto
    with Cons Inl r sh show ?thesis by (auto simp: fun_eq_iff)
  next
    case (Inr rows)
    with Cons r sh show ?thesis by (auto simp: fun_eq_iff split: option.splits sum.splits)
  qed
qed simp

lemma gather_none:
  "\<forall>i\<in>set is. isl (ans i) \<Longrightarrow> gather BestEffort c n (map (\<lambda>i. (f i, ans i)) is) = Inr (c, n + length is)"
proof (induction "is" arbitrary: n)
  case (Cons i "is")
  then obtain e where "ans i = Inl e" by (auto simp: isl_def)
  with Cons show ?case by simp
qed simp

lemma find_failed:
  "find (\<lambda>r. isl (snd r)) (map (\<lambda>i. (f i, ans i)) is) = map_option (\<lambda>i. (f i, ans i)) (find (\<lambda>i. isl (ans i)) is)"
  by (induction "is") auto

lemma sg_Execute_fails:
  assumes "shards \<noteq> []" and "sg_Policy s = FailFast" and "i \<in> set arrival" and "isl (exec i (shards ! i) (sg_query s q))"
  shows "\<exists>j e. j \<in> set arrival \<and> exec j (shards ! j) (sg_query s q) = Inl e \<and>
    sg_Execute s (Some exec) arrival q shards = Inl (ErrShardFailure (shards ! j) e)"
proof -
  define ans where "ans = (\<lambda>i. exec i (shards ! i) (sg_query s q))"
  have ex: "\<exists>i\<in>set arrival. isl (ans i)" using assms(3,4) by (auto simp: ans_def)
  then obtain j where j: "find (\<lambda>i. isl (ans i)) arrival = Some j"
    by (cases "find (\<lambda>i. isl (ans i)) arrival") (auto simp: find_None_iff)
  then have ja: "j \<in> set arrival" "isl (ans j)" by (auto simp: find_Some_iff)
  then obtain e where e: "ans j = Inl e" by (auto simp: isl_def)
  have "gather FailFast Map.empty 0 (map (\<lambda>i. (shards ! i, ans i)) arrival) = Inl (ErrShardFailure (shards ! j) e)"
    using j e by (intro gather_fails) (simp add: find_failed)
  with assms(1,2) ja(1) e show ?thesis unfolding sg_Execute_def ans_def by (intro exI [of _ j] exI [of _ e]) simp
qed

lemma arrival_set: "mset arrival = mset [0..<n] \<Longrightarrow> set arrival = {0..<n}"
  using mset_eq_setD [of arrival "[0..<n]"] by simp

lemma sg_Execute_succeeds:
  assumes "distinct shards" "shards \<noteq> []" and arr: "mset arrival = mset [0..<length shards]"
    and ok: "sg_Policy s = BestEffort \<or> (\<forall>i<length shards. \<not> isl (exec i (shards ! i) (sg_query s q)))"
    and some: "\<exists>i<length shards. \<not> isl (exec i (shards ! i) (sg_query s q))"
  shows "sg_Execute s (Some exec) arrival q shards =
    Inr (sg_cap s (sg_merge s shards (answers (\<lambda>i. exec i (shards ! i) (sg_query s q)) shards)))"
proof -
  define ans where "ans = (\<lambda>i. exec i (shards ! i) (sg_query s q))"
  let ?rs = "map (\<lambda>i. (shards ! i, ans i)) arrival" and ?ss = "map (\<lambda>i. (shards ! i, ans i)) [0..<length shards]"
  have m: "mset ?rs = mset ?ss" using arr by (simp only: mset_map)
  have set: "set arrival = {0..<length shards}" by (rule arrival_set [OF arr])
  have d: "distinct (map fst ?ss)" using assms(1) by (simp add: comp_def map_nth)
  have "mset (map fst ?rs) = mset (map fst ?ss)" using m by (simp only: mset_map)
  from mset_eq_imp_distinct_iff [OF this] d have d': "distinct (map fst ?rs)" by blast
  have "set ?rs = set ?ss" using mset_eq_setD [OF m] .
  with map_of_inject_set [OF d' d] have mo: "map_of ?rs = map_of ?ss" by blast
  have "answers ans shards = (\<lambda>sh. case map_of ?rs sh of Some (Inr rows) \<Rightarrow> Some rows | _ \<Rightarrow> Map.empty sh)"
    unfolding mo by (rule ext) (simp only: answers_def)
  moreover have "sg_Policy s = BestEffort \<or> (\<forall>r\<in>set ?rs. \<not> isl (snd r))" using ok set by (auto simp: ans_def)
  ultimately have g: "gather (sg_Policy s) Map.empty 0 ?rs =
      Inr (answers ans shards, length (filter (\<lambda>r. isl (snd r)) ?rs))"
    using gather_all [OF _ d', of "sg_Policy s" Map.empty 0] by (simp only: add_0)
  from some obtain i where "i < length shards" "\<not> isl (ans i)" by (auto simp: ans_def)
  with length_filter_less [of "(shards ! i, ans i)" ?rs "\<lambda>r. isl (snd r)"] set
  have "length (filter (\<lambda>r. isl (snd r)) ?rs) \<noteq> length arrival" by simp
  with g assms(2) show ?thesis by (simp add: sg_Execute_def ans_def)
qed

text \<open>
  The order in which the shards answer does not matter: two executions of a query on distinct
  shards that get the same answers in different orders give the same result, or both fail with the failure
  of some shard.
\<close>
theorem scatter_order_irrelevant:
  assumes "distinct shards" and "mset a1 = mset [0..<length shards]" and "mset a2 = mset [0..<length shards]"
  shows "sg_Execute s (Some exec) a1 q shards = sg_Execute s (Some exec) a2 q shards \<or>
    (\<exists>i j e e'. exec i (shards ! i) (sg_query s q) = Inl e \<and> exec j (shards ! j) (sg_query s q) = Inl e' \<and>
       sg_Policy s = FailFast \<and>
       sg_Execute s (Some exec) a1 q shards = Inl (ErrShardFailure (shards ! i) e) \<and>
       sg_Execute s (Some exec) a2 q shards = Inl (ErrShardFailure (shards ! j) e'))"
proof (cases "shards = []")
  case False
  have set: "set a1 = {0..<length shards}" "set a2 = {0..<length shards}"
    using arrival_set [OF assms(2)] arrival_set [OF assms(3)] .
  let ?failed = "\<lambda>i. isl (exec i (shards ! i) (sg_query s q))"
  show ?thesis
  proof (cases "sg_Policy s = FailFast \<and> (\<exists>i<length shards. ?failed i)")
    case True
    then obtain i where "i \<in> set a1" "i \<in> set a2" "?failed i" using set by auto
    with True sg_Execute_fails [OF False, of s i a1 exec q] sg_Execute_fails [OF False, of s i a2 exec q] show ?thesis by metis
  next
    case ok: False
    show ?thesis
    proof (cases "\<forall>i<length shards. ?failed i")
      case True
      then have be: "sg_Policy s = BestEffort" using ok False by (cases "sg_Policy s") auto
      have "sg_Execute s (Some exec) a q shards = Inl (ErrAllFailed (length a))" if "set a = {0..<length shards}" for a
        using gather_none [of a "\<lambda>i. exec i (shards ! i) (sg_query s q)" Map.empty 0 "(!) shards"] that True False be
        by (simp add: sg_Execute_def)
      moreover have "length a1 = length a2" using assms(2,3) by (metis size_mset)
      ultimately show ?thesis using set by simp
    next
      case some: False
      have "sg_Policy s = BestEffort \<or> (\<forall>i<length shards. \<not> ?failed i)" using ok by (cases "sg_Policy s") auto
      then show ?thesis using sg_Execute_succeeds [OF assms(1) False _ _] assms(2,3) some by auto
    qed
  qed
qed (simp add: sg_Execute_def)

section \<open>The limit pushed to the shards\<close>

text \<open>The answers to a query with a limit are the first rows of the answers without it.\<close>

definition truncates :: "nat \<Rightarrow> (string, Row list) result \<Rightarrow> (string, Row list) result \<Rightarrow> bool" where
  "truncates n full trunc = (case (full, trunc) of (Inr rows, Inr rows') \<Rightarrow> rows' = take n rows | (Inl e, Inl e') \<Rightarrow> e = e' | _ \<Rightarrow> False)"

lemma answers_truncated:
  assumes "\<And>i. i < length shards \<Longrightarrow> truncates n (full i) (trunc i)"
  shows "answers trunc shards = (\<lambda>sh. map_option (take n) (answers full shards sh))"
proof -
  have "map_of (map (\<lambda>i. (shards ! i, trunc i)) is) sh = None \<and> map_of (map (\<lambda>i. (shards ! i, full i)) is) sh = None \<or>
      (\<exists>i<length shards. map_of (map (\<lambda>i. (shards ! i, trunc i)) is) sh = Some (trunc i) \<and>
        map_of (map (\<lambda>i. (shards ! i, full i)) is) sh = Some (full i))"
    if "set is \<subseteq> {0..<length shards}" for sh "is"
    using that
  proof (induction "is")
    case (Cons i "is")
    then show ?case by (cases "shards ! i = sh") (auto, blast?)
  qed simp
  note look = this
  have "answers trunc shards sh = map_option (take n) (answers full shards sh)" for sh
  proof -
    from look [of "[0..<length shards]" sh] consider
      "map_of (map (\<lambda>i. (shards ! i, trunc i)) [0..<length shards]) sh = None"
      "map_of (map (\<lambda>i. (shards ! i, full i)) [0..<length shards]) sh = None"
    | i where "i < length shards" "map_of (map (\<lambda>i. (shards ! i, trunc i)) [0..<length shards]) sh = Some (trunc i)"
        "map_of (map (\<lambda>i. (shards ! i, full i)) [0..<length shards]) sh = Some (full i)" by auto
    then show ?thesis
    proof cases
      case (2 i)
      with assms [of i] show ?thesis by (cases "full i"; cases "trunc i") (simp_all add: answers_def truncates_def)
    qed (simp add: answers_def)
  qed
  then show ?thesis ..
qed

lemma answers_SomeD: "answers ans shards sh = Some rows \<Longrightarrow> \<exists>i<length shards. ans i = Inr rows"
  by (auto simp: answers_def split: option.splits sum.splits dest!: map_of_SomeD) metis

lemma mergeConcat_truncated:
  "mergeConcat order (\<lambda>sh. map_option (take n) (c sh)) =
   concat (map (take n) (map (\<lambda>sh. case c sh of None \<Rightarrow> [] | Some rows \<Rightarrow> rows) order))"
  by (auto simp: mergeConcat_def comp_def intro!: arg_cong [where f = concat] map_cong split: option.splits)

lemma take_concat_truncated: "take n (concat xss) = take n (concat (map (take n) xss))"
proof (induction xss)
  case (Cons xs xss)
  have "take m (concat xss) = take m (concat (map (take n) xss))" if "m \<le> n" for m
    using Cons.IH that by (metis min_absorb1 take_take)
  from this [of "n - length xs"] show ?case by (simp add: min_def)
qed simp

lemma sg_cap_take: "0 < sg_Limit s \<Longrightarrow> sg_cap s rows = take (nat (sg_Limit s)) rows"
  by (auto simp: sg_cap_def)

lemma sg_merge_truncated:
  assumes "sg_Merge s \<noteq> MergeAggregate"
    and "sg_Merge s = MergeOrderBy \<Longrightarrow> \<forall>sh\<in>set order. \<forall>rows. c sh = Some rows \<longrightarrow>
      (\<forall>r\<in>set rows. numeric_at (sg_OrderByCol s) r) \<and>
      sorted_wrt (\<lambda>x y. \<not> row_less (sg_OrderByCol s) (sg_OrderByDesc s) y x) rows"
  shows "take n (sg_merge s order (\<lambda>sh. map_option (take n) (c sh))) = take n (sg_merge s order c)"
proof -
  let ?xss = "map (\<lambda>sh. case c sh of None \<Rightarrow> [] | Some rows \<Rightarrow> rows) order"
  let ?lt = "row_less (sg_OrderByCol s) (sg_OrderByDesc s)"
  show ?thesis
  proof (cases "sg_Merge s = MergeOrderBy")
    case True
    have "\<forall>xs\<in>set ?xss. numeric_rows.ordered (sg_OrderByCol s) (sg_OrderByDesc s) xs"
      using assms(2) [OF True] by (auto simp: numeric_rows.ordered_def split: option.splits)
    from numeric_rows.SliceStable_truncated [OF this, of n] show ?thesis
      using True by (simp add: sg_merge_def mergeConcat_truncated) (simp add: mergeConcat_def comp_def)
  next
    case False
    then show ?thesis using assms(1) take_concat_truncated [of n ?xss]
      by (simp add: sg_merge_def mergeConcat_truncated) (simp add: mergeConcat_def comp_def)
  qed
qed


definition text_row :: "string list \<Rightarrow> Row" where
  "text_row vs = \<lparr>row_Shard = [], row_Values = map VStr vs\<rparr>"

definition demo_sorted :: "nat \<Rightarrow> Row list" where
  "demo_sorted i = (if i = 0 then [text_row [''2''], text_row [''9''], text_row [''10'']] else [text_row [''1''], text_row [''3''], text_row [''20'']])"

definition demo_query :: string where "demo_query = ''select id from t order by id;''"

definition demo_exec :: "nat \<Rightarrow> string \<Rightarrow> string \<Rightarrow> (string, Row list) result" where
  "demo_exec i sh q = Inr (if q = withLimitPushdown demo_query 2 then take 2 (demo_sorted i) else demo_sorted i)"


section \<open>Groups\<close>

lemma collect_distinct_snoc: "collect_distinct seen (xs @ [x]) = collect_distinct seen xs @ (if x \<in> seen \<union> set xs then [] else [x])"
  by (induction xs arbitrary: seen) auto

text \<open>The groups of a list of rows: the keys in the order of appearance, each with its rows.\<close>

definition group_of :: "('a \<Rightarrow> 'k) \<Rightarrow> 'a list \<Rightarrow> 'k \<Rightarrow> 'a list" where
  "group_of key xs k = filter (\<lambda>x. key x = k) xs"

definition fold_rows :: "AggregateFunc list \<Rightarrow> Row list \<Rightarrow> aggAcc list" where
  "fold_rows aggs rows = foldl (\<lambda>accs row. add_row aggs row accs) (map new_acc aggs) rows"

lemma group_insert_map:
  assumes "distinct ks"
  shows "group_insert aggs key row (map (\<lambda>k. (k, f k, g k)) ks) =
    (if key \<in> set ks then map (\<lambda>k. (k, f k, if k = key then add_row aggs row (g k) else g k)) ks
     else map (\<lambda>k. (k, f k, g k)) ks @ [(key, row, add_row aggs row (map new_acc aggs))])"
  using assms by (induction ks) auto

lemma merge_groups_eq:
  "merge_groups aggs rows =
   (let key = (\<lambda>r. aggGroupKey r aggs) in
    map (\<lambda>k. group_row aggs (hd (group_of key rows k)) (fold_rows aggs (group_of key rows k))) (collect_distinct {} (map key rows)))"
proof -
  define key where "key = (\<lambda>r. aggGroupKey r aggs)"
  have "foldl (\<lambda>gs row. group_insert aggs (key row) row gs) [] rows =
      map (\<lambda>k. (k, hd (group_of key rows k), fold_rows aggs (group_of key rows k))) (collect_distinct {} (map key rows))"
  proof (induction rows rule: rev_induct)
    case (snoc row rows)
    let ?ks = "collect_distinct {} (map key rows)"
    have set: "set ?ks = key ` set rows" by (simp add: set_collect_distinct)
    have ne: "group_of key rows k \<noteq> []" if "k \<in> set ?ks" for k
      using that by (auto simp: set group_of_def filter_empty_conv)
    have same: "(hd (group_of key (rows @ [row]) k), fold_rows aggs (group_of key (rows @ [row]) k)) =
        (hd (group_of key rows k), if k = key row then add_row aggs row (fold_rows aggs (group_of key rows k)) else fold_rows aggs (group_of key rows k))"
      if "k \<in> set ?ks" for k
      using ne [OF that] by (auto simp: group_of_def fold_rows_def)
    show ?case
    proof (cases "key row \<in> set ?ks")
      case True
      then show ?thesis
        using snoc group_insert_map [OF distinct_collect_distinct, of aggs "key row" row] same set
        by (simp add: collect_distinct_snoc)
    next
      case False
      then have "group_of key rows (key row) = []" unfolding set group_of_def filter_empty_conv by (metis imageI)
      moreover have "group_of key (rows @ [row]) k = group_of key rows k" if "k \<in> set ?ks" for k
        using that False by (auto simp: group_of_def)
      ultimately show ?thesis
        using snoc group_insert_map [OF distinct_collect_distinct, of aggs "key row" row] False set
        by (simp add: collect_distinct_snoc group_of_def fold_rows_def)
    qed
  qed (simp add: group_of_def)
  then show ?thesis unfolding merge_groups_def key_def Let_def by (simp add: comp_def)
qed

lemma fold_rows_column:
  "i < length aggs \<Longrightarrow> fold_rows aggs rows ! i = foldl (\<lambda>a row. acc_add (valueAt row (int i)) a) (new_acc (aggs ! i)) rows"
proof (induction rows rule: rev_induct)
  case (snoc r rows)
  then show ?case by (simp add: fold_rows_def add_row_def)
qed (simp add: fold_rows_def)

section \<open>Aggregates of one database\<close>

text \<open>What the query returns on one table, in the text format of the protocol. A cell is the text of a grouping column or the
  integer argument of an aggregate, \<open>None\<close> for \<open>NULL\<close>.\<close>

datatype cell = Key string | Arg "int option"

fun cell_key :: "cell \<Rightarrow> string" where
  "cell_key (Key s) = s"
| "cell_key (Arg _) = []"

fun cell_arg :: "cell \<Rightarrow> int option" where
  "cell_arg (Arg x) = x"
| "cell_arg (Key _) = None"

definition sql_agg :: "AggregateFunc \<Rightarrow> int option list \<Rightarrow> any" where
  "sql_agg fn xs =
     (let ys = List.map_filter (\<lambda>x. x) xs in
      case fn of
        AggCount \<Rightarrow> VStr (Itoa (int (length ys)))
      | AggSum \<Rightarrow> if ys = [] then VNil else VStr (Itoa (sum_list ys))
      | AggMin \<Rightarrow> if ys = [] then VNil else VStr (Itoa (Min (set ys)))
      | AggMax \<Rightarrow> if ys = [] then VNil else VStr (Itoa (Max (set ys)))
      | AggNone \<Rightarrow> VNil)"

definition group_key :: "AggregateFunc list \<Rightarrow> cell list \<Rightarrow> string list" where
  "group_key aggs r = map (\<lambda>i. cell_key (r ! i)) (filter (\<lambda>i. aggs ! i = AggNone) [0..<length aggs])"

definition sql_row :: "AggregateFunc list \<Rightarrow> cell list list \<Rightarrow> Row" where
  "sql_row aggs g =
     \<lparr>row_Shard = [],
      row_Values = map (\<lambda>i. if aggs ! i = AggNone then VStr (cell_key (hd g ! i)) else sql_agg (aggs ! i) (map (\<lambda>r. cell_arg (r ! i)) g))
        [0..<length aggs]\<rparr>"

definition sql_select :: "AggregateFunc list \<Rightarrow> cell list list \<Rightarrow> Row list" where
  "sql_select aggs table =
     (if AggNone \<notin> set aggs then [sql_row aggs table]
      else map (\<lambda>k. sql_row aggs (group_of (group_key aggs) table k)) (collect_distinct {} (map (group_key aggs) table)))"

text \<open>The text of a value on the wire; \<open>None\<close> is the length \<open>-1\<close>.\<close>

fun wire_text :: "any \<Rightarrow> string option" where
  "wire_text VNil = None"
| "wire_text v = Some (fmt_v v)"

section \<open>Recombination of one column\<close>

abbreviation args :: "int option list \<Rightarrow> int list" where
  "args xs \<equiv> List.map_filter (\<lambda>x. x) xs"

lemma args_append: "args (xs @ ys) = args xs @ args ys"
  by (simp add: map_filter_def)

lemma args_concat: "args (concat xss) = concat (map args xss)"
  by (induction xss) (simp_all add: args_append map_filter_def)

definition small :: "int list \<Rightarrow> bool" where
  "small ys \<longleftrightarrow> (\<forall>y\<in>set ys. \<bar>y\<bar> < 2 ^ 53) \<and> sum_list (map abs ys) < 2 ^ 63 \<and> length ys < 2 ^ 63"

lemma small_append: "small (xs @ ys) \<Longrightarrow> small xs \<and> small ys"
proof -
  have "0 \<le> sum_list (map abs zs)" for zs :: "int list" by (induction zs) auto
  from this [of xs] this [of ys] show "small (xs @ ys) \<Longrightarrow> small xs \<and> small ys" unfolding small_def by auto
qed

lemma small_sum:
  assumes "small ys"
  shows "- (2 ^ 63) \<le> sum_list ys \<and> sum_list ys < 2 ^ 63"
proof -
  have "\<bar>sum_list ys\<bar> \<le> sum_list (map abs ys)" by (induction ys) auto
  with assms show ?thesis unfolding small_def by linarith
qed

lemma toInt64_Itoa: "- (2 ^ 63) \<le> i \<Longrightarrow> i < 2 ^ 63 \<Longrightarrow> toInt64 (VStr (Itoa i)) = Some i"
  using Atoi_Itoa [of i] by (simp add: TrimSpace_Itoa)

lemma acc_number_Itoa:
  assumes "\<not> acc_isFloat a" and "- (2 ^ 63) \<le> i" "i < 2 ^ 63" and "- (2 ^ 63) \<le> acc_i a + i" "acc_i a + i < 2 ^ 63"
  shows "acc_number (VStr (Itoa i)) a = a\<lparr>acc_i := acc_i a + i, acc_hasNum := True\<rparr>"
  using assms toInt64_Itoa [of i] wrap64_id [of "acc_i a + i"] by (simp add: acc_number_def del: toInt64.simps)

lemma compare_Itoa:
  assumes "\<bar>a\<bar> < 2 ^ 53" and "\<bar>b\<bar> < 2 ^ 53"
  shows "compareValues (VStr (Itoa a)) (VStr (Itoa b)) = sgn (a - b)"
  using assms by (auto simp: compareValues_def TrimSpace_Itoa ParseFloat_Itoa align_def sgn_if)

definition fold_column :: "AggregateFunc \<Rightarrow> int option list list \<Rightarrow> aggAcc" where
  "fold_column fn xss = foldl (\<lambda>a xs. acc_add (sql_agg fn xs) a) (new_acc fn) xss"

lemma fold_column_snoc: "fold_column fn (xss @ [xs]) = acc_add (sql_agg fn xs) (fold_column fn xss)"
  by (simp add: fold_column_def)

lemma fold_count:
  "small (args (concat xss)) \<Longrightarrow>
   fold_column AggCount xss = (new_acc AggCount)\<lparr>acc_i := int (length (args (concat xss))), acc_hasNum := (xss \<noteq> [])\<rparr>"
proof (induction xss rule: rev_induct)
  case (snoc xs xss)
  then have s: "small (args (concat xss))" "length (args (concat xss)) + length (args xs) < 2 ^ 63"
    using small_append by (auto simp: args_append small_def)
  let ?a = "fold_column AggCount xss"
  have "acc_number (VStr (Itoa (int (length (args xs))))) ?a =
      ?a\<lparr>acc_i := acc_i ?a + int (length (args xs)), acc_hasNum := True\<rparr>"
    using snoc.IH [OF s(1)] s(2) by (intro acc_number_Itoa) (simp_all add: new_acc_def)
  then show ?case using snoc.IH [OF s(1)] by (simp add: fold_column_snoc acc_add_def sql_agg_def args_append new_acc_def)
qed (simp add: fold_column_def new_acc_def map_filter_def)

lemma fold_sum:
  "small (args (concat xss)) \<Longrightarrow>
   fold_column AggSum xss = (new_acc AggSum)\<lparr>acc_i := sum_list (args (concat xss)), acc_hasNum := (args (concat xss) \<noteq> [])\<rparr>"
proof (induction xss rule: rev_induct)
  case (snoc xs xss)
  then have s3: "small (args (concat xss) @ args xs)" by (simp add: args_append)
  then have s: "small (args (concat xss))" "small (args xs)" using small_append [OF s3] by simp_all
  show ?case
  proof (cases "args xs = []")
    case False
    let ?a = "fold_column AggSum xss"
    have i: "acc_i ?a = sum_list (args (concat xss))" "\<not> acc_isFloat ?a" "acc_fn ?a = AggSum"
      using snoc.IH [OF s(1)] by (simp_all add: new_acc_def)
    have b: "- (2 ^ 63) \<le> acc_i ?a + sum_list (args xs)" "acc_i ?a + sum_list (args xs) < 2 ^ 63"
      using small_sum [OF s3] by (simp_all only: i sum_list_append)
    have agg: "sql_agg AggSum xs = VStr (Itoa (sum_list (args xs)))" using False by (simp add: sql_agg_def)
    have "fold_column AggSum (xss @ [xs]) = ?a\<lparr>acc_i := acc_i ?a + sum_list (args xs), acc_hasNum := True\<rparr>"
      unfolding fold_column_snoc agg acc_add_def
      using acc_number_Itoa [OF i(2) _ _ b] small_sum [OF s(2)] i(3) by simp
    also have "\<dots> = (new_acc AggSum)\<lparr>acc_i := sum_list (args (concat xss)) + sum_list (args xs), acc_hasNum := True\<rparr>"
      by (simp only: i(1)) (simp add: snoc.IH [OF s(1)] new_acc_def)
    finally show ?thesis using False by (simp add: args_append)
  next
    case True
    then have "sql_agg AggSum xs = VNil" by (simp add: sql_agg_def)
    with True snoc.IH [OF s(1)] show ?thesis by (simp add: fold_column_snoc acc_add_def args_append)
  qed
qed (simp add: fold_column_def new_acc_def map_filter_def)

lemma fold_extreme:
  assumes "fn = AggMin \<and> ext = Min \<or> fn = AggMax \<and> ext = Max" and "small (args (concat xss))"
  shows "fold_column fn xss =
    (let ys = args (concat xss) in
     if ys = [] then new_acc fn else (new_acc fn)\<lparr>acc_best := VStr (Itoa (ext (set ys))), acc_hasBest := True\<rparr>)"
  using assms(2)
proof (induction xss rule: rev_induct)
  case (snoc xs xss)
  let ?zs = "args (concat xss)" and ?ys = "args xs"
  have "small (?zs @ ?ys)" using snoc.prems by (simp add: args_append)
  from small_append [OF this] have s: "small ?zs" "small ?ys" by simp_all
  have agg: "sql_agg fn xs = (if ?ys = [] then VNil else VStr (Itoa (ext (set ?ys))))"
    using assms(1) by (auto simp: sql_agg_def Let_def)
  have mem: "ext (set us) \<in> set us" if "us \<noteq> []" for us using that assms(1) by auto
  have un: "ext (set ?zs \<union> set ?ys) = (if fn = AggMin then min (ext (set ?zs)) (ext (set ?ys)) else max (ext (set ?zs)) (ext (set ?ys)))"
    if "?zs \<noteq> []" "?ys \<noteq> []" using that assms(1) by (auto simp: Min_Un Max_Un)
  have cmp: "compareValues (VStr (Itoa (ext (set ?ys)))) (VStr (Itoa (ext (set ?zs)))) = sgn (ext (set ?ys) - ext (set ?zs))"
    if "?zs \<noteq> []" "?ys \<noteq> []" using that s mem by (intro compare_Itoa) (auto simp: small_def)
  obtain mz my where m: "ext (set ?zs) = mz" "ext (set ?ys) = my" by blast
  note ih = snoc.IH [OF s(1), unfolded Let_def]
  show ?case
    using ih assms(1) agg un cmp unfolding m
    by (auto simp: fold_column_snoc acc_add_def acc_extreme_def args_append Let_def new_acc_def sgn_if min_def max_def m)
qed (simp add: fold_column_def map_filter_def)

lemma recombine_column:
  assumes "fn \<noteq> AggNone" and "small (args (concat xss))"
  shows "wire_text (acc_result (fold_column fn xss)) = wire_text (sql_agg fn (concat xss))"
proof (cases fn)
  case AggCount
  have "xss = [] \<Longrightarrow> args (concat xss) = []" by (simp add: map_filter_def)
  with AggCount fold_count [OF assms(2)] show ?thesis by (auto simp: acc_result_def sql_agg_def new_acc_def)
next
  case AggMin
  with fold_extreme [of fn Min xss] assms(2) show ?thesis by (simp add: acc_result_def sql_agg_def new_acc_def Let_def)
next
  case AggMax
  with fold_extreme [of fn Max xss] assms(2) show ?thesis by (simp add: acc_result_def sql_agg_def new_acc_def Let_def)
qed (use assms fold_sum [OF assms(2)] in \<open>simp_all add: acc_result_def sql_agg_def new_acc_def Let_def\<close>)

section \<open>Recombination of groups\<close>

definition key_text :: "string list \<Rightarrow> string" where
  "key_text ks = concat (map (\<lambda>s. s @ [CHR 0x1f]) ks)"

lemma key_text_inj:
  assumes "length ks = length ls" "\<forall>s\<in>set ks. CHR 0x1f \<notin> set s" "\<forall>s\<in>set ls. CHR 0x1f \<notin> set s" "key_text ks = key_text ls"
  shows "ks = ls"
  using assms
proof (induction ks ls rule: list_induct2)
  case (Cons k ks l ls)
  then have "k @ CHR 0x1f # key_text ks = l @ CHR 0x1f # key_text ls" by (simp add: key_text_def)
  from split_at_first [OF this] Cons show ?case by simp
qed simp

lemma valueAt_sql_row:
  "i < length aggs \<Longrightarrow> valueAt (sql_row aggs g) (int i) =
    (if aggs ! i = AggNone then VStr (cell_key (hd g ! i)) else sql_agg (aggs ! i) (map (\<lambda>r. cell_arg (r ! i)) g))"
  by (simp add: valueAt_def sql_row_def)

lemma aggGroupKey_sql_row: "aggGroupKey (sql_row aggs g) aggs = key_text (group_key aggs (hd g))"
proof -
  have sel: "concat (map (\<lambda>i. if P i then [] else f i) is) = concat (map f (filter (\<lambda>i. \<not> P i) is))" for P f and "is" :: "nat list"
    by (induction "is") auto
  have "aggGroupKey (sql_row aggs g) aggs =
      concat (map (\<lambda>i. if aggs ! i \<noteq> AggNone then [] else cell_key (hd g ! i) @ [CHR 0x1f]) [0..<length aggs])"
    unfolding aggGroupKey_def by (intro arg_cong [where f = concat] map_cong) (auto simp: valueAt_sql_row)
  then show ?thesis unfolding sel by (simp add: key_text_def group_key_def comp_def)
qed

lemma group_key_column:
  assumes "group_key aggs r = group_key aggs r'" and "i < length aggs" and "aggs ! i = AggNone"
  shows "cell_key (r ! i) = cell_key (r' ! i)"
  using assms by (simp add: group_key_def)

lemma collect_distinct_map: "inj_on f (set xs \<union> S) \<Longrightarrow> collect_distinct (f ` S) (map f xs) = map f (collect_distinct S xs)"
proof (induction xs arbitrary: S)
  case (Cons x xs)
  have "f x \<in> f ` S \<longleftrightarrow> x \<in> S" using Cons.prems by (auto dest: inj_onD)
  moreover have "collect_distinct (insert (f x) (f ` S)) (map f xs) = map f (collect_distinct (insert x S) xs)"
    using Cons.IH [of "insert x S"] Cons.prems by simp
  moreover have "collect_distinct (f ` S) (map f xs) = map f (collect_distinct S xs)"
    using Cons.IH [of S] Cons.prems by (meson Un_mono inj_on_subset order_refl set_subset_Cons)
  ultimately show ?case by simp
qed simp

lemma collect_distinct_append: "collect_distinct S (xs @ ys) = collect_distinct S xs @ collect_distinct (S \<union> set xs) ys"
proof (induction xs arbitrary: S)
  case (Cons x xs)
  then show ?case by (simp add: insert_absorb)
qed simp

lemma collect_distinct_seen: "collect_distinct S (collect_distinct T xs) = collect_distinct (S \<union> T) xs"
  by (induction xs arbitrary: S T) (auto simp: insert_absorb)

lemma collect_distinct_concat: "collect_distinct S (concat (map (collect_distinct {}) xss)) = collect_distinct S (concat xss)"
proof (induction xss arbitrary: S)
  case (Cons xs xss)
  have s: "set (collect_distinct {} xs) = set xs" by (simp add: set_collect_distinct)
  show ?case using Cons.IH [of "S \<union> set xs"] by (simp add: collect_distinct_append collect_distinct_seen s)
qed simp

lemma small_filter: "small (args (map f xs)) \<Longrightarrow> small (args (map f (filter P xs)))"
proof -
  have "set (args (map f (filter P xs))) \<subseteq> set (args (map f xs)) \<and>
      sum_list (map abs (args (map f (filter P xs)))) \<le> sum_list (map abs (args (map f xs))) \<and>
      length (args (map f (filter P xs))) \<le> length (args (map f xs))"
    by (induction xs) (auto simp: map_filter_def)
  then show "small (args (map f xs)) \<Longrightarrow> small (args (map f (filter P xs)))" unfolding small_def by fastforce
qed

text \<open>The merged row of a group against the row of one database: the rows of the group are those of the shards
  that have it.\<close>

lemma merged_row:
  assumes "tables \<noteq> []" and ne: "AggNone \<in> set aggs \<Longrightarrow> \<forall>T\<in>set tables. T \<noteq> []"
    and small: "\<And>i. i < length aggs \<Longrightarrow> small (args (map (\<lambda>r. cell_arg (r ! i)) (concat tables)))"
  shows "map wire_text (row_Values (group_row aggs (hd (map (sql_row aggs) tables)) (fold_rows aggs (map (sql_row aggs) tables)))) =
    map wire_text (row_Values (sql_row aggs (concat tables)))"
proof -
  let ?rows = "map (sql_row aggs) tables"
  have "wire_text (if aggs ! i = AggNone then valueAt (hd ?rows) (int i) else acc_result (fold_rows aggs ?rows ! i)) =
      wire_text (if aggs ! i = AggNone then VStr (cell_key (hd (concat tables) ! i))
                 else sql_agg (aggs ! i) (map (\<lambda>r. cell_arg (r ! i)) (concat tables)))" if i: "i < length aggs" for i
  proof (cases "aggs ! i = AggNone")
    case True
    then have "AggNone \<in> set aggs" using i by (metis nth_mem)
    then obtain T ts where T: "tables = T # ts" "T \<noteq> []" using assms(1) ne by (cases tables) auto
    then show ?thesis using True i by (simp add: valueAt_sql_row)
  next
    case False
    let ?xss = "map (\<lambda>T. map (\<lambda>r. cell_arg (r ! i)) T) tables"
    have "fold_rows aggs ?rows ! i = fold_column (aggs ! i) ?xss"
      using i False by (simp add: fold_rows_column fold_column_def foldl_map valueAt_sql_row)
    moreover have "concat ?xss = map (\<lambda>r. cell_arg (r ! i)) (concat tables)" by (simp add: map_concat)
    ultimately show ?thesis using False recombine_column [OF False, of ?xss] small [OF i] by simp
  qed
  then show ?thesis by (simp add: group_row_def sql_row_def)
qed

lemma filter_distinct_single: "distinct xs \<Longrightarrow> filter (\<lambda>x. x = k) xs = (if k \<in> set xs then [k] else [])"
  by (induction xs) auto

lemma shard_rows_of_key:
  assumes "inj_on key_text (insert k (set (map (group_key aggs) T)))"
  shows "filter (\<lambda>r. aggGroupKey r aggs = key_text k)
      (map (\<lambda>k. sql_row aggs (group_of (group_key aggs) T k)) (collect_distinct {} (map (group_key aggs) T))) =
    (if k \<in> set (map (group_key aggs) T) then [sql_row aggs (group_of (group_key aggs) T k)] else [])"
proof -
  let ?ks = "collect_distinct {} (map (group_key aggs) T)"
  have set: "set ?ks = set (map (group_key aggs) T)" by (simp add: set_collect_distinct)
  have hd: "group_key aggs (hd (group_of (group_key aggs) T k')) = k'" if "k' \<in> set ?ks" for k'
  proof -
    have "group_of (group_key aggs) T k' \<noteq> []" using that by (auto simp: set group_of_def filter_empty_conv)
    then have "hd (group_of (group_key aggs) T k') \<in> set (group_of (group_key aggs) T k')" by (rule hd_in_set)
    then show ?thesis by (simp add: group_of_def)
  qed
  have "(aggGroupKey (sql_row aggs (group_of (group_key aggs) T k')) aggs = key_text k) = (k' = k)" if "k' \<in> set ?ks" for k'
    using hd [OF that] that inj_on_eq_iff [OF assms, of k' k] unfolding aggGroupKey_sql_row set by simp
  then have "filter (\<lambda>r. aggGroupKey r aggs = key_text k) (map (\<lambda>k. sql_row aggs (group_of (group_key aggs) T k)) ?ks) =
      map (\<lambda>k. sql_row aggs (group_of (group_key aggs) T k)) (filter (\<lambda>k'. k' = k) ?ks)"
    by (simp add: filter_map comp_def cong: filter_cong)
  then show ?thesis by (simp add: filter_distinct_single distinct_collect_distinct set del: set_map)
qed

lemma group_of_concat:
  "concat (map (\<lambda>T. group_of key T k) (filter (\<lambda>T. k \<in> key ` set T) tables)) = group_of key (concat tables) k"
proof (induction tables)
  case (Cons T tables)
  have "k \<notin> key ` set T \<Longrightarrow> group_of key T k = []" by (auto simp: group_of_def filter_empty_conv)
  with Cons show ?case by (simp add: group_of_def)
qed (simp add: group_of_def)

text \<open>
  C19: Recombined aggregates equal the aggregates of one database. Let every shard return the result of a query with columns
  of \<open>COUNT\<close>, \<open>SUM\<close>, \<open>MIN\<close>, \<open>MAX\<close> and grouping columns on its part of a table. Merging the partial results
  gives, in the text sent to the client, exactly the result of the query on the whole table, with the groups in the order of their
  first appearance, provided the grouping texts contain no unit separator, the arguments have at most 53 bits and their sums fit in \<open>int64\<close>.
\<close>
theorem aggregates_recombined:
  assumes "aggs \<noteq> []" and "tables \<noteq> []"
    and keys: "\<forall>r\<in>set (concat tables). \<forall>s\<in>set (group_key aggs r). CHR 0x1f \<notin> set s"
    and small: "\<And>i. i < length aggs \<Longrightarrow> small (List.map_filter (\<lambda>x. x) (map (\<lambda>r. cell_arg (r ! i)) (concat tables)))"
  shows "map (\<lambda>r. map wire_text (row_Values r)) (MergeAggregatePartials (concat (map (sql_select aggs) tables)) aggs) =
    map (\<lambda>r. map wire_text (row_Values r)) (sql_select aggs (concat tables))"
proof -
  define flat where "flat = concat (map (sql_select aggs) tables)"
  define key where "key = (\<lambda>r. aggGroupKey r aggs)"
  let ?gk = "group_key aggs"
  have m: "MergeAggregatePartials flat aggs =
      map (\<lambda>k. group_row aggs (hd (group_of key flat k)) (fold_rows aggs (group_of key flat k))) (collect_distinct {} (map key flat))"
    using assms(1) by (simp add: MergeAggregatePartials_def mergeAggregate_def mergeConcat_def merge_groups_eq key_def Let_def)
  show ?thesis
  proof (cases "AggNone \<in> set aggs")
    case False
    have gk: "?gk r = []" for r using False by (auto simp: group_key_def filter_empty_conv) (metis nth_mem)
    have "sql_select aggs = (\<lambda>T. [sql_row aggs T])" using False by (intro ext) (simp add: sql_select_def)
    then have flat: "flat = map (sql_row aggs) tables" by (simp add: flat_def)
    have k: "map key flat = replicate (length tables) []"
      by (simp add: flat key_def aggGroupKey_sql_row gk key_text_def map_replicate_const comp_def)
    then have "collect_distinct {} (map key flat) = [[]]" using assms(2) by (cases tables) (simp_all, induct_tac list, simp_all)
    moreover have "group_of key flat [] = flat" using k by (auto simp: group_of_def filter_id_conv key_def flat aggGroupKey_sql_row gk key_text_def)
    moreover have "sql_select aggs (concat tables) = [sql_row aggs (concat tables)]" using False by (simp add: sql_select_def)
    ultimately show ?thesis using merged_row [OF assms(2), of aggs] False small unfolding flat_def [symmetric] m by (simp add: flat)
  next
    case True
    have "key_text k = key_text l \<Longrightarrow> k = l" if "k \<in> ?gk ` set (concat tables)" "l \<in> ?gk ` set (concat tables)" for k l
      using that keys by (intro key_text_inj) (auto simp: group_key_def)
    then have inj: "inj_on key_text (?gk ` set (concat tables))" by (rule inj_onI)
    have flat: "flat = concat (map (\<lambda>T. map (\<lambda>k. sql_row aggs (group_of ?gk T k)) (collect_distinct {} (map ?gk T))) tables)"
      unfolding flat_def by (intro arg_cong [where f = concat] map_cong) (use True in \<open>auto simp: sql_select_def\<close>)
    have hd: "?gk (hd (group_of ?gk T k)) = k" if "k \<in> ?gk ` set T" for T k
    proof -
      have "group_of ?gk T k \<noteq> []" using that by (auto simp: group_of_def filter_empty_conv)
      then have "hd (group_of ?gk T k) \<in> set (group_of ?gk T k)" by (rule hd_in_set)
      then show ?thesis by (simp add: group_of_def)
    qed
    have "map key flat = map key_text (concat (map (collect_distinct {}) (map (map ?gk) tables)))"
      by (auto simp: flat map_concat comp_def key_def aggGroupKey_sql_row hd set_collect_distinct
          intro!: arg_cong [where f = concat] map_cong)
    then have ks: "collect_distinct {} (map key flat) = map key_text (collect_distinct {} (map ?gk (concat tables)))"
      using collect_distinct_map [of key_text "concat (map (collect_distinct {}) (map (map ?gk) tables))" "{}"] inj
        collect_distinct_concat [of "{}" "map (map ?gk) tables"]
      by (simp add: map_concat set_collect_distinct image_Union image_UN)
    have row: "map wire_text (row_Values (group_row aggs (hd (group_of key flat (key_text k))) (fold_rows aggs (group_of key flat (key_text k))))) =
        map wire_text (row_Values (sql_row aggs (group_of ?gk (concat tables) k)))"
      if k: "k \<in> ?gk ` set (concat tables)" for k
    proof -
      let ?ts = "map (\<lambda>T. group_of ?gk T k) (filter (\<lambda>T. k \<in> ?gk ` set T) tables)"
      have "filter (\<lambda>r. aggGroupKey r aggs = key_text k) (map (\<lambda>k. sql_row aggs (group_of ?gk T k)) (collect_distinct {} (map ?gk T))) =
          (if k \<in> ?gk ` set T then [sql_row aggs (group_of ?gk T k)] else [])" if "T \<in> set tables" for T
      proof -
        have "insert k (set (map ?gk T)) \<subseteq> ?gk ` set (concat tables)" using that k by auto
        from shard_rows_of_key [OF inj_on_subset [OF inj this]] show ?thesis by (simp only: set_map)
      qed
      then have "group_of key flat (key_text k) = concat (map (\<lambda>T. if k \<in> ?gk ` set T then [sql_row aggs (group_of ?gk T k)] else []) tables)"
        unfolding flat key_def group_of_def [of "\<lambda>r. aggGroupKey r aggs"] filter_concat map_map comp_def
        by (intro arg_cong [where f = concat] map_cong refl)
      also have "\<dots> = map (sql_row aggs) ?ts" by (induction tables) auto
      finally have G: "group_of key flat (key_text k) = map (sql_row aggs) ?ts" .
      have c: "concat ?ts = group_of ?gk (concat tables) k" by (rule group_of_concat)
      have ne: "?ts \<noteq> []" "\<forall>T\<in>set ?ts. T \<noteq> []" using k by (auto simp: filter_empty_conv group_of_def)
      have "small (args (map (\<lambda>r. cell_arg (r ! i)) (concat ?ts)))" if "i < length aggs" for i
        unfolding c using small_filter [OF small [OF that], of "\<lambda>r. ?gk r = k"] by (simp only: group_of_def)
      from merged_row [OF ne(1) _ this, of aggs] ne(2) show ?thesis unfolding G c by simp
    qed
    have "map (\<lambda>r. map wire_text (row_Values r)) (sql_select aggs (concat tables)) =
        map (\<lambda>k. map wire_text (row_Values (sql_row aggs (group_of ?gk (concat tables) k)))) (collect_distinct {} (map ?gk (concat tables)))"
      using True by (simp add: sql_select_def comp_def)
    with row show ?thesis unfolding flat_def [symmetric] m ks by (simp add: comp_def set_collect_distinct)
  qed
qed

theorem aggregates_recombined_witness:
  "map (\<lambda>r. map wire_text (row_Values r))
     (MergeAggregatePartials (concat (map (sql_select [AggNone, AggCount, AggSum, AggMax])
       [[[Key ''a'', Arg (Some 1), Arg (Some 5), Arg (Some 5)], [Key ''b'', Arg (Some 1), Arg None, Arg None]],
        [[Key ''a'', Arg (Some 1), Arg (Some (- 7)), Arg (Some (- 7))]]])) [AggNone, AggCount, AggSum, AggMax]) =
   [[Some ''a'', Some ''2'', Some ''-2'', Some ''5''], [Some ''b'', Some ''1'', None, None]]"
proof -
  let ?aggs = "[AggNone, AggCount, AggSum, AggMax]"
  let ?ts = "[[[Key ''a'', Arg (Some 1), Arg (Some 5), Arg (Some 5)], [Key ''b'', Arg (Some 1), Arg None, Arg None]],
        [[Key ''a'', Arg (Some 1), Arg (Some (- 7)), Arg (Some (- 7))]]]"
  have k: "\<forall>r\<in>set (concat ?ts). \<forall>s\<in>set (group_key ?aggs r). CHR 0x1f \<notin> set s" by code_simp
  have "\<forall>i\<in>set [0..<length ?aggs]. small (List.map_filter (\<lambda>x. x) (map (\<lambda>r. cell_arg (r ! i)) (concat ?ts)))"
    by code_simp
  then have s: "small (List.map_filter (\<lambda>x. x) (map (\<lambda>r. cell_arg (r ! i)) (concat ?ts)))" if "i < length ?aggs" for i
    using that by (metis atLeast0LessThan atLeastLessThan_upt lessThan_iff)
  have "map (\<lambda>r. map wire_text (row_Values r)) (sql_select ?aggs (concat ?ts)) =
      [[Some ''a'', Some ''2'', Some ''-2'', Some ''5''], [Some ''b'', Some ''1'', None, None]]" by code_simp
  moreover have "?aggs \<noteq> []" "?ts \<noteq> []" by simp_all
  ultimately show ?thesis using aggregates_recombined [of ?aggs ?ts, OF _ _ k s] by (simp only: simp_thms)
qed

section \<open>Limits of the recombination\<close>


text \<open>The comparison is no order on texts of which only some read as numbers.\<close>

lemma compareValues_cyclic:
  "compareValues (VStr ''10'') (VStr ''1a'') < 0 \<and> compareValues (VStr ''1a'') (VStr ''9'') < 0 \<and> compareValues (VStr ''9'') (VStr ''10'') < 0"
  by code_simp

end
