(* ===== verification/Pgwire.thy ===== *)
theory Pgwire
  imports Scatter
begin

text \<open>
  The wire protocol of the router process: framing of messages (\<open>pgwire.go\<close>, \<open>main.go\<close>), rows, and the merge
  of scattered results (\<open>scattermode.go\<close>). A connection is read as the bytes that arrive before it ends; bytes are
  characters. A reader returns the bytes that are left.
\<close>

section \<open>Integers in network order\<close>

definition be16 :: "nat \<Rightarrow> string" where
  "be16 n = map char_of [n div 256, n]"

definition be32 :: "nat \<Rightarrow> string" where
  "be32 n = map char_of [n div 2 ^ 24, n div 2 ^ 16, n div 256, n]"

text \<open>The value of the bytes of a prefix; too short a string is padded as the reader never sees it.\<close>

definition from_be :: "nat \<Rightarrow> string \<Rightarrow> nat" where
  "from_be k s = foldl (\<lambda>a c. a * 256 + of_char c) 0 (take k s)"

text \<open>\<open>int32\<close> of an unsigned value.\<close>

definition as_int32 :: "nat \<Rightarrow> int" where
  "as_int32 n = wrap32 (int n)"

section \<open>Messages\<close>

record pgMessage =
  pm_Type :: char
  pm_Payload :: string

datatype wire_error = ErrShort | ErrLength nat

definition readMessage :: "string \<Rightarrow> (wire_error, pgMessage \<times> string) result" where
  "readMessage s =
     (if length s < 5 then Inl ErrShort
      else
        let len = from_be 4 (drop 1 s) in
        if len < 4 \<or> 2 ^ 24 < len then Inl (ErrLength len)
        else if length (drop 5 s) < len - 4 then Inl ErrShort
        else Inr (\<lparr>pm_Type = hd s, pm_Payload = take (len - 4) (drop 5 s)\<rparr>, drop (len - 4) (drop 5 s)))"

definition writeMessage :: "char \<Rightarrow> string \<Rightarrow> string" where
  "writeMessage typ payload = typ # be32 (4 + length payload) @ payload"

text \<open>\<open>bytes.IndexByte(p, 0)\<close>.\<close>

fun index_nul :: "string \<Rightarrow> nat option" where
  "index_nul [] = None"
| "index_nul (c # s) = (if c = CHR 0x00 then Some 0 else map_option Suc (index_nul s))"

definition cstring :: "string \<Rightarrow> string" where
  "cstring s = s @ [CHR 0x00]"

definition querySQL :: "pgMessage \<Rightarrow> string option" where
  "querySQL m =
     (if pm_Type m \<noteq> CHR ''Q'' then None
      else let p = pm_Payload m in Some (if p \<noteq> [] \<and> last p = CHR 0x00 then butlast p else p))"

definition parseSQL :: "pgMessage \<Rightarrow> string option" where
  "parseSQL m =
     (if pm_Type m \<noteq> CHR ''P'' then None
      else case index_nul (pm_Payload m) of
        None \<Rightarrow> None
      | Some i \<Rightarrow>
          (let rest = drop (i + 1) (pm_Payload m) in
           case index_nul rest of None \<Rightarrow> None | Some j \<Rightarrow> Some (take j rest)))"

definition parseStmtName :: "pgMessage \<Rightarrow> string" where
  "parseStmtName m = (case index_nul (pm_Payload m) of None \<Rightarrow> [] | Some i \<Rightarrow> take i (pm_Payload m))"

definition bindStmtName :: "pgMessage \<Rightarrow> string" where
  "bindStmtName m =
     (case index_nul (pm_Payload m) of
        None \<Rightarrow> []
      | Some i \<Rightarrow>
          (let rest = drop (i + 1) (pm_Payload m) in
           case index_nul rest of None \<Rightarrow> [] | Some j \<Rightarrow> take j rest))"

definition skipCString :: "string \<Rightarrow> nat \<Rightarrow> nat option" where
  "skipCString p pos = (if length p < pos then None else map_option (\<lambda>rel. pos + rel + 1) (index_nul (drop pos p)))"

text \<open>The loop over length-prefixed values, shared by bound parameters and the columns of a row; \<open>None\<close> is \<open>NULL\<close>.\<close>

fun read_values :: "nat \<Rightarrow> string \<Rightarrow> string option list option" where
  "read_values 0 p = Some []"
| "read_values (Suc n) p =
     (if length p < 4 then None
      else
        let l = as_int32 (from_be 4 p); rest = drop 4 p in
        if l < 0 then map_option ((#) None) (read_values n rest)
        else if int (length rest) < l then None
        else map_option ((#) (Some (take (nat l) rest))) (read_values n (drop (nat l) rest)))"

definition bindParams :: "pgMessage \<Rightarrow> string option list option" where
  "bindParams m =
     (if pm_Type m \<noteq> CHR ''B'' then None
      else
        let p = pm_Payload m in
        case skipCString p 0 of
          None \<Rightarrow> None
        | Some pos1 \<Rightarrow>
            (case skipCString p pos1 of
               None \<Rightarrow> None
             | Some pos \<Rightarrow>
                 if length p < pos + 2 then None
                 else
                   let pos = pos + 2 + from_be 2 (drop pos p) * 2 in
                   if length p < pos + 2 then None
                   else read_values (from_be 2 (drop pos p)) (drop (pos + 2) p)))"

definition pg_error :: "string \<Rightarrow> string \<Rightarrow> pgMessage" where
  "pg_error code msg =
     \<lparr>pm_Type = CHR ''E'',
      pm_Payload = ''S'' @ cstring ''ERROR'' @ ''V'' @ cstring ''ERROR'' @ ''C'' @ cstring code @ ''M'' @ cstring msg @ [CHR 0x00]\<rparr>"

definition sendTrustHandshake :: "string \<Rightarrow> pgMessage list" where
  "sendTrustHandshake serverVersion =
     \<lparr>pm_Type = CHR ''R'', pm_Payload = be32 0\<rparr> #
     map (\<lambda>(k, v). \<lparr>pm_Type = CHR ''S'', pm_Payload = cstring k @ cstring v\<rparr>)
       [(''server_version'', serverVersion), (''client_encoding'', ''UTF8''), (''DateStyle'', ''ISO, MDY'')] @
     [\<lparr>pm_Type = CHR ''K'', pm_Payload = be32 1 @ be32 1\<rparr>, \<lparr>pm_Type = CHR ''Z'', pm_Payload = ''I''\<rparr>]"

section \<open>The startup message\<close>

text \<open>Pairs of key and value, up to an empty key; later pairs override earlier ones.\<close>

fun startup_params :: "string list \<Rightarrow> (string \<rightharpoonup> string) \<Rightarrow> (string \<rightharpoonup> string)" where
  "startup_params (k # v # parts) m = (if k = [] then m else startup_params parts (m(k \<mapsto> v)))"
| "startup_params _ m = m"

text \<open>Requests for encryption are declined with \<open>N\<close>; the number of them is part of the result. Writing to the client succeeds.\<close>

function readStartup :: "string \<Rightarrow> (wire_error, string \<times> (string \<rightharpoonup> string) \<times> nat \<times> string) result" where
  "readStartup s =
     (if length s < 4 then Inl ErrShort
      else
        let len = from_be 4 s in
        if len < 8 \<or> 2 ^ 20 < len then Inl (ErrLength len)
        else if length (drop 4 s) < len - 4 then Inl ErrShort
        else
          let body = take (len - 4) (drop 4 s); rest = drop (len - 4) (drop 4 s) in
          if from_be 4 body = 80877103 \<or> from_be 4 body = 80877104
          then map_sum (\<lambda>e. e) (\<lambda>(raw, ps, n, r). (raw, ps, Suc n, r)) (readStartup rest)
          else Inr (take 4 s @ body, startup_params (str_Split CHR 0x00 (drop 4 body)) Map.empty, 0, rest))"
  by pat_completeness auto
termination
  by (relation "measure length") auto

declare readStartup.simps [simp del]

section \<open>Rows\<close>

definition decodeDataRow :: "string \<Rightarrow> any list option" where
  "decodeDataRow p =
     (if length p < 2 then None
      else map_option (map (\<lambda>v. case v of None \<Rightarrow> VNil | Some s \<Rightarrow> VStr s)) (read_values (from_be 2 p) (drop 2 p)))"

definition encodeDataRow :: "any list \<Rightarrow> string" where
  "encodeDataRow vals =
     be16 (length vals) @
     concat (map (\<lambda>v. if v = VNil then be32 (2 ^ 32 - 1) else be32 (length (fmt_v v)) @ fmt_v v) vals)"

text \<open>The names of a row description: each is followed by a terminator and 18 bytes.\<close>

fun field_names :: "nat \<Rightarrow> string \<Rightarrow> string list" where
  "field_names 0 p = []"
| "field_names (Suc n) p =
     (case index_nul p of
        None \<Rightarrow> []
      | Some i \<Rightarrow> take i p # (if length p < i + 19 then [] else field_names n (drop (i + 19) p)))"

definition rowDescNames :: "pgMessage option \<Rightarrow> string list" where
  "rowDescNames rd =
     (case rd of
        None \<Rightarrow> []
      | Some m \<Rightarrow> if length (pm_Payload m) < 2 then [] else field_names (from_be 2 (pm_Payload m)) (drop 2 (pm_Payload m)))"

section \<open>Merging scattered results\<close>

definition queryOf :: "pgMessage \<Rightarrow> string" where
  "queryOf m =
     TrimRight (\<lambda>c. c \<in> {CHR '';'', CHR '' '', CHR 0x09, CHR 0x0D, CHR 0x0A}) (TrimSpace (TrimRight (\<lambda>c. c = CHR 0x00) (pm_Payload m)))"

text \<open>\<open>strings.Fields\<close>.\<close>

fun split_fields :: "string \<Rightarrow> string \<Rightarrow> string list" where
  "split_fields cur [] = (if cur = [] then [] else [cur])"
| "split_fields cur (c # s) =
     (if is_space c then (if cur = [] then split_fields [] s else cur # split_fields [] s) else split_fields (cur @ [c]) s)"

definition TrimSuffix :: "string \<Rightarrow> string \<Rightarrow> string" where
  "TrimSuffix s t = (if HasPrefix (rev s) (rev t) then take (length s - length t) s else s)"

text \<open>The words after the last \<open>order by\<close>.\<close>

fun after_order_by :: "string list \<Rightarrow> string list option" where
  "after_order_by (u # v # ws) =
     (case after_order_by (v # ws) of
        Some rest \<Rightarrow> Some rest
      | None \<Rightarrow> if u = ''order'' \<and> v = ''by'' then Some ws else None)"
| "after_order_by _ = None"

fun name_index :: "string \<Rightarrow> string list \<Rightarrow> nat option" where
  "name_index t [] = None"
| "name_index t (n # ns) = (if EqualFold n t then Some 0 else map_option Suc (name_index t ns))"

definition orderByCol :: "string \<Rightarrow> pgMessage option \<Rightarrow> (int \<times> bool) option" where
  "orderByCol query rowDesc =
     (let f = split_fields [] (ToLower (TrimRight (\<lambda>c. c \<in> {CHR '';'', CHR '' '', CHR 0x09, CHR 0x0A}) (TrimSpace query))) in
      case after_order_by f of
        None \<Rightarrow> None
      | Some [] \<Rightarrow> None
      | Some (w # ws) \<Rightarrow>
          (let target = TrimSuffix w '','' in
           if str_Contains target '','' \<or> str_Contains target ''('' then None
           else if ws \<noteq> [] \<and> hd ws \<noteq> ''desc'' \<and> hd ws \<noteq> ''asc'' \<and> \<not> HasPrefix (hd ws) ''limit'' then None
           else
             let desc = (ws \<noteq> [] \<and> hd ws = ''desc'') in
             case Atoi target of
               Some n \<Rightarrow> if n < 1 then None else Some (n - 1, desc)
             | None \<Rightarrow> map_option (\<lambda>i. (int i, desc)) (name_index target (rowDescNames rowDesc))))"

fun decode_rows :: "pgMessage list \<Rightarrow> Row list option" where
  "decode_rows [] = Some []"
| "decode_rows (m # ms) =
     (case decodeDataRow (pm_Payload m) of
        None \<Rightarrow> None
      | Some vals \<Rightarrow> map_option ((#) \<lparr>row_Shard = [], row_Values = vals\<rparr>) (decode_rows ms))"

definition data_row :: "Row \<Rightarrow> pgMessage" where
  "data_row r = \<lparr>pm_Type = CHR ''D'', pm_Payload = encodeDataRow (row_Values r)\<rparr>"

definition mergeScatterRows :: "string \<Rightarrow> pgMessage option \<Rightarrow> pgMessage list \<Rightarrow> pgMessage list" where
  "mergeScatterRows query rowDesc dataRows =
     (if dataRows = [] then dataRows
      else case (DetectAggregates query, orderByCol query rowDesc) of
        (None, None) \<Rightarrow> dataRows
      | (aggs, ordered) \<Rightarrow>
          (case decode_rows dataRows of
             None \<Rightarrow> dataRows
           | Some rows \<Rightarrow>
               map data_row
                 (case aggs of
                    Some fs \<Rightarrow> MergeAggregatePartials rows fs
                  | None \<Rightarrow> (case ordered of Some (col, desc) \<Rightarrow> SortRowsByCol rows col desc | None \<Rightarrow> rows))))"

lemma readMessage_shorter: "readMessage s = Inr (m, rest) \<Longrightarrow> length rest < length s"
  by (auto simp: readMessage_def Let_def split: if_splits)

text \<open>The answer of one backend up to \<open>ReadyForQuery\<close>: description, rows and error.\<close>

function read_result ::
  "pgMessage option \<Rightarrow> pgMessage list \<Rightarrow> pgMessage option \<Rightarrow> string \<Rightarrow>
   (wire_error, pgMessage option \<times> pgMessage list \<times> pgMessage option \<times> string) result" where
  "read_result rd rows err s =
     (case readMessage s of
        Inl e \<Rightarrow> Inl e
      | Inr (m, rest) \<Rightarrow>
          if pm_Type m = CHR ''T'' then read_result (case rd of None \<Rightarrow> Some m | Some _ \<Rightarrow> rd) rows err rest
          else if pm_Type m = CHR ''D'' then read_result rd (rows @ [m]) err rest
          else if pm_Type m = CHR ''E'' then read_result rd rows (Some m) rest
          else if pm_Type m = CHR ''Z'' then Inr (rd, rows, err, rest)
          else read_result rd rows err rest)"
  by pat_completeness auto

termination
  by (relation "measure (\<lambda>(rd, rows, err, s). length s)") (auto dest: readMessage_shorter)

declare read_result.simps [simp del]

definition readQueryResult ::
  "string \<Rightarrow> (wire_error, pgMessage option \<times> pgMessage list \<times> pgMessage option \<times> string) result" where
  "readQueryResult s = read_result None [] None s"

text \<open>What one shard contributed: a transport error, or description, rows and the error of the backend.\<close>

datatype shardResult = ShardErr string | ShardRows "pgMessage option" "pgMessage list" "pgMessage option"

definition scatterClientError :: "string \<Rightarrow> string \<Rightarrow> pgMessage list" where
  "scatterClientError code msg = [pg_error code msg, \<lparr>pm_Type = CHR ''Z'', pm_Payload = ''I''\<rparr>]"

text \<open>The results in the order of the shards: an answer for the client, or the description and all rows.\<close>

fun collect_results ::
  "(string \<times> shardResult) list \<Rightarrow> pgMessage option \<Rightarrow> pgMessage list \<Rightarrow> pgMessage list + pgMessage option \<times> pgMessage list" where
  "collect_results [] rowDesc dataRows = Inr (rowDesc, dataRows)"
| "collect_results ((shard, ShardErr e) # rs) rowDesc dataRows =
     Inl (scatterClientError ''08006'' (''scatter: shard '' @ shard @ '': '' @ e))"
| "collect_results ((shard, ShardRows rd rows (Some em)) # rs) rowDesc dataRows =
     Inl [\<lparr>pm_Type = CHR ''E'', pm_Payload = pm_Payload em\<rparr>, \<lparr>pm_Type = CHR ''Z'', pm_Payload = ''I''\<rparr>]"
| "collect_results ((shard, ShardRows rd rows None) # rs) rowDesc dataRows =
     collect_results rs (case rowDesc of None \<Rightarrow> rd | Some _ \<Rightarrow> rowDesc) (dataRows @ rows)"

text \<open>The messages sent to the client; a failed write ends them early. \<open>shards\<close> are the shards of the topology with
  what each returned, \<open>None\<close> when the list is not available.\<close>

definition scatterQuery :: "(string \<times> shardResult) list option \<Rightarrow> pgMessage \<Rightarrow> pgMessage list" where
  "scatterQuery shards query =
     (case shards of
        None \<Rightarrow> scatterClientError ''08006'' ''scatter: no shards available''
      | Some [] \<Rightarrow> scatterClientError ''08006'' ''scatter: no shards available''
      | Some rs \<Rightarrow>
          (case collect_results rs None [] of
             Inl answer \<Rightarrow> answer
           | Inr (rowDesc, dataRows) \<Rightarrow>
               (let merged = mergeScatterRows (queryOf query) rowDesc dataRows in
                (case rowDesc of None \<Rightarrow> [] | Some rd \<Rightarrow> [\<lparr>pm_Type = CHR ''T'', pm_Payload = pm_Payload rd\<rparr>]) @
                map (\<lambda>dr. \<lparr>pm_Type = CHR ''D'', pm_Payload = pm_Payload dr\<rparr>) merged @
                [\<lparr>pm_Type = CHR ''C'', pm_Payload = cstring (''SELECT '' @ Itoa (int (length merged)))\<rparr>,
                 \<lparr>pm_Type = CHR ''Z'', pm_Payload = ''I''\<rparr>])))"

section \<open>Round trips\<close>

lemma length_be [simp]: "length (be16 n) = 2" "length (be32 n) = 4"
  by (simp_all add: be16_def be32_def)

lemma from_be16: "n < 2 ^ 16 \<Longrightarrow> from_be 2 (be16 n @ s) = n"
  by (simp add: from_be_def be16_def)

lemma from_be32:
  assumes "n < 2 ^ 32"
  shows "from_be 4 (be32 n @ s) = n"
proof -
  have "n div 2 ^ 16 div 256 = n div 2 ^ 24" "n div 256 div 256 = n div 2 ^ 16" by (simp_all add: div_mult2_eq [symmetric])
  then have "((n div 2 ^ 24 * 256 + n div 2 ^ 16 mod 256) * 256 + n div 256 mod 256) * 256 + n mod 256 = n"
    by (metis div_mult_mod_eq)
  then show ?thesis using assms by (simp add: from_be_def be32_def)
qed

lemma readMessage_writeMessage:
  assumes "length p + 4 \<le> 2 ^ 24"
  shows "readMessage (writeMessage t p @ rest) = Inr (\<lparr>pm_Type = t, pm_Payload = p\<rparr>, rest)"
proof -
  have "from_be 4 (be32 (4 + length p) @ p @ rest) = 4 + length p" using assms by (intro from_be32) simp
  then show ?thesis using assms by (simp add: readMessage_def writeMessage_def Let_def)
qed

lemma decode_value:
  assumes "length v < 2 ^ 31"
  shows "read_values (Suc n) (be32 (length v) @ v @ rest) = map_option ((#) (Some v)) (read_values n rest)"
proof -
  have "from_be 4 (be32 (length v) @ v @ rest) = length v" using assms by (intro from_be32) simp
  moreover have "as_int32 (length v) = int (length v)" using assms by (simp add: as_int32_def wrap32_def)
  ultimately show ?thesis by simp
qed

lemma decode_null: "read_values (Suc n) (be32 (2 ^ 32 - 1) @ rest) = map_option ((#) None) (read_values n rest)"
proof -
  have "from_be 4 (be32 (2 ^ 32 - 1) @ rest) = 2 ^ 32 - 1" by (rule from_be32) simp
  moreover have "as_int32 (2 ^ 32 - 1) < 0" by (simp add: as_int32_def wrap32_def)
  ultimately show ?thesis by simp
qed

text \<open>Values as they occur in the text format: \<open>NULL\<close> or a text.\<close>

definition text_value :: "any \<Rightarrow> bool" where
  "text_value v \<longleftrightarrow> (case v of VNil \<Rightarrow> True | VStr t \<Rightarrow> length t < 2 ^ 31 | _ \<Rightarrow> False)"

lemma read_values_encoded:
  assumes "list_all text_value vals"
  shows "read_values (length vals)
      (concat (map (\<lambda>v. if v = VNil then be32 (2 ^ 32 - 1) else be32 (length (fmt_v v)) @ fmt_v v) vals) @ rest) =
    Some (map (\<lambda>v. case v of VStr t \<Rightarrow> Some t | _ \<Rightarrow> None) vals)"
  using assms
proof (induction vals)
  case (Cons v vals)
  then consider "v = VNil" | t where "v = VStr t" "length t < 2 ^ 31" by (auto simp: text_value_def split: any.splits)
  then show ?case
  proof cases
    case 1
    with Cons decode_null [of "length vals"] show ?thesis by (simp del: read_values.simps)
  next
    case (2 t)
    with Cons decode_value [of t "length vals"] show ?thesis by (simp del: read_values.simps)
  qed
qed simp

text \<open>Rows survive encoding and decoding.\<close>

lemma decodeDataRow_encodeDataRow:
  assumes "list_all text_value vals" and "length vals < 2 ^ 16"
  shows "decodeDataRow (encodeDataRow vals) = Some vals"
proof -
  have "map (\<lambda>v. case case v of VStr t \<Rightarrow> Some t | _ \<Rightarrow> None of None \<Rightarrow> VNil | Some s \<Rightarrow> VStr s) vals = vals"
    using assms(1) by (intro map_idI) (auto simp: list_all_iff text_value_def split: any.splits)
  then show ?thesis
    using read_values_encoded [OF assms(1), of "[]"] from_be16 [OF assms(2)]
    by (simp add: decodeDataRow_def encodeDataRow_def comp_def)
qed

text \<open>With aggregates the order that the query asks for is lost: groups stay in the order of their first appearance.\<close>

lemma aggregates_not_ordered:
  "map (decodeDataRow \<circ> pm_Payload)
     (mergeScatterRows ''select city, count(*) from t group by city order by 1''
        None (map (\<lambda>vals. data_row \<lparr>row_Shard = [], row_Values = vals\<rparr>) [[VStr ''b'', VStr ''1''], [VStr ''a'', VStr ''2'']])) =
   [Some [VStr ''b'', VStr ''1''], Some [VStr ''a'', VStr ''2'']] \<and>
   orderByCol ''select city, count(*) from t group by city order by 1'' None = Some (0, False)"
  by code_simp

end
