(* ===== verification/Sql_Route.thy ===== *)
theory Sql_Route
  imports Tokenizer
begin

text \<open>
  The regular-expression strategy for routing keys: \<open>internal/router/sql_route.go\<close>, and the choice
  of a strategy: \<open>internal/router/route_extractor.go\<close>.

  The first part models what the file uses of Go's \<open>regexp\<close> package: leftmost-first matching. A
  pattern denotes, for a position in the text, the list of its matches in the order of preference
  (greedy repetitions longest first, lazy ones shortest first, alternatives from left to right); the
  result of a search is the first match at the leftmost position that has one. Repetition is needed
  for classes of single bytes only. The second part gives the patterns of the source, one constant
  each, and the functions that use them.
\<close>

named_theorems sql_route \<open>definitions of the regular-expression strategy\<close>

section \<open>Regular expressions\<close>

datatype rx =
    REps
  | RSet "char \<Rightarrow> bool"
  | RStar "char \<Rightarrow> bool"
  | RLazy "char \<Rightarrow> bool"
  | RSeq rx rx
  | RAlt rx rx
  | RGroup nat rx
  | RBegin
  | REnd
  | RWordB

text \<open>A position: the byte before it (\<open>None\<close> at the start of the text) and the text after it. A match
  ends in a position and has captured some groups.\<close>

type_synonym rx_pos = "char option \<times> string"
type_synonym rx_result = "rx_pos \<times> (nat \<times> string) list"

definition rx_wordchar :: "char option \<Rightarrow> bool" where
  "rx_wordchar c = (case c of None \<Rightarrow> False | Some x \<Rightarrow> is_letter x \<or> is_digit x \<or> x = CHR ''_'')"

text \<open>The positions after 0, 1, 2, ... bytes of a class, as long as they last.\<close>

fun star_ends :: "(char \<Rightarrow> bool) \<Rightarrow> char option \<Rightarrow> string \<Rightarrow> rx_pos list" where
  "star_ends P p [] = [(p, [])]"
| "star_ends P p (c # s) = (p, c # s) # (if P c then star_ends P (Some c) s else [])"

fun rx_run :: "rx \<Rightarrow> rx_pos \<Rightarrow> rx_result list" where
  "rx_run REps x = [(x, [])]"
| "rx_run (RSet P) (p, s) = (case s of [] \<Rightarrow> [] | c # t \<Rightarrow> if P c then [((Some c, t), [])] else [])"
| "rx_run (RStar P) (p, s) = map (\<lambda>y. (y, [])) (rev (star_ends P p s))"
| "rx_run (RLazy P) (p, s) = map (\<lambda>y. (y, [])) (star_ends P p s)"
| "rx_run (RSeq a b) x = concat (map (\<lambda>(y, cs). map (\<lambda>(z, ds). (z, cs @ ds)) (rx_run b y)) (rx_run a x))"
| "rx_run (RAlt a b) x = rx_run a x @ rx_run b x"
| "rx_run (RGroup n a) x = map (\<lambda>(y, cs). (y, (n, take (length (snd x) - length (snd y)) (snd x)) # cs)) (rx_run a x)"
| "rx_run RBegin (p, s) = (if p = None then [((p, s), [])] else [])"
| "rx_run REnd (p, s) = (if s = [] then [((p, s), [])] else [])"
| "rx_run RWordB (p, s) =
     (if rx_wordchar p \<noteq> rx_wordchar (case s of [] \<Rightarrow> None | c # _ \<Rightarrow> Some c) then [((p, s), [])] else [])"

text \<open>\<open>FindStringSubmatch\<close>: \<open>None\<close> when there is no match; a group that took no part is empty.\<close>

fun rx_find :: "rx \<Rightarrow> char option \<Rightarrow> string \<Rightarrow> rx_result option" where
  "rx_find r p s =
     (case rx_run r (p, s) of
        m # _ \<Rightarrow> Some m
      | [] \<Rightarrow> (case s of [] \<Rightarrow> None | c # t \<Rightarrow> rx_find r (Some c) t))"

declare rx_find.simps [simp del]

definition submatch :: "(nat \<times> string) list \<Rightarrow> nat \<Rightarrow> string" where
  "submatch groups n = (case map_of groups n of Some s \<Rightarrow> s | None \<Rightarrow> [])"

definition FindStringSubmatch :: "rx \<Rightarrow> string \<Rightarrow> (nat \<Rightarrow> string) option" where
  "FindStringSubmatch r s = map_option (\<lambda>(_, groups). submatch groups) (rx_find r None s)"

definition MatchString :: "rx \<Rightarrow> string \<Rightarrow> bool" where
  "MatchString r s \<longleftrightarrow> rx_find r None s \<noteq> None"

text \<open>\<open>FindAllStringSubmatch(s, -1)\<close> for a pattern without empty matches.\<close>

function rx_find_all :: "rx \<Rightarrow> char option \<Rightarrow> string \<Rightarrow> (nat \<Rightarrow> string) list" where
  "rx_find_all r p s =
     (case rx_find r p s of
        None \<Rightarrow> []
      | Some ((q, u), groups) \<Rightarrow>
          if length u < length s then submatch groups # rx_find_all r q u else [submatch groups])"
  by pat_completeness auto
termination by (relation "measure (\<lambda>(r, p, s). length s)") auto

declare rx_find_all.simps [simp del]

text \<open>Notation of the patterns: a sequence, one byte, a text regardless of case (given in lower case),
  white space \<open>\s\<close>, \<open>P+\<close> and \<open>r?\<close>.\<close>

fun rx_seq :: "rx list \<Rightarrow> rx" where
  "rx_seq [] = REps"
| "rx_seq (r # rs) = RSeq r (rx_seq rs)"

definition rx_byte :: "char \<Rightarrow> rx" where
  "rx_byte c = RSet (\<lambda>x. x = c)"

definition rx_fold :: "string \<Rightarrow> rx" where
  "rx_fold w = rx_seq (map (\<lambda>c. RSet (\<lambda>x. lower_byte x = c)) w)"

definition rx_space :: "char \<Rightarrow> bool" where
  "rx_space c \<longleftrightarrow> c = CHR 0x09 \<or> c = CHR 0x0A \<or> c = CHR 0x0C \<or> c = CHR 0x0D \<or> c = CHR '' ''"

definition rx_plus :: "(char \<Rightarrow> bool) \<Rightarrow> rx" where
  "rx_plus P = RSeq (RSet P) (RStar P)"

definition rx_opt :: "rx \<Rightarrow> rx" where
  "rx_opt r = RAlt r REps"

section \<open>Patterns\<close>

abbreviation quote_byte :: char where "quote_byte \<equiv> CHR 0x27"

definition legacyRouteKeyPattern :: rx where
  "legacyRouteKeyPattern = rx_seq [
     RAlt (rx_seq [rx_fold ''values'', RStar rx_space, rx_byte CHR ''('', RStar rx_space])
          (rx_seq [rx_fold ''where'', rx_plus rx_space, RSet (\<lambda>c. isIdentStart c),
                   RStar (\<lambda>c. isIdentStart c \<or> is_digit c), RStar rx_space, rx_byte CHR ''='', RStar rx_space]),
     rx_byte quote_byte, RGroup 1 (RStar (\<lambda>c. c \<noteq> quote_byte)), rx_byte quote_byte]"

definition rx_number :: rx where
  "rx_number = rx_seq [rx_opt (rx_byte CHR ''-''), rx_plus is_digit, rx_opt (RSeq (rx_byte CHR ''.'') (rx_plus is_digit))]"

definition columnEqualsPattern :: "string \<Rightarrow> rx" where
  "columnEqualsPattern col = rx_seq [
     RWordB, rx_fold (ToLower col), RStar rx_space, rx_byte CHR ''='', RStar rx_space,
     RAlt (rx_seq [rx_byte quote_byte, RGroup 1 (RStar (\<lambda>c. c \<noteq> quote_byte)), rx_byte quote_byte])
          (RGroup 2 rx_number)]"

text \<open>The common front of the two \<open>INSERT\<close> patterns: \<open>INSERT INTO t (columns) VALUES\<close> and blanks.\<close>

definition insert_front :: "rx list" where
  "insert_front = [
     rx_fold ''insert'', rx_plus rx_space, rx_fold ''into'', rx_plus rx_space,
     rx_plus (\<lambda>c. \<not> rx_space c \<and> c \<noteq> CHR ''(''), RStar rx_space,
     rx_byte CHR ''('', RGroup 1 (RStar (\<lambda>c. c \<noteq> CHR '')'')), rx_byte CHR '')'', RStar rx_space,
     rx_fold ''values'', RStar rx_space]"

definition insertPattern :: rx where
  "insertPattern = rx_seq (insert_front @
     [rx_byte CHR ''('', RGroup 2 (RStar (\<lambda>c. c \<noteq> CHR '')'')), rx_byte CHR '')''])"

definition rows_end :: rx where
  "rows_end =
     RAlt (rx_seq [rx_plus rx_space, rx_fold ''on'', rx_plus rx_space, rx_fold ''conflict''])
    (RAlt (rx_seq [rx_plus rx_space, rx_fold ''returning''])
    (RAlt (rx_byte CHR '';'')
          (rx_seq [RStar rx_space, REnd])))"

definition insertMultiRowPattern :: rx where
  "insertMultiRowPattern = rx_seq (insert_front @
     [RGroup 2 (RSeq (RSet (\<lambda>_. True)) (RLazy (\<lambda>_. True))), rows_end])"

definition numericLiteral :: rx where
  "numericLiteral = rx_seq [RBegin, rx_number, REnd]"

definition tuplePattern :: rx where
  "tuplePattern = rx_seq [rx_byte CHR ''('', RGroup 1 (RStar (\<lambda>c. c \<noteq> CHR '')'')), rx_byte CHR '')'']"

section \<open>Extraction\<close>

definition splitCSV :: "string \<Rightarrow> string list" where
  "splitCSV s = map TrimSpace (str_Split CHR '','' s)"

definition matchColumnEquals :: "string \<Rightarrow> string \<Rightarrow> string option" where
  "matchColumnEquals query col =
     (case FindStringSubmatch (columnEqualsPattern col) query of
        None \<Rightarrow> None
      | Some m \<Rightarrow> if m 1 \<noteq> [] then Some (m 1) else if m 2 \<noteq> [] then Some (m 2) else None)"

text \<open>A value as a routing key: a non-empty quoted text without its quotes, or a numeric literal. The
  source writes this out in both of its \<open>INSERT\<close> functions.\<close>

definition literal_key :: "string \<Rightarrow> string option" where
  "literal_key v0 =
     (let v = TrimSpace v0 in
      if 2 \<le> length v \<and> hd v = quote_byte \<and> last v = quote_byte then
        (let inner = take (length v - 2) (drop 1 v) in if inner = [] then None else Some inner)
      else if MatchString numericLiteral v then Some v
      else None)"

fun insert_column_loop :: "string \<Rightarrow> string list \<Rightarrow> string list \<Rightarrow> string option" where
  "insert_column_loop col (c # cs) (v # vs) =
     (if EqualFold c col then literal_key v else insert_column_loop col cs vs)"
| "insert_column_loop col _ _ = None"

definition matchInsertColumn :: "string \<Rightarrow> string \<Rightarrow> string option" where
  "matchInsertColumn query col =
     (case FindStringSubmatch insertPattern query of
        None \<Rightarrow> None
      | Some m \<Rightarrow>
          let cols = splitCSV (m 1); vals = splitCSV (m 2) in
          if length cols \<noteq> length vals then None else insert_column_loop col cols vals)"

fun column_index :: "string \<Rightarrow> string list \<Rightarrow> nat option" where
  "column_index col [] = None"
| "column_index col (c # cs) = (if EqualFold c col then Some 0 else map_option Suc (column_index col cs))"

fun tuple_keys :: "nat \<Rightarrow> string list \<Rightarrow> string list option" where
  "tuple_keys idx [] = Some []"
| "tuple_keys idx (t # ts) =
     (let vals = splitCSV t in
      if length vals \<le> idx then None
      else case literal_key (vals ! idx) of
             None \<Rightarrow> None
           | Some k \<Rightarrow> (case tuple_keys idx ts of None \<Rightarrow> None | Some ks \<Rightarrow> Some (k # ks)))"

definition matchInsertColumnAll :: "string \<Rightarrow> string \<Rightarrow> string list option" where
  "matchInsertColumnAll query col =
     (case FindStringSubmatch insertMultiRowPattern query of
        None \<Rightarrow> None
      | Some m \<Rightarrow>
          (case column_index col (splitCSV (m 1)) of
             None \<Rightarrow> None
           | Some idx \<Rightarrow>
               let tuples = map (\<lambda>t. t 1) (rx_find_all tuplePattern None (m 2)) in
               if tuples = [] then None else tuple_keys idx tuples))"

definition regexExtractor :: "string \<Rightarrow> string \<Rightarrow> string option" where
  "regexExtractor query col =
     (if col = [] then
        (case FindStringSubmatch legacyRouteKeyPattern query of
           None \<Rightarrow> None
         | Some m \<Rightarrow> if m 1 = [] then None else Some (m 1))
      else case matchColumnEquals query col of
             Some k \<Rightarrow> Some k
           | None \<Rightarrow> matchInsertColumn query col)"

definition ExtractRoutingKey :: "string \<Rightarrow> string option" where
  "ExtractRoutingKey query = regexExtractor query []"

section \<open>Strategies\<close>

datatype RouteKeyExtractor = regexStrategy | parserStrategy | autoStrategy RouteKeyExtractor RouteKeyExtractor

text \<open>The method \<open>ExtractRoutingKey\<close> of each strategy.\<close>

fun extract_key :: "RouteKeyExtractor \<Rightarrow> string \<Rightarrow> string \<Rightarrow> string option" where
  "extract_key regexStrategy query col = regexExtractor query col"
| "extract_key parserStrategy query col = parserExtractor query col"
| "extract_key (autoStrategy primary fallback) query col =
     (case extract_key primary query col of Some k \<Rightarrow> Some k | None \<Rightarrow> extract_key fallback query col)"

definition DefaultExtractorName :: string where
  "DefaultExtractorName = ''regex''"

definition NewRouteKeyExtractor :: "string \<Rightarrow> RouteKeyExtractor option" where
  "NewRouteKeyExtractor name0 =
     (let name = (if name0 = [] then DefaultExtractorName else name0) in
      if name = ''regex'' then Some regexStrategy
      else if name = ''parser'' then Some parserStrategy
      else if name = ''auto'' then Some (autoStrategy parserStrategy regexStrategy)
      else None)"

lemmas [sql_route] = rx_wordchar_def submatch_def FindStringSubmatch_def MatchString_def rx_byte_def rx_fold_def
  rx_space_def rx_plus_def rx_opt_def legacyRouteKeyPattern_def rx_number_def columnEqualsPattern_def
  insert_front_def insertPattern_def rows_end_def insertMultiRowPattern_def numericLiteral_def tuplePattern_def
  splitCSV_def matchColumnEquals_def literal_key_def matchInsertColumn_def matchInsertColumnAll_def
  regexExtractor_def NewRouteKeyExtractor_def DefaultExtractorName_def rx_find.simps rx_find_all.simps

section \<open>Specification\<close>

text \<open>An insert of several rows as a client writes it. The values that the expressions are made for
  have no blank, comma, semicolon, parenthesis or quote in them.\<close>

definition row_sql :: "string list \<Rightarrow> string" where
  "row_sql vals = ''('' @ str_Join '', '' (map sql_literal vals) @ '')''"

definition insert_rows_sql :: "string \<Rightarrow> string list \<Rightarrow> string list list \<Rightarrow> string" where
  "insert_rows_sql t cols rows =
     ''INSERT INTO '' @ t @ '' ('' @ str_Join '', '' cols @ '') VALUES '' @ str_Join '', '' (map row_sql rows)"

definition plain_value :: "string \<Rightarrow> bool" where
  "plain_value v \<longleftrightarrow> list_all (\<lambda>c. \<not> is_space c \<and> c \<notin> {CHR '','', CHR '';'', CHR '')'', quote_byte}) v"

text \<open>The contract of a strategy: a key it returns is not empty.\<close>

locale route_key_extractor =
  fixes extr :: "string \<Rightarrow> string \<Rightarrow> string option"
  assumes extr_nonempty: "extr query col = Some k \<Longrightarrow> k \<noteq> []"

text \<open>Two strategies in a row, as \<open>autoExtractor\<close> composes them, keep the contract.\<close>

locale extractor_pair = prim: route_key_extractor primary + fall: route_key_extractor fallback
  for primary :: "string \<Rightarrow> string \<Rightarrow> string option" and fallback :: "string \<Rightarrow> string \<Rightarrow> string option"
begin

lemma composed_nonempty:
  "(case primary query col of Some k \<Rightarrow> Some k | None \<Rightarrow> fallback query col) = Some k \<Longrightarrow> k \<noteq> []"
  using prim.extr_nonempty fall.extr_nonempty by (auto split: option.splits)

end

section \<open>Lemmas\<close>

subsection \<open>Stepping through a pattern\<close>

lemma run_seq_eps [simp]: "rx_run (RSeq REps b) x = rx_run b x"
  by simp

lemma run_seq_eps_right: "rx_run (RSeq a REps) x = rx_run a x"
proof -
  have "concat (map (\<lambda>(y, cs). [(y, cs)]) ms) = ms" for ms :: "rx_result list" by (induction ms) auto
  then show ?thesis by simp
qed

lemma run_seq_assoc: "rx_run (RSeq (RSeq a b) c) x = rx_run (RSeq a (RSeq b c)) x"
proof -
  have "concat (map (\<lambda>(y, cs). map (\<lambda>(z, ds). (z, cs @ ds)) (rx_run c y))
          (concat (map (\<lambda>(y, cs). map (\<lambda>(z, ds). (z, cs @ ds)) (rx_run b y)) ms))) =
        concat (map (\<lambda>(y, cs). map (\<lambda>(z, ds). (z, cs @ ds)) (rx_run (RSeq b c) y)) ms)" for ms
    by (induction ms) (auto simp: map_concat comp_def case_prod_beta)
  then show ?thesis by simp
qed

lemma run_seq_set_Nil: "rx_run (RSeq (RSet P) b) (p, []) = []"
  by simp

lemma run_seq_set_Cons: "rx_run (RSeq (RSet P) b) (p, c # s) = (if P c then rx_run b (Some c, s) else [])"
  by (simp add: case_prod_beta)

lemma run_seq_star_Nil: "rx_run (RSeq (RStar P) b) (p, []) = rx_run b (p, [])"
  by (simp add: case_prod_beta)

lemma run_seq_star_Cons:
  "rx_run (RSeq (RStar P) b) (p, c # s) = (if P c then rx_run (RSeq (RStar P) b) (Some c, s) else []) @ rx_run b (p, c # s)"
  by (simp add: case_prod_beta)

lemma run_seq_alt: "rx_run (RSeq (RAlt a b) c) x = rx_run (RSeq a c) x @ rx_run (RSeq b c) x"
  by simp

declare rx_run.simps(5) [simp del]

lemmas rx_steps = run_seq_assoc run_seq_set_Nil run_seq_set_Cons run_seq_star_Nil run_seq_star_Cons run_seq_alt
  run_seq_eps_right

text \<open>A repetition over a class whose continuation fails at each of its inner positions.\<close>

definition end_pos :: "char option \<Rightarrow> string \<Rightarrow> char option" where
  "end_pos p w = (if w = [] then p else Some (last w))"

lemma end_pos_Cons [simp]: "end_pos p (c # w) = end_pos (Some c) w"
  by (simp add: end_pos_def)

lemma run_star_word:
  assumes "list_all P w" and "s = [] \<or> \<not> P (hd s)" and "\<And>q c v. c \<in> set w \<Longrightarrow> rx_run b (q, c # v) = []"
  shows "rx_run (RSeq (RStar P) b) (p, w @ s) = rx_run b (end_pos p w, s)"
  using assms
proof (induction w arbitrary: p)
  case Nil
  then show ?case by (cases s) (simp_all add: run_seq_star_Nil run_seq_star_Cons end_pos_def)
next
  case (Cons c w)
  then show ?case by (simp add: run_seq_star_Cons)
qed

lemma star_ends_word:
  assumes "list_all P w" and "s = [] \<or> \<not> P (hd s)" and "\<And>q c v. c \<in> set w \<Longrightarrow> f (q, c # v) = []"
  shows "concat (map f (rev (star_ends P p (w @ s)))) = f (end_pos p w, s)"
  using assms
proof (induction w arbitrary: p)
  case Nil
  then show ?case by (cases s) (simp_all add: end_pos_def)
qed simp

lemma run_group_word:
  assumes "list_all P w" and "s = [] \<or> \<not> P (hd s)" and "\<And>q c v. c \<in> set w \<Longrightarrow> rx_run b (q, c # v) = []"
  shows "rx_run (RSeq (RGroup n (RStar P)) b) (p, w @ s) =
    map (\<lambda>(z, ds). (z, (n, w) # ds)) (rx_run b (end_pos p w, s))"
proof -
  let ?f = "\<lambda>y. map (\<lambda>(z, ds). (z, (n, take (length (w @ s) - length (snd y)) (w @ s)) # ds)) (rx_run b y)"
  have "rx_run (RSeq (RGroup n (RStar P)) b) (p, w @ s) = concat (map ?f (rev (star_ends P p (w @ s))))"
    by (simp add: rx_run.simps(5) comp_def rev_map case_prod_beta)
  also have "\<dots> = ?f (end_pos p w, s)"
    by (rule star_ends_word [OF assms(1,2)]) (simp add: assms(3))
  finally show ?thesis by simp
qed

text \<open>A lazy group that must run to the end of the text because its continuation fails before.\<close>

lemma star_ends_to_end:
  assumes "\<And>q u c v. s = u @ c # v \<Longrightarrow> f (q, c # v) = []"
  shows "concat (map f (star_ends (\<lambda>_. True) p s)) = f (end_pos p s, [])"
  using assms
proof (induction s arbitrary: p)
  case (Cons c s)
  have "f (p, c # s) = []" using Cons.prems [of "[]" c s] by simp
  moreover have "f (q, d # v) = []" if "s = u @ d # v" for q u d v
    using Cons.prems [of "c # u" d v] that by simp
  ultimately show ?case using Cons.IH by simp
qed (simp add: end_pos_def)

lemma run_lazy_group:
  assumes "\<And>q u c v. s = u @ c # v \<Longrightarrow> rx_run b (q, c # v) = []"
  shows "rx_run (RSeq (RGroup n (RSeq (RSet (\<lambda>_. True)) (RLazy (\<lambda>_. True)))) b) (p, a # s) =
    map (\<lambda>(z, ds). (z, (n, a # s) # ds)) (rx_run b (end_pos (Some a) s, []))"
proof -
  let ?f = "\<lambda>y. map (\<lambda>(z, ds). (z, (n, take (Suc (length s) - length (snd y)) (a # s)) # ds)) (rx_run b y)"
  have "rx_run (RSeq (RGroup n (RSeq (RSet (\<lambda>_. True)) (RLazy (\<lambda>_. True)))) b) (p, a # s) =
      concat (map ?f (star_ends (\<lambda>_. True) (Some a) s))"
    by (simp add: rx_run.simps(5) comp_def case_prod_beta)
  also have "\<dots> = ?f (end_pos (Some a) s, [])"
    by (rule star_ends_to_end) (simp add: assms)
  finally show ?thesis by simp
qed

subsection \<open>The end of the rows\<close>

text \<open>A text in which nothing looks like the end of the rows: no semicolon, and a blank is followed by
  an opening parenthesis or a quote.\<close>

fun calm :: "string \<Rightarrow> bool" where
  "calm [] = True"
| "calm [c] = (c \<noteq> CHR '';'' \<and> \<not> rx_space c)"
| "calm (c # d # s) = (c \<noteq> CHR '';'' \<and> (rx_space c \<longrightarrow> d = CHR ''('' \<or> d = quote_byte) \<and> calm (d # s))"

lemma calm_append: "calm u \<Longrightarrow> calm v \<Longrightarrow> calm (u @ v)"
proof (induction u rule: calm.induct)
  case (2 c)
  then show ?case by (cases v) auto
qed auto

lemma calm_suffix: "calm (u @ v) \<Longrightarrow> calm v"
proof (induction u)
  case (Cons c u)
  then show ?case by (cases "u @ v") auto
qed simp

lemma calm_separated:
  "calm u \<Longrightarrow> calm (d # v) \<Longrightarrow> d = CHR ''('' \<or> d = quote_byte \<Longrightarrow> calm (u @ CHR '','' # CHR '' '' # d # v)"
  by (rule calm_append) (auto simp: rx_space_def)

lemma calm_plain: "list_all (\<lambda>c. \<not> rx_space c \<and> c \<noteq> CHR '';'') w \<Longrightarrow> calm w"
  by (induction w rule: calm.induct) auto

lemma rows_end_calm:
  assumes "calm (c # v)" shows "rx_run rows_end (q, c # v) = []"
proof -
  have folds: "rx_run (RSeq (rx_fold (a # w)) b) (r, d # u) = []"
    if "d = CHR ''('' \<or> d = quote_byte" "CHR ''a'' \<le> a" for a w b r d u
    using that by (auto simp: rx_fold_def rx_steps lower_byte_def)
  show ?thesis
  proof (cases "rx_space c")
    case False
    with assms show ?thesis
      by (cases v) (simp_all add: rows_end_def rx_plus_def rx_byte_def rx_steps)
  next
    case True
    with assms obtain d u where v: "v = d # u" and d: "d = CHR ''('' \<or> d = quote_byte" by (cases v) auto
    have "\<not> rx_space d" using d by (auto simp: rx_space_def)
    with True v d assms show ?thesis
      by (simp add: rows_end_def rx_plus_def rx_byte_def rx_steps folds folds [where b = REps, unfolded run_seq_eps_right])
  qed
qed

lemma rows_end_Nil: "rx_run rows_end (q, []) = [((q, []), [])]"
  by (simp add: rows_end_def rx_plus_def rx_byte_def rx_steps)

subsection \<open>Comma-separated lists\<close>

definition csv_word :: "string \<Rightarrow> bool" where
  "csv_word w \<longleftrightarrow> w \<noteq> [] \<and> \<not> is_space (hd w) \<and> \<not> is_space (last w) \<and> CHR '','' \<notin> set w"

lemma TrimSpace_word: "csv_word w \<Longrightarrow> TrimSpace w = w \<and> TrimSpace (CHR '' '' # w) = w"
proof -
  assume "csv_word w"
  then obtain c s where w: "w = c # s" "\<not> is_space c" "\<not> is_space (last w)" by (cases w) (auto simp: csv_word_def)
  have "rev w = last w # rev (butlast w)" using w(1) by (metis append_butlast_last_id list.distinct(1) rev_eq_Cons_iff rev_rev_ident)
  then have "dropWhile is_space (rev w) = rev w" using w(3) by (metis dropWhile.simps(2))
  then show ?thesis using w(1,2) by (simp add: TrimSpace_def trim_with_def is_space_def [of "CHR '' ''"])
qed

lemma str_Split_append: "CHR '','' \<notin> set w \<Longrightarrow> str_Split CHR '','' (w @ CHR '','' # r) = w # str_Split CHR '','' r"
  by (induction w) auto

lemma str_Split_last: "CHR '','' \<notin> set w \<Longrightarrow> str_Split CHR '','' w = [w]"
  by (induction w) auto

lemma splitCSV_Join_blank:
  "list_all (\<lambda>c. c = CHR '' '') x \<Longrightarrow> length x \<le> 1 \<Longrightarrow> ws \<noteq> [] \<Longrightarrow> list_all csv_word ws \<Longrightarrow>
     splitCSV (x @ str_Join '', '' ws) = ws"
proof (induction ws arbitrary: x rule: induct_list012)
  case (2 w)
  then show ?case using TrimSpace_word [of w] by (cases x) (auto simp: splitCSV_def str_Split_last csv_word_def)
next
  case (3 w v ws)
  have IH: "splitCSV ('' '' @ str_Join '', '' (v # ws)) = v # ws" by (rule 3) (use 3 in auto)
  have "CHR '','' \<notin> set (x @ w)" using 3 by (auto simp: csv_word_def list_all_iff)
  from str_Split_append [OF this, of "'' '' @ str_Join '', '' (v # ws)"]
  have "splitCSV (x @ str_Join '', '' (w # v # ws)) = TrimSpace (x @ w) # splitCSV ('' '' @ str_Join '', '' (v # ws))"
    by (simp add: splitCSV_def)
  moreover have "TrimSpace (x @ w) = w" using 3 TrimSpace_word [of w] by (cases x) auto
  ultimately show ?case using IH by simp
qed simp

lemmas splitCSV_Join = splitCSV_Join_blank [of "[]", simplified]

lemma sql_literal_plain: "plain_value v \<Longrightarrow> sql_literal v = quote_byte # v @ [quote_byte]"
proof -
  have "concat (map (\<lambda>c. if c = quote_byte then [quote_byte, quote_byte] else [c]) v) = v" if "quote_byte \<notin> set v"
    using that by (induction v) auto
  then show "plain_value v \<Longrightarrow> sql_literal v = quote_byte # v @ [quote_byte]"
    by (auto simp: sql_quote_def plain_value_def list_all_iff)
qed

lemma csv_word_literal: "plain_value v \<Longrightarrow> csv_word (sql_literal v)"
  by (auto simp: sql_literal_plain csv_word_def plain_value_def list_all_iff is_space_def)

lemma literal_key_literal: "plain_value v \<Longrightarrow> v \<noteq> [] \<Longrightarrow> literal_key (sql_literal v) = Some v"
  using TrimSpace_word [OF csv_word_literal, of v] by (simp add: literal_key_def sql_literal_plain)

lemma csv_word_ident: "sql_ident w \<Longrightarrow> csv_word w"
proof -
  assume "sql_ident w"
  then have "w \<noteq> []" "list_all isIdentPart w" by (cases w; simp add: sql_ident_def isIdentPart_def)+
  moreover have "\<not> is_space c \<and> c \<noteq> CHR '',''" if "isIdentPart c" for c
    using that by (auto simp: isIdentPart_def isIdentStart_def is_letter_def is_digit_def is_space_def)
  ultimately show ?thesis by (auto simp: csv_word_def list_all_iff)
qed

lemma column_index_nth:
  "distinct (map ToLower cols) \<Longrightarrow> i < length cols \<Longrightarrow> column_index (cols ! i) cols = Some i"
proof (induction cols arbitrary: i)
  case (Cons c cs)
  show ?case
  proof (cases i)
    case (Suc j)
    with Cons.prems have "ToLower c \<noteq> ToLower (cs ! j)" by (auto simp: nth_mem)
    with Cons Suc show ?thesis by (simp add: EqualFold_def)
  qed simp
qed simp

subsection \<open>Inserts of several rows\<close>

lemma ident_bytes:
  "isIdentPart c \<Longrightarrow> \<not> rx_space c \<and> c \<noteq> CHR ''('' \<and> c \<noteq> CHR '')''"
  by (auto simp: isIdentPart_def isIdentStart_def is_letter_def is_digit_def rx_space_def)

lemma ident_all: "sql_ident w \<Longrightarrow> list_all isIdentPart w \<and> w \<noteq> []"
  by (cases w) (auto simp: sql_ident_def isIdentPart_def)

lemma join_idents:
  "list_all sql_ident cols \<Longrightarrow> list_all (\<lambda>c. c \<noteq> CHR '')'') (str_Join '', '' cols)"
proof (induction cols rule: induct_list012)
  case (2 w)
  then show ?case using ident_all ident_bytes by (fastforce simp: list_all_iff)
next
  case (3 w v ws)
  then have "list_all (\<lambda>c. c \<noteq> CHR '')'') w" using ident_all [of w] ident_bytes by (fastforce simp: list_all_iff)
  with 3 show ?case by simp
qed simp

lemma fold_step: "rx_run (RSeq (rx_fold (a # w)) b) (p, c # s) = (if lower_byte c = a then rx_run (RSeq (rx_fold w) b) (Some c, s) else [])"
  by (simp add: rx_fold_def run_seq_assoc run_seq_set_Cons)

lemma fold_Nil: "rx_run (RSeq (rx_fold []) b) x = rx_run b x"
  by (simp add: rx_fold_def)

lemma run_star_space: "\<not> rx_space d \<Longrightarrow> (\<And>q v. rx_run b (q, CHR '' '' # v) = []) \<Longrightarrow>
    rx_run (RSeq (RStar rx_space) b) (p, CHR '' '' # d # s) = rx_run b (Some CHR '' '', d # s)"
  using run_star_word [of rx_space "'' ''" "d # s" b p] by (simp add: rx_space_def end_pos_def)

lemma run_plus_word:
  assumes "list_all P w" and "w \<noteq> []" and "s = [] \<or> \<not> P (hd s)" and "\<And>q c v. c \<in> set w \<Longrightarrow> rx_run b (q, c # v) = []"
  shows "rx_run (RSeq (rx_plus P) b) (p, w @ s) = rx_run b (Some (last w), s)"
proof -
  obtain a u where w: "w = a # u" using assms(2) by (cases w) auto
  have "rx_run (RSeq (RStar P) b) (Some a, u @ s) = rx_run b (end_pos (Some a) u, s)"
    by (rule run_star_word) (use assms w in auto)
  with w assms(1) show ?thesis by (simp add: rx_plus_def run_seq_assoc run_seq_set_Cons end_pos_def)
qed

lemma lower_bytes:
  "lower_byte CHR ''I'' = CHR ''i''" "lower_byte CHR ''N'' = CHR ''n''" "lower_byte CHR ''S'' = CHR ''s''"
  "lower_byte CHR ''E'' = CHR ''e''" "lower_byte CHR ''R'' = CHR ''r''" "lower_byte CHR ''T'' = CHR ''t''"
  "lower_byte CHR ''O'' = CHR ''o''" "lower_byte CHR ''V'' = CHR ''v''" "lower_byte CHR ''A'' = CHR ''a''"
  "lower_byte CHR ''L'' = CHR ''l''" "lower_byte CHR ''U'' = CHR ''u''" "lower_byte CHR '' '' = CHR '' ''"
  by code_simp+

text \<open>The front of both patterns on the front of a rendered statement: the first match consumes the
  blank after \<open>VALUES\<close>, a second one leaves it to the rest of the pattern.\<close>

lemma insert_front_run:
  assumes "sql_ident t" and "list_all sql_ident cols" and "\<not> rx_space d"
  shows "\<exists>more. rx_run (rx_seq (insert_front @ rest))
      (p, ''INSERT INTO '' @ t @ '' ('' @ str_Join '', '' cols @ '') VALUES '' @ d # s) =
    map (\<lambda>(z, ds). (z, (1, str_Join '', '' cols) # ds)) (rx_run (rx_seq rest) (Some CHR '' '', d # s)) @ more"
proof -
  let ?C = "str_Join '', '' cols"
  let ?v = "RSeq (rx_fold ''values'') (RSeq (RStar rx_space) (rx_seq rest))"
  let ?g = "RSeq (RGroup 1 (RStar (\<lambda>c. c \<noteq> CHR '')''))) (RSeq (rx_byte CHR '')'') (RSeq (RStar rx_space) ?v))"
  let ?c = "RSeq (rx_byte CHR ''('') ?g"
  let ?t = "RSeq (rx_plus (\<lambda>c. \<not> rx_space c \<and> c \<noteq> CHR ''('')) (RSeq (RStar rx_space) ?c)"
  let ?i = "RSeq (rx_fold ''into'') (RSeq (rx_plus rx_space) ?t)"
  have sp: "rx_space CHR '' ''" "\<not> rx_space CHR ''V''" "\<not> rx_space CHR ''(''" "\<not> rx_space CHR ''I''"
    by (simp_all add: rx_space_def)
  have v: "rx_run ?v (q, ''VALUES '' @ d # s) = rx_run (rx_seq rest) (Some CHR '' '', d # s) @ rx_run (rx_seq rest) (Some CHR ''S'', CHR '' '' # d # s)" for q
    using assms(3) by (simp add: fold_step fold_Nil lower_bytes run_seq_star_Cons sp)
  have v_fail: "rx_run ?v (q, CHR '' '' # u) = []" for q u by (simp add: fold_step lower_bytes)
  have g: "rx_run ?g (q, ?C @ '') VALUES '' @ d # s) = map (\<lambda>(z, ds). (z, (1, ?C) # ds)) (rx_run ?v (Some CHR '' '', ''VALUES '' @ d # s))" for q
    using run_group_word [of "\<lambda>c. c \<noteq> CHR '')''" ?C "'') VALUES '' @ d # s" "RSeq (rx_byte CHR '')'') (RSeq (RStar rx_space) ?v)" 1 q]
      join_idents [OF assms(2)] run_star_space [OF sp(2) v_fail]
    by (auto simp: rx_byte_def run_seq_set_Cons list_all_iff)
  have c_fail: "rx_run (RSeq (RStar rx_space) ?c) (q, x # u) = []" if "isIdentPart x" for q x u
    using ident_bytes [OF that] by (simp add: run_seq_star_Cons rx_byte_def run_seq_set_Cons)
  have "rx_run ?t (q, t @ '' ('' @ ?C @ '') VALUES '' @ d # s) =
      rx_run (RSeq (RStar rx_space) ?c) (Some (last t), '' ('' @ ?C @ '') VALUES '' @ d # s)" for q
    by (rule run_plus_word)
       (use ident_all [OF assms(1)] ident_bytes c_fail sp in \<open>auto simp: list_all_iff\<close>)
  also have "rx_run (RSeq (RStar rx_space) ?c) (q, '' ('' @ ?C @ '') VALUES '' @ d # s) = rx_run ?g (Some CHR ''('', ?C @ '') VALUES '' @ d # s)" for q
    using run_star_space [OF sp(3), of ?c q "?C @ '') VALUES '' @ d # s"] by (simp add: rx_byte_def run_seq_set_Cons)
  finally have t: "rx_run ?t (q, t @ '' ('' @ ?C @ '') VALUES '' @ d # s) = rx_run ?g (Some CHR ''('', ?C @ '') VALUES '' @ d # s)" for q .
  have t_fail: "rx_run ?t (q, CHR '' '' # u) = []" for q u by (simp add: rx_plus_def run_seq_assoc run_seq_set_Cons sp)
  obtain x u where tx: "t = x # u" "\<not> rx_space x" using ident_all [OF assms(1)] ident_bytes by (cases t) auto
  have space_t: "rx_run (RSeq (rx_plus rx_space) ?t) (q, CHR '' '' # t @ w) = rx_run ?t (Some CHR '' '', t @ w)" for q w
    using run_plus_word [of rx_space "'' ''" "t @ w" ?t q] tx t_fail sp by simp
  have i: "rx_run ?i (q, ''INTO '' @ t @ w) = rx_run ?t (Some CHR '' '', t @ w)" for q w
    using space_t by (simp add: fold_step fold_Nil lower_bytes)
  have i_fail: "rx_run ?i (q, CHR '' '' # u) = []" for q u by (simp add: fold_step lower_bytes)
  have "rx_run (RSeq (rx_plus rx_space) ?i) (q, '' INTO '' @ w) = rx_run ?i (Some CHR '' '', ''INTO '' @ w)" for q w
    using run_plus_word [of rx_space "'' ''" "''INTO '' @ w" ?i q] i_fail sp by simp
  then have "rx_run (rx_seq (insert_front @ rest)) (p, ''INSERT INTO '' @ t @ w) = rx_run ?t (Some CHR '' '', t @ w)" for w
    using i by (simp add: insert_front_def fold_step fold_Nil lower_bytes)
  with t g v show ?thesis by auto
qed

lemma plain_value_bytes: "plain_value v \<Longrightarrow> list_all (\<lambda>c. \<not> rx_space c \<and> c \<noteq> CHR '';'' \<and> c \<noteq> CHR '')'') v"
  by (auto simp: plain_value_def list_all_iff is_space_def rx_space_def)

lemma calm_literal: "plain_value v \<Longrightarrow> calm (sql_literal v)"
proof -
  assume v: "plain_value v"
  then have "list_all (\<lambda>c. \<not> rx_space c \<and> c \<noteq> CHR '';'') (quote_byte # v @ [quote_byte])"
    using plain_value_bytes [OF v] by (auto simp: list_all_iff rx_space_def [of quote_byte])
  then show ?thesis unfolding sql_literal_plain [OF v] by (rule calm_plain)
qed

lemma calm_values:
  "list_all plain_value vals \<Longrightarrow> vals \<noteq> [] \<Longrightarrow> calm (str_Join '', '' (map sql_literal vals))"
proof (induction vals rule: induct_list012)
  case (2 v)
  then show ?case by (simp add: calm_literal)
next
  case (3 v w vs)
  obtain u where "str_Join '', '' (map sql_literal (w # vs)) = quote_byte # u"
    using 3 by (cases vs) (simp_all add: sql_literal_plain)
  with 3 calm_separated [of "sql_literal v" quote_byte u] show ?case by (simp add: calm_literal)
qed simp

lemma row_sql_paren: "row_sql vals = CHR ''('' # str_Join '', '' (map sql_literal vals) @ '')''"
  by (simp add: row_sql_def)

lemma calm_row: "list_all plain_value vals \<Longrightarrow> vals \<noteq> [] \<Longrightarrow> calm (row_sql vals)"
proof -
  assume "list_all plain_value vals" "vals \<noteq> []"
  then have "calm (''('' @ str_Join '', '' (map sql_literal vals) @ '')'')"
    by (intro calm_append calm_values) (simp_all add: rx_space_def)
  then show ?thesis by (simp only: row_sql_def)
qed

lemma calm_rows:
  "\<forall>vals\<in>set rows. list_all plain_value vals \<and> vals \<noteq> [] \<Longrightarrow> calm (str_Join '', '' (map row_sql rows))"
proof (induction rows rule: induct_list012)
  case (2 r)
  then show ?case by (simp add: calm_row)
next
  case (3 r r' rs)
  obtain u where "str_Join '', '' (map row_sql (r' # rs)) = CHR ''('' # u"
    by (cases rs) (simp_all add: row_sql_paren)
  with 3 calm_separated [of "row_sql r" "CHR ''(''" u] show ?case by (simp add: calm_row)
qed simp

lemma values_no_paren:
  "list_all plain_value vals \<Longrightarrow> list_all (\<lambda>c. c \<noteq> CHR '')'') (str_Join '', '' (map sql_literal vals))"
proof (induction vals rule: induct_list012)
  case (2 v)
  then show ?case using plain_value_bytes [of v] by (auto simp: sql_literal_plain list_all_iff)
next
  case (3 v w vs)
  then show ?case using plain_value_bytes [of v] by (auto simp: sql_literal_plain list_all_iff)
qed simp

lemma tuple_run:
  assumes "list_all plain_value vals"
  shows "rx_run tuplePattern (p, row_sql vals @ s) = [((Some CHR '')'', s), [(1, str_Join '', '' (map sql_literal vals))])]"
proof -
  let ?w = "str_Join '', '' (map sql_literal vals)"
  let ?b = "RSeq (rx_byte CHR '')'') REps"
  have "rx_run (RSeq (RGroup 1 (RStar (\<lambda>c. c \<noteq> CHR '')''))) ?b) (q, ?w @ CHR '')'' # s) = [((Some CHR '')'', s), [(1, ?w)])]" for q
    using run_group_word [of "\<lambda>c. c \<noteq> CHR '')''" ?w "CHR '')'' # s" ?b 1 q] values_no_paren [OF assms]
    by (auto simp: rx_byte_def run_seq_set_Cons list_all_iff)
  then show ?thesis by (simp add: tuplePattern_def rx_byte_def run_seq_set_Cons row_sql_paren)
qed

lemma tuple_find_all:
  "\<forall>vals\<in>set rows. list_all plain_value vals \<Longrightarrow>
     map (\<lambda>m. m 1) (rx_find_all tuplePattern p (str_Join '', '' (map row_sql rows))) =
     map (\<lambda>vals. str_Join '', '' (map sql_literal vals)) rows"
proof (induction rows arbitrary: p rule: induct_list012)
  case 1
  show ?case by (simp add: rx_find_all.simps rx_find.simps tuplePattern_def rx_byte_def rx_steps)
next
  case (2 r)
  then have "rx_find tuplePattern p (row_sql r) = Some ((Some CHR '')'', []), [(1, str_Join '', '' (map sql_literal r))])"
    using tuple_run [of r p "[]"] by (simp add: rx_find.simps)
  then show ?case using 2
    by (simp add: rx_find_all.simps row_sql_paren submatch_def)
       (simp add: rx_find_all.simps rx_find.simps tuplePattern_def rx_byte_def rx_steps)
next
  case (3 r r' rs)
  let ?s = "str_Join '', '' (map row_sql (r' # rs))"
  have find: "rx_find tuplePattern q (row_sql v @ u) = Some ((Some CHR '')'', u), [(1, str_Join '', '' (map sql_literal v))])"
    if "list_all plain_value v" for q v u
    using tuple_run [OF that, of q u] by (simp add: rx_find.simps)
  have skip: "rx_find tuplePattern q (CHR '','' # CHR '' '' # u) = rx_find tuplePattern (Some CHR '' '') u" for q u
    by (simp add: rx_find.simps [of _ q] rx_find.simps [of _ "Some CHR '',''"] tuplePattern_def rx_byte_def rx_steps)
  have skip_all: "map (\<lambda>m. m 1) (rx_find_all tuplePattern q ('', '' @ ?s)) = map (\<lambda>m. m 1) (rx_find_all tuplePattern (Some CHR '' '') ?s)" for q
  proof -
    obtain v u where s: "?s = row_sql v @ u" "list_all plain_value v" using 3 by (cases rs) auto
    have "length u < length (row_sql v @ u)" by (simp add: row_sql_paren)
    then show ?thesis unfolding s(1)
      by (simp add: rx_find_all.simps [of _ q] rx_find_all.simps [of _ "Some CHR '' ''"] skip find [OF s(2)])
  qed
  have "rx_find_all tuplePattern p (row_sql r @ '', '' @ ?s) =
      submatch [(1, str_Join '', '' (map sql_literal r))] # rx_find_all tuplePattern (Some CHR '')'') ('', '' @ ?s)"
    by (subst rx_find_all.simps) (use 3 find [of r] in \<open>simp add: row_sql_paren\<close>)
  with 3 skip_all show ?case by (simp add: submatch_def)
qed

lemma tuple_keys_rows:
  assumes "\<forall>vals\<in>set rows. list_all plain_value vals \<and> i < length vals \<and> vals ! i \<noteq> []"
  shows "tuple_keys i (map (\<lambda>vals. str_Join '', '' (map sql_literal vals)) rows) = Some (map (\<lambda>vals. vals ! i) rows)"
  using assms
proof (induction rows)
  case (Cons r rows)
  then have "list_all plain_value r" "i < length r" "r ! i \<noteq> []" "plain_value (r ! i)" by (auto simp: list_all_length)
  moreover from this have "splitCSV (str_Join '', '' (map sql_literal r)) = map sql_literal r"
    by (intro splitCSV_Join) (auto simp: list_all_iff csv_word_literal)
  ultimately show ?case using Cons by (simp add: literal_key_literal)
qed simp

lemma matchInsertColumnAll_rows:
  assumes "sql_ident t" and "list_all sql_ident cols" and "distinct (map ToLower cols)" and "i < length cols"
    and "rows \<noteq> []" and "\<forall>vals\<in>set rows. list_all plain_value vals \<and> length vals = length cols \<and> vals ! i \<noteq> []"
  shows "matchInsertColumnAll (insert_rows_sql t cols rows) (cols ! i) = Some (map (\<lambda>vals. vals ! i) rows)"
proof -
  let ?V = "str_Join '', '' (map row_sql rows)"
  have ne: "\<forall>vals\<in>set rows. list_all plain_value vals \<and> vals \<noteq> []" using assms(4,6) by auto
  obtain u where V: "?V = CHR ''('' # u" using assms(5) by (cases rows; cases "tl rows") (auto simp: row_sql_paren)
  have "calm (CHR ''('' # u)" using calm_rows [OF ne] V by simp
  then have "rx_run rows_end (q, c # v) = []" if "u = w @ c # v" for q w c v
    using calm_suffix [of "CHR ''('' # w" "c # v"] that rows_end_calm by simp
  then have "rx_run (RSeq rows_end REps) (q, c # v) = []" if "u = w @ c # v" for q w c v
    using that run_seq_eps_right by metis
  from run_lazy_group [of u "RSeq rows_end REps", OF this, where n = 2 and p = "Some CHR '' ''" and a = "CHR ''(''"]
  have "rx_run (rx_seq [RGroup 2 (RSeq (RSet (\<lambda>_. True)) (RLazy (\<lambda>_. True))), rows_end]) (Some CHR '' '', ?V) =
      [((end_pos (Some CHR ''('') u, []), [(2, ?V)])]"
    by (simp add: V run_seq_eps_right rows_end_Nil)
  then have "\<exists>more. rx_run insertMultiRowPattern (None, insert_rows_sql t cols rows) =
      ((end_pos (Some CHR ''('') u, []), [(1, str_Join '', '' cols), (2, ?V)]) # more"
    using insert_front_run [OF assms(1,2), of "CHR ''(''" "[RGroup 2 (RSeq (RSet (\<lambda>_. True)) (RLazy (\<lambda>_. True))), rows_end]" None u]
    by (auto simp: insertMultiRowPattern_def insert_rows_sql_def V rx_space_def)
  then have m: "FindStringSubmatch insertMultiRowPattern (insert_rows_sql t cols rows) =
      Some (submatch [(1, str_Join '', '' cols), (2, ?V)])"
    by (auto simp: FindStringSubmatch_def rx_find.simps)
  have "splitCSV (str_Join '', '' cols) = cols"
    using assms(2,4) by (intro splitCSV_Join) (auto simp: list_all_iff csv_word_ident)
  moreover have "tuple_keys i (map (\<lambda>m. m 1) (rx_find_all tuplePattern None ?V)) = Some (map (\<lambda>vals. vals ! i) rows)"
    using tuple_find_all [of rows None] tuple_keys_rows [of rows i] assms(4,6) by auto
  moreover have "rx_find_all tuplePattern None ?V \<noteq> []"
    using tuple_find_all [of rows None] assms(5,6) by auto
  ultimately show ?thesis
    by (simp add: matchInsertColumnAll_def m submatch_def column_index_nth [OF assms(3,4)] Let_def)
qed

subsection \<open>The contract of the strategies\<close>

lemma literal_key_nonempty: "literal_key v = Some k \<Longrightarrow> k \<noteq> []"
proof -
  have "\<not> MatchString numericLiteral []" by code_simp
  then show "literal_key v = Some k \<Longrightarrow> k \<noteq> []"
    by (auto simp: literal_key_def Let_def split: if_split_asm)
qed

lemma insert_column_loop_nonempty: "insert_column_loop col cs vs = Some k \<Longrightarrow> k \<noteq> []"
  by (induction col cs vs rule: insert_column_loop.induct) (auto dest: literal_key_nonempty split: if_splits)

lemma regexExtractor_nonempty: "regexExtractor query col = Some k \<Longrightarrow> k \<noteq> []"
  by (auto simp: regexExtractor_def matchColumnEquals_def matchInsertColumn_def Let_def
    dest: insert_column_loop_nonempty split: option.splits if_splits)

lemma insert_pick_nonempty: "insert_pick col cs vs = Some k \<Longrightarrow> k \<noteq> []"
  by (induction col cs vs rule: insert_pick.induct)
     (auto simp: Let_def isKeyLiteral_def split: if_splits list.splits)

lemma eq_literals_nonempty: "v \<in> set (eq_literals col toks) \<Longrightarrow> v \<noteq> []"
  by (auto simp: eq_literals_def isKeyLiteral_def)

lemma parserExtractor_nonempty: "parserExtractor query col = Some k \<Longrightarrow> k \<noteq> []"
  using eq_literals_nonempty [of k col "tokenize query"]
  by (auto simp: parserExtractor_def insertValueTok_def whereEqTok_Some Let_def
    dest: insert_pick_nonempty split: if_splits list.splits option.splits)

interpretation regex_strategy: route_key_extractor regexExtractor
  by unfold_locales (rule regexExtractor_nonempty)

interpretation parser_strategy: route_key_extractor parserExtractor
  by unfold_locales (rule parserExtractor_nonempty)

interpretation auto_strategy: extractor_pair parserExtractor regexExtractor
  by unfold_locales

section \<open>Properties\<close>



text \<open>C29: Every strategy that \<open>NewRouteKeyExtractor\<close> can return keeps the contract of the interface: a
  key it extracts is not empty; the automatic one answers like the parser whenever the parser has
  an answer.\<close>

theorem extractors_keep_contract:
  assumes "NewRouteKeyExtractor name = Some ex" and "extract_key ex query col = Some k"
  shows "k \<noteq> [] \<and> (ex = autoStrategy parserStrategy regexStrategy \<and> parserExtractor query col \<noteq> None \<longrightarrow>
                   parserExtractor query col = Some k)"
proof -
  from assms(1) consider "ex = regexStrategy" | "ex = parserStrategy" | "ex = autoStrategy parserStrategy regexStrategy"
    by (auto simp: NewRouteKeyExtractor_def Let_def split: if_splits)
  then show ?thesis
    using assms(2) regex_strategy.extr_nonempty [of query col k] parser_strategy.extr_nonempty [of query col k]
      auto_strategy.composed_nonempty [of query col k]
    by cases (simp_all split: option.splits)
qed

theorem extractors_keep_contract_witness:
  "NewRouteKeyExtractor ''auto'' = Some (autoStrategy parserStrategy regexStrategy) \<and>
   extract_key (autoStrategy parserStrategy regexStrategy) ''select 1 where id=7'' ''id'' = Some ''7''"
proof -
  have name: "NewRouteKeyExtractor ''auto'' = Some (autoStrategy parserStrategy regexStrategy)"
    by (simp add: NewRouteKeyExtractor_def)
  have key: "extract_key (autoStrategy parserStrategy regexStrategy) ''select 1 where id=7'' ''id'' = Some ''7''"
    by code_simp
  show ?thesis using extractors_keep_contract [OF name key] name key by simp
qed

end
