(* ===== verification/Cluster_Types.thy ===== *)
theory Cluster_Types
  imports Prelude
begin

text \<open>
  The cluster resource as the components exchange it: the types of
  \<open>api/v1alpha1/postgrescluster_types.go\<close>. Optional pointers are options, a \<open>map[string]string\<close> is a
  partial map, \<open>time.Time\<close> is a number of nanoseconds. The fields that only shape Kubernetes objects
  (resources, affinities, storage, TLS, monitoring) are left out: no decision of the modelled code
  reads them.
\<close>

type_synonym time = int  \<comment> \<open>nanoseconds since the epoch\<close>
type_synonym labels = "string \<rightharpoonup> string"

definition second :: time where "second = 1000000000"
definition minute :: time where "minute = 60 * second"

text \<open>Reading a missing key of a Go \<open>map[string]string\<close> gives the empty string.\<close>

definition label_of :: "labels \<Rightarrow> string \<Rightarrow> string" where
  "label_of m k = (case m k of None \<Rightarrow> [] | Some v \<Rightarrow> v)"

section \<open>Specification\<close>

datatype ShardingMode = ShardingModeNone | ShardingModeNative

record RouterSpec =
  rt_Enabled :: bool
  rt_Replicas :: int

record AutoSplitTriggers =
  tr_SizeThresholdGB :: int
  tr_P99LatencyMs :: int
  tr_CPUPercent :: int
  tr_PVCUtilizationPercent :: int
  tr_DurationMinutes :: int

record AutoSplitSpec =
  as_Enabled :: bool
  as_RequireApproval :: bool
  as_Triggers :: "AutoSplitTriggers option"

record SecretKeySelector =
  sk_Name :: string
  sk_Key :: string

record ExternalClusterSpec =
  ec_Name :: string
  ec_ConnectionParameters :: labels
  ec_Password :: "SecretKeySelector option"
  ec_SSLKey :: "SecretKeySelector option"
  ec_SSLCert :: "SecretKeySelector option"
  ec_SSLRootCert :: "SecretKeySelector option"

record ReplicaClusterSpec =
  rc_Enabled :: bool
  rc_Source :: string

section \<open>Status\<close>

datatype ClusterPhase =
    ClusterPhaseProvisioning
  | ClusterPhaseReady
  | ClusterPhaseReconfiguring
  | ClusterPhaseDegraded
  | ClusterPhaseHibernated

record ShardEndpoint =
  ep_Pod :: string
  ep_Endpoint :: string
  ep_Ready :: bool
  ep_LagBytes :: int
  ep_Reason :: string
  ep_Message :: string

record ShardStatus =
  ss_Name :: string
  ss_Ordinal :: int
  ss_Primary :: "ShardEndpoint option"
  ss_Replicas :: "ShardEndpoint list"
  ss_SizeBytes :: int
  ss_LastSplit :: "time option"

record ClusterRouterStatus =
  rs_Replicas :: int
  rs_ReadyReplicas :: int
  rs_Endpoint :: string

datatype ConditionStatus = ConditionTrue | ConditionFalse | ConditionUnknown

record Condition =
  cond_Type :: string
  cond_Status :: ConditionStatus
  cond_Reason :: string
  cond_Message :: string
  cond_ObservedGeneration :: int

section \<open>The resource\<close>

text \<open>\<open>pc_BootstrapSource\<close> is \<open>spec.bootstrap.pg_basebackup.source\<close>, \<open>None\<close> when either pointer is
  nil. A phase that was never set is \<open>None\<close>.\<close>

record PostgresCluster =
  pc_Name :: string
  pc_Namespace :: string
  pc_Generation :: int
  pc_Annotations :: labels
  pc_ExternalClusters :: "ExternalClusterSpec list"
  pc_BootstrapSource :: "string option"
  pc_Replica :: "ReplicaClusterSpec option"
  pc_ShardingMode :: ShardingMode
  pc_InitialCount :: int
  pc_Replicas :: int
  pc_StorageSize :: int
  pc_Router :: "RouterSpec option"
  pc_AutoSplit :: "AutoSplitSpec option"
  pc_Phase :: "ClusterPhase option"
  pc_Shards :: "ShardStatus list"
  pc_Conditions :: "Condition list"

definition demo_cluster :: PostgresCluster where
  "demo_cluster =
     \<lparr>pc_Name = ''demo'', pc_Namespace = ''db'', pc_Generation = 1, pc_Annotations = Map.empty,
      pc_ExternalClusters = [], pc_BootstrapSource = None, pc_Replica = None,
      pc_ShardingMode = ShardingModeNative, pc_InitialCount = 1, pc_Replicas = 1, pc_StorageSize = 100000000000, pc_Router = None,
      pc_AutoSplit = None, pc_Phase = Some ClusterPhaseReady, pc_Shards = [], pc_Conditions = []\<rparr>"

end
