(* ===== verification/Query_Router.thy ===== *)
theory Query_Router
  imports Consistent_Hash Sql_Route Cluster_Types
begin

text \<open>
  The routing decision: \<open>internal/router/topology.go\<close>, \<open>reference.go\<close> and \<open>query_router.go\<close>.

  A backend resolver is a function from shard names to endpoints or an error. The resolver that
  distributes reads keeps a cursor per shard; \<open>ResolveRead\<close> therefore returns the new state beside
  its answer. \<open>Route\<close> calls the resolver it picks at most once, so it takes the answers as a function.
  Go's \<open>(RouteDecision, error)\<close> is a pair whose second part is an option, because the scatter case
  returns a decision and an error together.
\<close>

named_theorems router \<open>definitions of the routing component\<close>

section \<open>Topology\<close>

record Topology =
  top_Cluster :: string
  top_Keyspace :: string
  top_Spec :: ShardRangeSpec

definition topology_Shard :: "Topology \<Rightarrow> string \<Rightarrow> (router_error, string) result" where
  "topology_Shard t key = ResolveShard (top_Spec t) key"

type_synonym BackendResolver = "string \<Rightarrow> (router_error, string) result"

definition StaticTopologyProvider_Current :: "Topology \<Rightarrow> (router_error, Topology) result" where
  "StaticTopologyProvider_Current t = Inr t"

record CRDTopologyProvider =
  ctp_Cluster :: string
  ctp_Keyspace :: string
  ctp_ClearCacheOnMissing :: bool
  ctp_cached :: "Topology option"

text \<open>\<open>loaded\<close> and \<open>cached\<close> are one option. \<open>Refresh\<close> takes what \<open>ListShardRanges\<close> returned, \<open>None\<close>
  for an error of the API.\<close>

definition ctp_Refresh ::
  "CRDTopologyProvider \<Rightarrow> ShardRangeSpec list option \<Rightarrow> (router_error, Topology) result \<times> CRDTopologyProvider" where
  "ctp_Refresh p listed =
     (case listed of
        None \<Rightarrow> (Inl ErrListShardRange, p)
      | Some items \<Rightarrow>
          (case find (\<lambda>sp. sr_Cluster sp = ctp_Cluster p \<and> sr_Keyspace sp = ctp_Keyspace p) items of
             Some sp \<Rightarrow>
               let t = \<lparr>top_Cluster = sr_Cluster sp, top_Keyspace = sr_Keyspace sp, top_Spec = sp\<rparr>
               in (Inr t, p\<lparr>ctp_cached := Some t\<rparr>)
           | None \<Rightarrow> (Inl ErrNoShardRange, if ctp_ClearCacheOnMissing p then p\<lparr>ctp_cached := None\<rparr> else p)))"

definition ctp_Current ::
  "CRDTopologyProvider \<Rightarrow> ShardRangeSpec list option \<Rightarrow> (router_error, Topology) result \<times> CRDTopologyProvider" where
  "ctp_Current p listed = (case ctp_cached p of Some t \<Rightarrow> (Inr t, p) | None \<Rightarrow> ctp_Refresh p listed)"

section \<open>Backends\<close>

record StatusBackendResolver =
  sbr_MaxReplicaLagBytes :: int
  sbr_primaries :: "string \<rightharpoonup> string"
  sbr_replicas :: "string \<Rightarrow> string list"
  sbr_rr :: "string \<Rightarrow> nat"

definition NewStatusBackendResolver :: StatusBackendResolver where
  "NewStatusBackendResolver =
     \<lparr>sbr_MaxReplicaLagBytes = 0, sbr_primaries = Map.empty, sbr_replicas = (\<lambda>_. []), sbr_rr = (\<lambda>_. 0)\<rparr>"

definition readable_replica :: "int \<Rightarrow> ShardEndpoint \<Rightarrow> bool" where
  "readable_replica maxLag rep \<longleftrightarrow>
     ep_Ready rep \<and> ep_Endpoint rep \<noteq> [] \<and> \<not> (0 < maxLag \<and> maxLag < ep_LagBytes rep)"

definition update_primaries :: "(string \<rightharpoonup> string) \<Rightarrow> ShardStatus \<Rightarrow> (string \<rightharpoonup> string)" where
  "update_primaries pm s =
     (case ss_Primary s of
        Some p \<Rightarrow> if ep_Ready p \<and> ep_Endpoint p \<noteq> [] then pm(ss_Name s \<mapsto> ep_Endpoint p) else pm
      | None \<Rightarrow> pm)"

definition update_replicas :: "int \<Rightarrow> (string \<Rightarrow> string list) \<Rightarrow> ShardStatus \<Rightarrow> string \<Rightarrow> string list" where
  "update_replicas maxLag rm s =
     rm(ss_Name s := rm (ss_Name s) @ map ep_Endpoint (filter (readable_replica maxLag) (ss_Replicas s)))"

definition sbr_Update :: "StatusBackendResolver \<Rightarrow> ShardStatus list \<Rightarrow> StatusBackendResolver" where
  "sbr_Update r shards =
     r\<lparr>sbr_primaries := foldl update_primaries Map.empty shards,
       sbr_replicas := foldl (update_replicas (sbr_MaxReplicaLagBytes r)) (\<lambda>_. []) shards\<rparr>"

text \<open>A missing key of the Go map reads as the empty endpoint.\<close>

definition sbr_Resolve :: "StatusBackendResolver \<Rightarrow> BackendResolver" where
  "sbr_Resolve r shardID =
     (case sbr_primaries r shardID of
        Some ep \<Rightarrow> if ep = [] then Inl (ErrNoReadyPrimary shardID) else Inr ep
      | None \<Rightarrow> Inl (ErrNoReadyPrimary shardID))"

definition sbr_ResolveRead ::
  "StatusBackendResolver \<Rightarrow> string \<Rightarrow> (router_error, string) result \<times> StatusBackendResolver" where
  "sbr_ResolveRead r shardID =
     (let reps = sbr_replicas r shardID in
      if reps \<noteq> [] then
        (Inr (reps ! (sbr_rr r shardID mod length reps)),
         r\<lparr>sbr_rr := (sbr_rr r)(shardID := (sbr_rr r shardID + 1) mod 2 ^ 30)\<rparr>)
      else
        (case sbr_primaries r shardID of
           Some ep \<Rightarrow> (if ep \<noteq> [] then Inr ep else Inl (ErrNoReadyReplica shardID), r)
         | None \<Rightarrow> (Inl (ErrNoReadyReplica shardID), r)))"

section \<open>Reference tables\<close>

definition tableNameAt :: "token list \<Rightarrow> string" where
  "tableNameAt toks =
     (case toks of
        a # b # c # _ \<Rightarrow>
          if tok_kind a \<noteq> tokIdent then []
          else if is_sym ''.'' b \<and> tok_kind c = tokIdent then tok_text c else tok_text a
      | a # _ \<Rightarrow> if tok_kind a \<noteq> tokIdent then [] else tok_text a
      | [] \<Rightarrow> [])"

text \<open>The loop of \<open>ExtractTables\<close>; \<open>seen\<close> holds lower-case names.\<close>

fun tables_loop :: "string set \<Rightarrow> token list \<Rightarrow> string list" where
  "tables_loop seen (t # u # rest) =
     (if tok_kind t = tokIdent \<and> ToLower (tok_text t) \<in> {''from'', ''join'', ''into'', ''update''} then
        (let name = tableNameAt (u # rest) in
         if name \<noteq> [] \<and> ToLower name \<notin> seen then name # tables_loop (insert (ToLower name) seen) (u # rest)
         else tables_loop seen (u # rest))
      else tables_loop seen (u # rest))"
| "tables_loop seen toks = []"

definition ExtractTables :: "string \<Rightarrow> string list" where
  "ExtractTables query = tables_loop {} (tokenize query)"

definition IsReferenceTable :: "Topology \<Rightarrow> string \<Rightarrow> bool" where
  "IsReferenceTable t name = list_ex (\<lambda>r. EqualFold r name) (sr_ReferenceTables (top_Spec t))"

definition ReferenceOnly :: "Topology \<Rightarrow> string \<Rightarrow> bool" where
  "ReferenceOnly t query =
     (let tables = ExtractTables query in tables \<noteq> [] \<and> list_all (IsReferenceTable t) tables)"

definition AnyShard :: "Topology \<Rightarrow> (router_error, string) result" where
  "AnyShard t = (case sr_Ranges (top_Spec t) of [] \<Rightarrow> Inl ErrNoShardsInTopology | r # _ \<Rightarrow> Inr (entry_Shard r))"

section \<open>The decision\<close>

record RouteDecision =
  rd_Shard :: string
  rd_Backend :: string
  rd_Read :: bool
  rd_Scatter :: bool

definition no_decision :: RouteDecision where
  "no_decision = \<lparr>rd_Shard = [], rd_Backend = [], rd_Read = False, rd_Scatter = False\<rparr>"

record QueryRouter =
  qr_Topology :: Topology
  qr_Extractor :: "RouteKeyExtractor option"
  qr_Write :: "BackendResolver option"
  qr_Read :: "BackendResolver option"

definition decide ::
  "(router_error, string) result \<Rightarrow> BackendResolver \<Rightarrow> bool \<Rightarrow> RouteDecision \<times> router_error option" where
  "decide shard pick read =
     (case shard of
        Inl e \<Rightarrow> (no_decision, Some e)
      | Inr s \<Rightarrow>
          (case pick s of
             Inl e \<Rightarrow> (no_decision, Some e)
           | Inr backend \<Rightarrow> (\<lparr>rd_Shard = s, rd_Backend = backend, rd_Read = read, rd_Scatter = False\<rparr>, None)))"

text \<open>The check of the further keys of an insert of several rows against the shard of the first.\<close>

fun same_shard :: "Topology \<Rightarrow> string \<Rightarrow> string list \<Rightarrow> router_error option" where
  "same_shard t first [] = None"
| "same_shard t first (k # ks) =
     (case topology_Shard t k of
        Inl e \<Rightarrow> Some e
      | Inr sh \<Rightarrow> if sh \<noteq> first then Some ErrCrossShardInsert else same_shard t first ks)"

definition Route :: "QueryRouter \<Rightarrow> string \<Rightarrow> RouteDecision \<times> router_error option" where
  "Route qr query =
     (let read = IsReadOnlyQuery query; t = qr_Topology qr; col = vindex_Column (sr_Vindex (top_Spec t)) in
      if \<not> read \<and> sr_WriteBlocked (top_Spec t) then (no_decision, Some ErrWriteBlocked)
      else case (if read \<and> qr_Read qr \<noteq> None then qr_Read qr else qr_Write qr) of
        None \<Rightarrow> (no_decision, Some ErrNoBackendResolver)
      | Some pick \<Rightarrow>
          if read \<and> ReferenceOnly t query then decide (AnyShard t) pick read
          else case qr_Extractor qr of
            None \<Rightarrow> (no_decision, Some ErrNoExtractor)
          | Some ex \<Rightarrow>
              (case matchInsertColumnAll query col of
                 Some (k0 # k1 # ks) \<Rightarrow>
                   (case topology_Shard t k0 of
                      Inl e \<Rightarrow> (no_decision, Some e)
                    | Inr first \<Rightarrow>
                        (case same_shard t first (k1 # ks) of
                           Some e \<Rightarrow> (no_decision, Some e)
                         | None \<Rightarrow> decide (Inr first) pick read))
               | _ \<Rightarrow>
                   (case extract_key ex query col of
                      None \<Rightarrow> (no_decision\<lparr>rd_Read := read, rd_Scatter := True\<rparr>, Some ErrNoRoutingKey)
                    | Some key \<Rightarrow> decide (topology_Shard t key) pick read)))"

lemmas [router] = topology_Shard_def ctp_Refresh_def ctp_Current_def sbr_Update_def sbr_Resolve_def
  sbr_ResolveRead_def ReferenceOnly_def AnyShard_def decide_def Route_def

section \<open>Specification\<close>

text \<open>Where a decision comes from: any shard for a read of reference tables, else the shard of every key
  of an insert of several rows, else the shard of the extracted key.\<close>

definition decision_origin :: "QueryRouter \<Rightarrow> string \<Rightarrow> string \<Rightarrow> bool" where
  "decision_origin qr query shard =
     (let t = qr_Topology qr; col = vindex_Column (sr_Vindex (top_Spec t)) in
      if IsReadOnlyQuery query \<and> ReferenceOnly t query then AnyShard t = Inr shard
      else case matchInsertColumnAll query col of
             Some (k0 # k1 # ks) \<Rightarrow> list_all (\<lambda>k. topology_Shard t k = Inr shard) (k0 # k1 # ks)
           | _ \<Rightarrow> (\<exists>ex key. qr_Extractor qr = Some ex \<and> extract_key ex query col = Some key \<and>
                            topology_Shard t key = Inr shard))"

text \<open>A cached topology is one of the provider's cluster and keyspace.\<close>

definition provider_ok :: "CRDTopologyProvider \<Rightarrow> bool" where
  "provider_ok p =
     (case ctp_cached p of
        None \<Rightarrow> True
      | Some t \<Rightarrow> top_Cluster t = ctp_Cluster p \<and> top_Keyspace t = ctp_Keyspace p \<and>
                  sr_Cluster (top_Spec t) = ctp_Cluster p \<and> sr_Keyspace (top_Spec t) = ctp_Keyspace p)"

text \<open>The calls that change a provider, with what the API listed at the time.\<close>

datatype provider_event = CallCurrent "ShardRangeSpec list option" | CallRefresh "ShardRangeSpec list option"

fun provider_step :: "CRDTopologyProvider \<Rightarrow> provider_event \<Rightarrow> CRDTopologyProvider" where
  "provider_step p (CallCurrent listed) = snd (ctp_Current p listed)"
| "provider_step p (CallRefresh listed) = snd (ctp_Refresh p listed)"

text \<open>Successive reads on one shard: the answers in order.\<close>

fun reads :: "nat \<Rightarrow> StatusBackendResolver \<Rightarrow> string \<Rightarrow> (router_error, string) result list" where
  "reads 0 r s = []"
| "reads (Suc n) r s = (let (a, r') = sbr_ResolveRead r s in a # reads n r' s)"

text \<open>The contract of a backend resolver: an endpoint it returns is not empty. The router relies on
  it to dial what a decision names.\<close>

locale backend_resolver =
  fixes resolve :: BackendResolver
  assumes resolve_nonempty: "resolve s = Inr ep \<Longrightarrow> ep \<noteq> []"
begin

lemma decide_dialable:
  "decide shard resolve read = (d, None) \<Longrightarrow> rd_Backend d \<noteq> [] \<and> shard = Inr (rd_Shard d) \<and> rd_Read d = read"
  by (auto simp: decide_def dest: resolve_nonempty split: sum.splits)

end

text \<open>Example topologies with lexical ranges: keys up to \<open>m\<close> on one shard, the others on another.\<close>

definition demo_topology :: Topology where
  "demo_topology =
     \<lparr>top_Cluster = ''demo'', top_Keyspace = ''app'',
      top_Spec = demo_spec\<lparr>sr_Vindex := demo_vindex\<lparr>vindex_Type := VindexTypeRange, vindex_Column := ''id''\<rparr>,
        sr_Ranges := [demo_entry ''a'' ''m'' ''shard-0'', demo_entry ''n'' ''z'' ''shard-1'']\<rparr>\<rparr>"

definition demo_router :: QueryRouter where
  "demo_router =
     \<lparr>qr_Topology = demo_topology, qr_Extractor = NewRouteKeyExtractor [],
      qr_Write = Some (\<lambda>s. Inr (s @ '':5432'')), qr_Read = None\<rparr>"

definition demo_endpoint :: "string \<Rightarrow> int \<Rightarrow> ShardEndpoint" where
  "demo_endpoint ep lag =
     \<lparr>ep_Pod = ep, ep_Endpoint = ep, ep_Ready = True, ep_LagBytes = lag, ep_Reason = [], ep_Message = []\<rparr>"

definition demo_status :: ShardStatus where
  "demo_status =
     \<lparr>ss_Name = ''shard-0'', ss_Ordinal = 0, ss_Primary = Some (demo_endpoint ''p'' 0),
      ss_Replicas = [demo_endpoint ''r1'' 5, demo_endpoint ''r2'' 7], ss_SizeBytes = 0, ss_LastSplit = None\<rparr>"

section \<open>Lemmas\<close>

lemma same_shard_None: "(same_shard t first ks = None) = list_all (\<lambda>k. topology_Shard t k = Inr first) ks"
  by (induction t first ks rule: same_shard.induct) (auto split: sum.splits)

lemma same_shard_cross:
  assumes "\<forall>k\<in>set ks. \<exists>s. topology_Shard t k = Inr s" and "\<exists>k\<in>set ks. topology_Shard t k \<noteq> Inr first"
  shows "same_shard t first ks = Some ErrCrossShardInsert"
  using assms by (induction ks) (auto split: sum.splits)

lemma decide_ok:
  "decide shard pick read = (d, None) \<longleftrightarrow>
     shard = Inr (rd_Shard d) \<and> pick (rd_Shard d) = Inr (rd_Backend d) \<and> rd_Read d = read \<and> \<not> rd_Scatter d"
  by (cases d) (auto simp: decide_def split: sum.splits)

lemma Route_decision:
  assumes "Route qr query = (d, None)"
  shows "\<exists>pick. (if IsReadOnlyQuery query \<and> qr_Read qr \<noteq> None then qr_Read qr else qr_Write qr) = Some pick \<and>
    pick (rd_Shard d) = Inr (rd_Backend d) \<and> rd_Read d = IsReadOnlyQuery query \<and> \<not> rd_Scatter d \<and>
    (\<not> IsReadOnlyQuery query \<longrightarrow> \<not> sr_WriteBlocked (top_Spec (qr_Topology qr))) \<and> decision_origin qr query (rd_Shard d)"
  using assms unfolding Route_def Let_def decision_origin_def
  by (auto simp: decide_ok same_shard_None split: if_splits option.splits list.splits sum.splits)

lemma foldl_primaries:
  "foldl update_primaries pm shards name = Some ep \<Longrightarrow>
     pm name = Some ep \<or> (\<exists>s\<in>set shards. \<exists>p. ss_Name s = name \<and> ss_Primary s = Some p \<and> ep_Ready p \<and> ep_Endpoint p = ep \<and> ep \<noteq> [])"
proof (induction shards arbitrary: pm)
  case (Cons s shards)
  from Cons.IH [of "update_primaries pm s"] Cons.prems show ?case
    by (auto simp: update_primaries_def split: option.splits if_splits)
qed simp

lemma foldl_replicas:
  "foldl (update_replicas lag) rm shards name =
     rm name @ concat (map (\<lambda>s. if ss_Name s = name then map ep_Endpoint (filter (readable_replica lag) (ss_Replicas s)) else []) shards)"
proof (induction shards arbitrary: rm)
  case (Cons s shards)
  then show ?case by (simp add: update_replicas_def)
qed simp

lemma Update_replicas:
  "sbr_replicas (sbr_Update r shards) name =
     concat (map (\<lambda>s. if ss_Name s = name then map ep_Endpoint (filter (readable_replica (sbr_MaxReplicaLagBytes r)) (ss_Replicas s)) else []) shards)"
  by (simp add: sbr_Update_def foldl_replicas)

lemma Update_primaries:
  "sbr_primaries (sbr_Update r shards) name = Some ep \<Longrightarrow>
     \<exists>s\<in>set shards. \<exists>p. ss_Name s = name \<and> ss_Primary s = Some p \<and> ep_Ready p \<and> ep_Endpoint p = ep \<and> ep \<noteq> []"
  using foldl_primaries [of Map.empty shards name ep] by (simp add: sbr_Update_def)

interpretation write_backend: backend_resolver "sbr_Resolve r" for r
  by unfold_locales (auto simp: sbr_Resolve_def split: option.splits if_splits)

lemma nth_mod_in: "xs \<noteq> [] \<Longrightarrow> xs ! (k mod length xs) = x \<Longrightarrow> x \<in> set xs"
  by (metis length_greater_0_conv mod_less_divisor nth_mem)

lemma Update_rr [simp]: "sbr_rr (sbr_Update r shards) = sbr_rr r"
  by (simp add: sbr_Update_def)

lemma ResolveRead_nonempty: "fst (sbr_ResolveRead (sbr_Update r shards) s) = Inr ep \<Longrightarrow> ep \<noteq> []"
proof -
  let ?reps = "sbr_replicas (sbr_Update r shards) s"
  have "ep \<in> set ?reps \<Longrightarrow> ep \<noteq> []" by (auto simp: Update_replicas readable_replica_def split: if_splits)
  moreover have "fst (sbr_ResolveRead (sbr_Update r shards) s) = Inr ep \<Longrightarrow> ?reps \<noteq> [] \<Longrightarrow> ep \<in> set ?reps"
    using nth_mod_in [of ?reps] by (auto simp: sbr_ResolveRead_def Let_def)
  moreover have "fst (sbr_ResolveRead (sbr_Update r shards) s) = Inr ep \<Longrightarrow> ?reps = [] \<Longrightarrow> ep \<noteq> []"
    by (auto simp: sbr_ResolveRead_def Let_def split: if_splits option.splits)
  ultimately show "fst (sbr_ResolveRead (sbr_Update r shards) s) = Inr ep \<Longrightarrow> ep \<noteq> []" by blast
qed

interpretation read_backend: backend_resolver "\<lambda>s. fst (sbr_ResolveRead (sbr_Update r shards) s)" for r shards
  by unfold_locales (rule ResolveRead_nonempty)

lemma reads_round_robin:
  assumes "sbr_replicas r s = reps" and "reps \<noteq> []" and "sbr_rr r s + n \<le> 2 ^ 30"
  shows "reads n r s = map (\<lambda>k. Inr (reps ! ((sbr_rr r s + k) mod length reps))) [0..<n]"
  using assms
proof (induction n arbitrary: r)
  case (Suc n)
  let ?r = "r\<lparr>sbr_rr := (sbr_rr r)(s := (sbr_rr r s + 1) mod 2 ^ 30)\<rparr>"
  have head: "sbr_ResolveRead r s = (Inr (reps ! (sbr_rr r s mod length reps)), ?r)"
    using Suc.prems(1,2) by (simp add: sbr_ResolveRead_def Let_def)
  show ?case
  proof (cases n)
    case 0
    then show ?thesis using head by simp
  next
    case (Suc m)
    then have "(sbr_rr r s + 1) mod 2 ^ 30 = sbr_rr r s + 1" using Suc.prems(3) by simp
    then have "reads n ?r s = map (\<lambda>k. Inr (reps ! ((sbr_rr r s + 1 + k) mod length reps))) [0..<n]"
      using Suc.IH [of ?r] Suc.prems by simp
    then show ?thesis using head by (simp add: upt_conv_Cons map_Suc_upt [symmetric] comp_def del: upt_Suc)
  qed
qed simp

lemma mod_shift_surj:
  assumes "(i::nat) < n" shows "\<exists>k<n. (c + k) mod n = i"
proof -
  let ?k = "(i + n - c mod n) mod n"
  have "(c + ?k) mod n = (c mod n + (i + n - c mod n)) mod n" by (simp add: mod_add_left_eq mod_add_right_eq)
  also have "c mod n + (i + n - c mod n) = i + n"
    using assms mod_less_divisor [of n c] by linarith
  finally have "(c + ?k) mod n = i" using assms by simp
  moreover have "?k < n" using assms by (intro mod_less_divisor) simp
  ultimately show ?thesis by blast
qed

lemma ctp_Refresh_config:
  "ctp_Cluster (snd (ctp_Refresh p listed)) = ctp_Cluster p \<and> ctp_Keyspace (snd (ctp_Refresh p listed)) = ctp_Keyspace p"
  by (auto simp: ctp_Refresh_def Let_def split: option.split)

lemma ctp_Refresh_ok: "provider_ok p \<Longrightarrow> provider_ok (snd (ctp_Refresh p listed))"
  by (auto simp: ctp_Refresh_def provider_ok_def Let_def find_Some_iff split: option.splits)

lemma provider_step_ok: "provider_ok p \<Longrightarrow> provider_ok (provider_step p e)"
  by (cases e) (auto simp: ctp_Current_def ctp_Refresh_ok split: option.split)

interpretation provider: state_invariant provider_step provider_ok
  by unfold_locales (rule provider_step_ok)

lemma provider_run_config:
  "ctp_Cluster (foldl provider_step p es) = ctp_Cluster p \<and> ctp_Keyspace (foldl provider_step p es) = ctp_Keyspace p"
proof (induction es arbitrary: p)
  case (Cons e es)
  have "ctp_Cluster (provider_step p e) = ctp_Cluster p \<and> ctp_Keyspace (provider_step p e) = ctp_Keyspace p"
    using ctp_Refresh_config by (cases e) (auto simp: ctp_Current_def split: option.split)
  with Cons show ?case by simp
qed simp

text \<open>The statements of the examples and of the properties: an \<open>INSERT\<close> is never read-only.\<close>

lemma insert_rows_not_readonly: "\<not> IsReadOnlyQuery (insert_rows_sql t cols rows)"
proof -
  have "ToLower ''INSERT'' = ''insert''" by code_simp
  then show ?thesis
    using tokenize_keywords(4) by (simp add: IsReadOnlyQuery_def insert_rows_sql_def)
qed

section \<open>Properties\<close>

text \<open>C5: A routing decision is sound. Whenever \<open>Route\<close> decides on a backend, the backend is what the
  picked resolver gives for the decided shard; a statement not classified as read-only goes to the
  write resolver and only while writes are not blocked; and the shard is the one the vindex gives
  for the statement: for all rows of an insert of several rows, for the extracted key, or any
  shard for a read of reference tables only.\<close>

theorem Route_sound:
  assumes "Route qr query = (d, None)"
  shows "(\<exists>pick. (if IsReadOnlyQuery query \<and> qr_Read qr \<noteq> None then qr_Read qr else qr_Write qr) = Some pick \<and>
            pick (rd_Shard d) = Inr (rd_Backend d)) \<and>
         rd_Read d = IsReadOnlyQuery query \<and>
         (\<not> IsReadOnlyQuery query \<longrightarrow> \<not> sr_WriteBlocked (top_Spec (qr_Topology qr))) \<and>
         decision_origin qr query (rd_Shard d)"
  using Route_decision [OF assms] by blast

theorem Route_sound_witness:
  "\<exists>d. Route demo_router (point_sql ''t'' ''id'' ''bob'') = (d, None) \<and> decision_origin demo_router (point_sql ''t'' ''id'' ''bob'') (rd_Shard d)"
proof -
  have "Route demo_router (point_sql ''t'' ''id'' ''bob'') =
      (\<lparr>rd_Shard = ''shard-0'', rd_Backend = ''shard-0:5432'', rd_Read = True, rd_Scatter = False\<rparr>, None)"
    by code_simp
  with Route_sound [OF this] show ?thesis by blast
qed



text \<open>The protection fails when a value contains a semicolon. Such an insert of two rows is routed by
  its first row although the second row belongs to another shard, because the expression that reads
  the rows stops at the semicolon and the fall-back extraction looks at the first row only.\<close>

theorem Route_misplaces_rows_with_semicolon:
  "\<exists>d. Route demo_router (insert_rows_sql ''t'' [''id''] [[''a;b''], [''nan'']]) = (d, None) \<and>
       rd_Shard d = ''shard-0'' \<and> topology_Shard demo_topology ''nan'' = Inr ''shard-1''"
proof -
  have "Route demo_router (insert_rows_sql ''t'' [''id''] [[''a;b''], [''nan'']]) =
      (\<lparr>rd_Shard = ''shard-0'', rd_Backend = ''shard-0:5432'', rd_Read = False, rd_Scatter = False\<rparr>, None)"
    by code_simp
  moreover have "topology_Shard demo_topology ''nan'' = Inr ''shard-1''" by code_simp
  ultimately show ?thesis by simp
qed

text \<open>Backends come from the last status only. After an update, a write goes to an endpoint that
  the status reports as the ready primary of the shard; a read goes to a ready replica of the shard
  whose lag is within the limit or, when there is none, to such a primary.\<close>

theorem resolver_uses_ready_backends:
  "(sbr_Resolve (sbr_Update r shards) shard = Inr ep \<longrightarrow>
      (\<exists>s\<in>set shards. \<exists>p. ss_Name s = shard \<and> ss_Primary s = Some p \<and> ep_Ready p \<and> ep_Endpoint p = ep \<and> ep \<noteq> [])) \<and>
   (fst (sbr_ResolveRead (sbr_Update r shards) shard) = Inr ep \<longrightarrow>
      (\<exists>s\<in>set shards. ss_Name s = shard \<and>
         ((\<exists>rep\<in>set (ss_Replicas s). readable_replica (sbr_MaxReplicaLagBytes r) rep \<and> ep_Endpoint rep = ep) \<or>
          (\<exists>p. ss_Primary s = Some p \<and> ep_Ready p \<and> ep_Endpoint p = ep \<and> ep \<noteq> []))))"
proof (intro conjI impI)
  assume "sbr_Resolve (sbr_Update r shards) shard = Inr ep"
  then show "\<exists>s\<in>set shards. \<exists>p. ss_Name s = shard \<and> ss_Primary s = Some p \<and> ep_Ready p \<and> ep_Endpoint p = ep \<and> ep \<noteq> []"
    using Update_primaries [of r shards shard ep] by (auto simp: sbr_Resolve_def split: option.splits if_splits)
next
  let ?reps = "sbr_replicas (sbr_Update r shards) shard"
  assume read: "fst (sbr_ResolveRead (sbr_Update r shards) shard) = Inr ep"
  show "\<exists>s\<in>set shards. ss_Name s = shard \<and>
      ((\<exists>rep\<in>set (ss_Replicas s). readable_replica (sbr_MaxReplicaLagBytes r) rep \<and> ep_Endpoint rep = ep) \<or>
       (\<exists>p. ss_Primary s = Some p \<and> ep_Ready p \<and> ep_Endpoint p = ep \<and> ep \<noteq> []))"
  proof (cases "?reps = []")
    case True
    with read have "sbr_primaries (sbr_Update r shards) shard = Some ep"
      by (auto simp: sbr_ResolveRead_def Let_def split: option.splits if_splits)
    with Update_primaries show ?thesis by blast
  next
    case False
    with read nth_mod_in [of ?reps] have "ep \<in> set ?reps" by (auto simp: sbr_ResolveRead_def Let_def)
    then show ?thesis by (auto simp: Update_replicas split: if_splits)
  qed
qed

theorem resolver_uses_ready_backends_witness:
  "sbr_Resolve (sbr_Update NewStatusBackendResolver [demo_status]) ''shard-0'' = Inr ''p'' \<and> ss_Name demo_status = ''shard-0''"
proof -
  have eq: "sbr_Resolve (sbr_Update NewStatusBackendResolver [demo_status]) ''shard-0'' = Inr ''p''" by code_simp
  with resolver_uses_ready_backends [of NewStatusBackendResolver "[demo_status]" "''shard-0''" "''p''"]
  show ?thesis by auto
qed

text \<open>Reads are spread fairly. As long as the cursor does not wrap around, as many successive reads as
  a shard has usable replicas reach each of them.\<close>

theorem reads_reach_every_replica:
  assumes "sbr_replicas r s \<noteq> []" and "sbr_rr r s + length (sbr_replicas r s) \<le> 2 ^ 30"
  shows "set (reads (length (sbr_replicas r s)) r s) = Inr ` set (sbr_replicas r s)"
proof -
  let ?reps = "sbr_replicas r s" and ?c = "sbr_rr r s"
  have "set (reads (length ?reps) r s) = (\<lambda>k. Inr (?reps ! ((?c + k) mod length ?reps))) ` {..<length ?reps}"
    using reads_round_robin [OF refl assms] by (simp add: atLeast0LessThan)
  also have "\<dots> = Inr ` ((!) ?reps) ` ((\<lambda>k. (?c + k) mod length ?reps) ` {..<length ?reps})"
    by (simp add: image_image)
  also have "(\<lambda>k. (?c + k) mod length ?reps) ` {..<length ?reps} = {..<length ?reps}"
    using assms(1) mod_shift_surj [of _ "length ?reps" ?c] by (auto simp: image_iff)
  also have "((!) ?reps) ` {..<length ?reps} = set ?reps"
    using nth_image [of "length ?reps" ?reps] by (simp add: atLeast0LessThan)
  finally show ?thesis .
qed

theorem reads_reach_every_replica_witness:
  "set (reads 2 (sbr_Update NewStatusBackendResolver [demo_status]) ''shard-0'') = {Inr ''r1'', Inr ''r2''}"
proof -
  let ?r = "sbr_Update NewStatusBackendResolver [demo_status]"
  have reps: "sbr_replicas ?r ''shard-0'' = [''r1'', ''r2'']"
    by (simp add: Update_replicas demo_status_def demo_endpoint_def NewStatusBackendResolver_def readable_replica_def)
  then have "set (reads (length (sbr_replicas ?r ''shard-0'')) ?r ''shard-0'') = Inr ` set (sbr_replicas ?r ''shard-0'')"
    by (intro reads_reach_every_replica) (simp_all add: NewStatusBackendResolver_def)
  moreover have "length (sbr_replicas ?r ''shard-0'') = 2" by (simp add: reps)
  ultimately show ?thesis by (simp only: reps) simp
qed

text \<open>C27: A topology provider never serves the topology of another cluster or keyspace. From an empty
  cache, after any sequence of \<open>Current\<close> and \<open>Refresh\<close> calls and API failures, the topology it
  returns is the one of its own cluster and keyspace; a failed listing leaves the cache alone.\<close>

theorem provider_serves_own_topology:
  assumes "ctp_cached p = None" and "fst (ctp_Current (foldl provider_step p es) listed) = Inr t"
  shows "top_Cluster t = ctp_Cluster p \<and> top_Keyspace t = ctp_Keyspace p \<and>
         sr_Cluster (top_Spec t) = ctp_Cluster p \<and> sr_Keyspace (top_Spec t) = ctp_Keyspace p \<and>
         provider_step q (CallRefresh None) = q"
proof -
  let ?q = "foldl provider_step p es"
  have "provider_ok p" using assms(1) by (simp add: provider_ok_def)
  then have "provider_ok (provider_step ?q (CallCurrent listed))"
    by (intro provider_step_ok provider.run_inv)
  moreover have "ctp_cached (snd (ctp_Current ?q listed)) = Some t"
    using assms(2) by (auto simp: ctp_Current_def ctp_Refresh_def Let_def split: option.splits)
  moreover have "ctp_Cluster (provider_step ?q (CallCurrent listed)) = ctp_Cluster p"
    "ctp_Keyspace (provider_step ?q (CallCurrent listed)) = ctp_Keyspace p"
    using provider_run_config [of p "es @ [CallCurrent listed]"] by simp_all
  ultimately show ?thesis by (simp add: provider_ok_def ctp_Refresh_def)
qed

theorem provider_serves_own_topology_witness:
  "top_Cluster demo_topology = ''demo'' \<and>
   (\<exists>t. fst (ctp_Current \<lparr>ctp_Cluster = ''demo'', ctp_Keyspace = ''app'', ctp_ClearCacheOnMissing = False, ctp_cached = None\<rparr>
          (Some [top_Spec demo_topology])) = Inr t \<and> top_Cluster t = ''demo'')"
proof -
  let ?p = "\<lparr>ctp_Cluster = ''demo'', ctp_Keyspace = ''app'', ctp_ClearCacheOnMissing = False, ctp_cached = None\<rparr>"
  have eq: "fst (ctp_Current (foldl provider_step ?p []) (Some [top_Spec demo_topology])) = Inr demo_topology"
    by (simp add: ctp_Current_def ctp_Refresh_def Let_def demo_topology_def demo_simps)
  from provider_serves_own_topology [OF _ eq] eq show ?thesis by simp
qed

end
