(* ===== verification/Session.thy ===== *)
theory Session
  imports Query_Router Pgwire
begin

text \<open>
  The session of one client of the router process: \<open>querymode.go\<close>, \<open>persession.go\<close> and \<open>extsession.go\<close>.

  Opening a backend connection (dial, startup, authentication) and writing to it are arguments: they change
  the world of the backends, and a write returns the bytes that the backend sends before the next write to it.
  Reading takes messages from the bytes that have arrived; when none is left the connection has ended. Writing to the client
  succeeds. The texts of errors are arguments, too. The topology may change between messages: every message comes with the router
  state that is current when it is handled.
\<close>

section \<open>The router of a session\<close>

record queryRouter =
  qm_Current :: "(router_error, Topology) result"
  qm_extractor :: RouteKeyExtractor
  qm_write :: BackendResolver
  qm_read :: "BackendResolver option"

definition routeSQL :: "queryRouter \<Rightarrow> string \<Rightarrow> RouteDecision \<times> router_error option" where
  "routeSQL qr sql =
     (case qm_Current qr of
        Inl e \<Rightarrow> (no_decision, Some e)
      | Inr topo \<Rightarrow>
          Route \<lparr>qr_Topology = topo, qr_Extractor = Some (qm_extractor qr), qr_Write = Some (qm_write qr), qr_Read = qm_read qr\<rparr> sql)"

definition routeKey :: "queryRouter \<Rightarrow> string \<Rightarrow> bool \<Rightarrow> RouteDecision \<times> router_error option" where
  "routeKey qr key read =
     (case qm_Current qr of
        Inl e \<Rightarrow> (no_decision, Some e)
      | Inr topo \<Rightarrow>
          if \<not> read \<and> sr_WriteBlocked (top_Spec topo) then (no_decision, Some ErrWriteBlocked)
          else case ResolveShard (top_Spec topo) key of
            Inl e \<Rightarrow> (no_decision, Some e)
          | Inr shard \<Rightarrow>
              (case (case qm_read qr of Some r \<Rightarrow> if read then r else qm_write qr | None \<Rightarrow> qm_write qr) shard of
                 Inl e \<Rightarrow> (no_decision, Some e)
               | Inr backend \<Rightarrow> (\<lparr>rd_Shard = shard, rd_Backend = backend, rd_Read = read, rd_Scatter = False\<rparr>, None)))"

definition shardColumn :: "queryRouter \<Rightarrow> string" where
  "shardColumn qr = (case qm_Current qr of Inl e \<Rightarrow> [] | Inr topo \<Rightarrow> vindex_Column (sr_Vindex (top_Spec topo)))"

definition anyShard :: "queryRouter \<Rightarrow> (router_error, string \<times> string) result" where
  "anyShard qr =
     (case qm_Current qr of
        Inl e \<Rightarrow> Inl e
      | Inr topo \<Rightarrow>
          (case AnyShard topo of
             Inl e \<Rightarrow> Inl e
           | Inr shard \<Rightarrow> (case qm_write qr shard of Inl e \<Rightarrow> Inl e | Inr backend \<Rightarrow> Inr (shard, backend))))"

fun shard_backends :: "BackendResolver \<Rightarrow> string set \<Rightarrow> ShardRangeEntry list \<Rightarrow> (router_error, (string \<times> string) list) result" where
  "shard_backends write seen [] = Inr []"
| "shard_backends write seen (r # rs) =
     (if entry_Shard r = [] \<or> entry_Shard r \<in> seen then shard_backends write seen rs
      else case write (entry_Shard r) of
        Inl e \<Rightarrow> Inl e
      | Inr backend \<Rightarrow>
          (case shard_backends write (insert (entry_Shard r) seen) rs of
             Inl e \<Rightarrow> Inl e
           | Inr out \<Rightarrow> Inr ((entry_Shard r, backend) # out)))"

definition allShards :: "queryRouter \<Rightarrow> (router_error, (string \<times> string) list) result" where
  "allShards qr =
     (case qm_Current qr of Inl e \<Rightarrow> Inl e | Inr topo \<Rightarrow> shard_backends (qm_write qr) {} (sr_Ranges (top_Spec topo)))"

section \<open>State and effects\<close>

record pstmt =
  ps_name :: string
  ps_sql :: string
  ps_paramIdx :: int
  ps_parseMsg :: pgMessage

text \<open>\<open>s_sent\<close> and \<open>s_client\<close> record what was written to the backends and to the client.\<close>

record 'w session =
  s_world :: 'w
  s_inbox :: "nat \<Rightarrow> string"
  s_sent :: "(nat \<times> pgMessage) list"
  s_client :: "pgMessage list"
  s_backends :: "string \<rightharpoonup> nat"
  s_inTx :: bool
  s_pendingBegin :: pgMessage
  s_txBackend :: "nat option"
  s_extBuf :: "pgMessage list"
  s_stmts :: "string \<rightharpoonup> pstmt"
  s_backendStmts :: "nat \<Rightarrow> string set"

record 'w backend_env =
  be_open :: "string \<Rightarrow> 'w \<Rightarrow> (string, nat) result \<times> 'w"
  be_send :: "nat \<Rightarrow> pgMessage \<Rightarrow> 'w \<Rightarrow> (string, string) result \<times> 'w"
  be_routeText :: "router_error \<Rightarrow> string"
  be_readText :: "wire_error \<Rightarrow> string"

definition new_session :: "'w \<Rightarrow> 'w session" where
  "new_session w =
     \<lparr>s_world = w, s_inbox = (\<lambda>_. []), s_sent = [], s_client = [], s_backends = Map.empty, s_inTx = False,
      s_pendingBegin = \<lparr>pm_Type = CHR 0x00, pm_Payload = []\<rparr>, s_txBackend = None, s_extBuf = [], s_stmts = Map.empty,
      s_backendStmts = (\<lambda>_. {})\<rparr>"

definition to_client :: "pgMessage list \<Rightarrow> 'w session \<Rightarrow> 'w session" where
  "to_client ms s = s\<lparr>s_client := s_client s @ ms\<rparr>"

text \<open>\<open>writeMessage\<close> to a backend, \<open>None\<close> for success; the bytes that come back are appended to what is unread.\<close>

definition to_backend :: "'w backend_env \<Rightarrow> nat \<Rightarrow> pgMessage \<Rightarrow> 'w session \<Rightarrow> string option \<times> 'w session" where
  "to_backend env c m s =
     (case be_send env c m (s_world s) of
        (Inl e, w) \<Rightarrow> (Some e, s\<lparr>s_world := w\<rparr>)
      | (Inr bs, w) \<Rightarrow>
          (None, s\<lparr>s_world := w, s_inbox := (s_inbox s)(c := s_inbox s c @ bs), s_sent := s_sent s @ [(c, m)]\<rparr>))"

fun all_to_backend :: "'w backend_env \<Rightarrow> nat \<Rightarrow> pgMessage list \<Rightarrow> 'w session \<Rightarrow> string option \<times> 'w session" where
  "all_to_backend env c [] s = (None, s)"
| "all_to_backend env c (m # ms) s =
     (case to_backend env c m s of
        (Some e, s) \<Rightarrow> (Some e, s)
      | (None, s) \<Rightarrow> all_to_backend env c ms s)"

text \<open>The loop that relays an answer, in \<open>execAndRelay\<close> and in \<open>relayExtended\<close>: the relayed messages, whether \<open>ReadyForQuery\<close> was reached, and the unread bytes. The
  first \<open>n\<close> messages \<open>ParseComplete\<close> are swallowed.\<close>

function relay_bytes :: "nat \<Rightarrow> string \<Rightarrow> pgMessage list \<times> bool \<times> string" where
  "relay_bytes n bs =
     (case readMessage bs of
        Inl e \<Rightarrow> ([], False, bs)
      | Inr (m, rest) \<Rightarrow>
          if pm_Type m = CHR ''1'' \<and> 0 < n then relay_bytes (n - 1) rest
          else if pm_Type m = CHR ''Z'' then ([m], True, rest)
          else case relay_bytes n rest of (ms, ok, r) \<Rightarrow> (m # ms, ok, r))"
  by pat_completeness auto
termination
  by (relation "measure (\<lambda>(n, bs). length bs)") (auto dest: readMessage_shorter)

declare relay_bytes.simps [simp del]

definition relayExtended :: "nat \<Rightarrow> nat \<Rightarrow> 'w session \<Rightarrow> bool \<times> 'w session" where
  "relayExtended c swallow s =
     (case relay_bytes swallow (s_inbox s c) of
        (ms, ok, rest) \<Rightarrow> (ok, to_client ms (s\<lparr>s_inbox := (s_inbox s)(c := rest)\<rparr>)))"

definition execAndRelay :: "'w backend_env \<Rightarrow> nat \<Rightarrow> pgMessage \<Rightarrow> 'w session \<Rightarrow> bool \<times> 'w session" where
  "execAndRelay env c m s =
     (case to_backend env c m s of
        (Some e, s) \<Rightarrow> (False, s)
      | (None, s) \<Rightarrow> relayExtended c 0 s)"

text \<open>\<open>None\<close> is success.\<close>

function drain_bytes :: "'w backend_env \<Rightarrow> string \<Rightarrow> string option \<times> string" where
  "drain_bytes env bs =
     (case readMessage bs of
        Inl e \<Rightarrow> (Some (be_readText env e), bs)
      | Inr (m, rest) \<Rightarrow>
          if pm_Type m = CHR ''E'' then (Some (''backend error: '' @ pm_Payload m), rest)
          else if pm_Type m = CHR ''Z'' then (None, rest)
          else drain_bytes env rest)"
  by pat_completeness auto
termination
  by (relation "measure (\<lambda>(env, bs). length bs)") (auto dest: readMessage_shorter)

declare drain_bytes.simps [simp del]

definition drainResponse :: "'w backend_env \<Rightarrow> nat \<Rightarrow> 'w session \<Rightarrow> string option \<times> 'w session" where
  "drainResponse env c s =
     (case drain_bytes env (s_inbox s c) of (err, rest) \<Rightarrow> (err, s\<lparr>s_inbox := (s_inbox s)(c := rest)\<rparr>))"

definition backendFor :: "'w backend_env \<Rightarrow> string \<Rightarrow> 'w session \<Rightarrow> (string, nat) result \<times> 'w session" where
  "backendFor env backend s =
     (case s_backends s backend of
        Some c \<Rightarrow> (Inr c, s)
      | None \<Rightarrow>
          (case be_open env backend (s_world s) of
             (Inl e, w) \<Rightarrow> (Inl e, s\<lparr>s_world := w\<rparr>)
           | (Inr c, w) \<Rightarrow> (Inr c, s\<lparr>s_world := w, s_backends := (s_backends s)(backend \<mapsto> c)\<rparr>)))"

definition ready :: "char \<Rightarrow> pgMessage" where
  "ready status = \<lparr>pm_Type = CHR ''Z'', pm_Payload = [status]\<rparr>"

definition queryError :: "string \<Rightarrow> string \<Rightarrow> 'w session \<Rightarrow> 'w session" where
  "queryError code msg s = to_client [pg_error code msg, ready (if s_inTx s then CHR ''E'' else CHR ''I'')] s"

definition fabricateBegin :: "pgMessage list" where
  "fabricateBegin = [\<lparr>pm_Type = CHR ''C'', pm_Payload = cstring ''BEGIN''\<rparr>, ready CHR ''T'']"

definition firstKeyword :: "string \<Rightarrow> string" where
  "firstKeyword sql =
     (let sp = {CHR '' '', CHR 0x09, CHR 0x0D, CHR 0x0A, CHR ''(''} in
      ToLower (takeWhile (\<lambda>c. c \<notin> insert CHR '';'' sp) (dropWhile (\<lambda>c. c \<in> sp) sql)))"

section \<open>Scattered queries\<close>

text \<open>The goroutines of a scattered query work on connections of their own; they run one after the other here.\<close>

definition scatterOne :: "'w backend_env \<Rightarrow> string \<Rightarrow> pgMessage \<Rightarrow> 'w session \<Rightarrow> shardResult \<times> 'w session" where
  "scatterOne env backend query s =
     (case be_open env backend (s_world s) of
        (Inl e, w) \<Rightarrow> (ShardErr e, s\<lparr>s_world := w\<rparr>)
      | (Inr c, w) \<Rightarrow>
          (case to_backend env c \<lparr>pm_Type = CHR ''Q'', pm_Payload = pm_Payload query\<rparr> (s\<lparr>s_world := w, s_inbox := (s_inbox s)(c := [])\<rparr>) of
             (Some e, s) \<Rightarrow> (ShardErr e, s)
           | (None, s) \<Rightarrow>
               (case readQueryResult (s_inbox s c) of
                  Inl e \<Rightarrow> (ShardErr (be_readText env e), s)
                | Inr (rd, rows, errMsg, rest) \<Rightarrow> (ShardRows rd rows errMsg, s))))"

fun scatter_all :: "'w backend_env \<Rightarrow> (string \<times> string) list \<Rightarrow> pgMessage \<Rightarrow> 'w session \<Rightarrow> (string \<times> shardResult) list \<times> 'w session" where
  "scatter_all env [] query s = ([], s)"
| "scatter_all env ((shard, backend) # sbs) query s =
     (case scatterOne env backend query s of
        (r, s) \<Rightarrow> (case scatter_all env sbs query s of (rs, s) \<Rightarrow> ((shard, r) # rs, s)))"

definition scatter_session :: "'w backend_env \<Rightarrow> queryRouter \<Rightarrow> pgMessage \<Rightarrow> 'w session \<Rightarrow> 'w session" where
  "scatter_session env qr query s =
     (case allShards qr of
        Inl e \<Rightarrow> to_client (scatterQuery None query) s
      | Inr sbs \<Rightarrow> (case scatter_all env sbs query s of (rs, s) \<Rightarrow> to_client (scatterQuery (Some rs) query) s))"

section \<open>Simple queries\<close>

text \<open>The deferred \<open>BEGIN\<close> is sent to the backend of the first routed query, which the transaction keeps. After a failed write a simple
  query ends the session without a message.\<close>

datatype pin_error = PinWrite string | PinBegin string

definition pin_tx :: "'w backend_env \<Rightarrow> nat \<Rightarrow> 'w session \<Rightarrow> pin_error option \<times> 'w session" where
  "pin_tx env c s =
     (if s_inTx s \<and> s_txBackend s = None then
        (case to_backend env c (s_pendingBegin s) s of
           (Some e, s) \<Rightarrow> (Some (PinWrite e), s)
         | (None, s) \<Rightarrow>
             (case drainResponse env c s of
                (Some e, s) \<Rightarrow> (Some (PinBegin e), s)
              | (None, s) \<Rightarrow> (None, s\<lparr>s_txBackend := Some c\<rparr>)))
      else (None, s))"

definition run_routed :: "'w backend_env \<Rightarrow> RouteDecision \<Rightarrow> pgMessage \<Rightarrow> 'w session \<Rightarrow> bool \<times> 'w session" where
  "run_routed env d m s =
     (case backendFor env (rd_Backend d) s of
        (Inl e, s) \<Rightarrow> (False, to_client [pg_error ''08006'' (''backend: '' @ e)] s)
      | (Inr c, s) \<Rightarrow>
          (case pin_tx env c s of
             (Some (PinWrite e), s) \<Rightarrow> (False, s)
           | (Some (PinBegin e), s) \<Rightarrow> (False, to_client [pg_error ''08006'' (''tx begin: '' @ e)] s)
           | (None, s) \<Rightarrow> execAndRelay env c m s))"

definition handleSimpleQuery :: "'w backend_env \<Rightarrow> queryRouter \<Rightarrow> pgMessage \<Rightarrow> 'w session \<Rightarrow> bool \<times> 'w session" where
  "handleSimpleQuery env qr m s =
     (case querySQL m of
        None \<Rightarrow> (False, to_client [pg_error ''08P01'' ''could not parse query''] s)
      | Some sql \<Rightarrow>
          (let kw = firstKeyword sql in
           case (if s_inTx s then s_txBackend s else None) of
             Some c \<Rightarrow>
               (case execAndRelay env c m s of
                  (alive, s) \<Rightarrow>
                    (alive, if kw \<in> {''commit'', ''rollback'', ''end''} then s\<lparr>s_inTx := False, s_txBackend := None\<rparr> else s))
           | None \<Rightarrow>
               if \<not> s_inTx s \<and> kw \<in> {''begin'', ''start''}
               then (True, (to_client fabricateBegin s)\<lparr>s_inTx := True, s_pendingBegin := m, s_txBackend := None\<rparr>)
               else
                 (case routeSQL qr sql of
                    (d, err) \<Rightarrow>
                      if rd_Scatter d then
                        (if \<not> IsReadOnlyQuery sql then (True, queryError ''0A000'' ''cannot scatter a keyless write query'' s)
                         else if s_inTx s then (True, queryError ''0A000'' ''cannot scatter a keyless query inside a transaction'' s)
                         else (True, scatter_session env qr m s))
                      else case err of
                        Some e \<Rightarrow>
                          if e = ErrWriteBlocked then (True, queryError ''25006'' (be_routeText env e) s)
                          else if e = ErrCrossShardInsert then (True, queryError ''0A000'' (be_routeText env e) s)
                          else (True, queryError ''08006'' (''routing failed: '' @ be_routeText env e) s)
                      | None \<Rightarrow> run_routed env d m s)))"

section \<open>The extended protocol\<close>

definition registerParse :: "queryRouter \<Rightarrow> pgMessage \<Rightarrow> 'w session \<Rightarrow> 'w session" where
  "registerParse qr m s =
     (case parseSQL m of
        None \<Rightarrow> s
      | Some sql \<Rightarrow>
          (let name = parseStmtName m;
               idx = (case ExtractParamRef sql (shardColumn qr) of Some i \<Rightarrow> i | None \<Rightarrow> 0)
           in s\<lparr>s_stmts := (s_stmts s)(name \<mapsto> \<lparr>ps_name = name, ps_sql = sql, ps_paramIdx = idx, ps_parseMsg = m\<rparr>),
                s_backendStmts := (\<lambda>c. s_backendStmts s c - {name})\<rparr>))"

text \<open>An error followed by \<open>ReadyForQuery\<close> with the status \<open>T\<close> inside a transaction.\<close>

definition sendReadyIdle :: "'w session \<Rightarrow> 'w session" where
  "sendReadyIdle s = to_client [ready (if s_inTx s then CHR ''T'' else CHR ''I'')] s"

definition ext_error :: "string \<Rightarrow> string \<Rightarrow> 'w session \<Rightarrow> bool \<times> 'w session" where
  "ext_error code msg s = (True, sendReadyIdle (to_client [pg_error code msg] s))"

definition backendForRouted :: "'w backend_env \<Rightarrow> RouteDecision \<Rightarrow> 'w session \<Rightarrow> (string, nat) result \<times> 'w session" where
  "backendForRouted env d s =
     (case (if s_inTx s then s_txBackend s else None) of
        Some c \<Rightarrow> (Inr c, s)
      | None \<Rightarrow>
          (case backendFor env (rd_Backend d) s of
             (Inl e, s) \<Rightarrow> (Inl e, s)
           | (Inr c, s) \<Rightarrow>
               (case pin_tx env c s of
                  (Some (PinWrite e), s) \<Rightarrow> (Inl e, s)
                | (Some (PinBegin e), s) \<Rightarrow> (Inl e, s)
                | (None, s) \<Rightarrow> (Inr c, s))))"

definition describeBackend :: "'w backend_env \<Rightarrow> queryRouter \<Rightarrow> 'w session \<Rightarrow> (string, nat) result \<times> 'w session" where
  "describeBackend env qr s =
     (case (if s_inTx s then s_txBackend s else None) of
        Some c \<Rightarrow> (Inr c, s)
      | None \<Rightarrow>
          (case anyShard qr of
             Inl e \<Rightarrow> (Inl (be_routeText env e), s)
           | Inr (shard, backend) \<Rightarrow> backendFor env backend s))"

definition mark_prepared :: "nat \<Rightarrow> string set \<Rightarrow> 'w session \<Rightarrow> 'w session" where
  "mark_prepared c names s = s\<lparr>s_backendStmts := (s_backendStmts s)(c := s_backendStmts s c \<union> names)\<rparr>"

definition is_parse :: "pgMessage \<Rightarrow> bool" where
  "is_parse m \<longleftrightarrow> pm_Type m = CHR ''P''"

text \<open>The messages of the batch go to the backend with the \<open>Parse\<close> messages first, after an injected one when the statement of the first
  \<open>Bind\<close> is not prepared there.\<close>

definition send_batch :: "'w backend_env \<Rightarrow> nat \<Rightarrow> pstmt \<Rightarrow> string \<Rightarrow> pgMessage list \<Rightarrow> 'w session \<Rightarrow> bool \<times> 'w session" where
  "send_batch env c st stmtName batch s =
     (let parses = filter is_parse batch;
          others = filter (\<lambda>m. \<not> is_parse m \<and> pm_Type m \<noteq> CHR ''S'') batch;
          known = s_backendStmts s c \<union> set (map parseStmtName parses);
          injected = (if stmtName \<in> known then [] else [ps_parseMsg st]);
          s = mark_prepared c (insert stmtName (set (map parseStmtName parses))) s
      in case all_to_backend env c (injected @ parses @ others @ [\<lparr>pm_Type = CHR ''S'', pm_Payload = []\<rparr>]) s of
           (Some e, s) \<Rightarrow> (False, s)
         | (None, s) \<Rightarrow> relayExtended c (length injected) s)"

text \<open>The decision for a batch: by the bound value of the parameter compared with the routing column, else by the text.\<close>

definition bind_route :: "queryRouter \<Rightarrow> pstmt \<Rightarrow> pgMessage \<Rightarrow> (RouteDecision \<times> router_error option) option" where
  "bind_route qr st bind =
     (if 0 < ps_paramIdx st then
        (case bindParams bind of
           None \<Rightarrow> None
         | Some params \<Rightarrow>
             if int (length params) \<le> ps_paramIdx st - 1 then None
             else map_option (\<lambda>v. routeKey qr v (IsReadOnlyQuery (ps_sql st))) (params ! nat (ps_paramIdx st - 1)))
      else Some (routeSQL qr (ps_sql st)))"

definition runExtendedExec ::
  "'w backend_env \<Rightarrow> queryRouter \<Rightarrow> pgMessage list \<Rightarrow> pgMessage \<Rightarrow> 'w session \<Rightarrow> bool \<times> 'w session" where
  "runExtendedExec env qr batch bind s =
     (let stmtName = bindStmtName bind in
      case s_stmts s stmtName of
        None \<Rightarrow> ext_error ''26000'' (''prepared statement not found: '' @ stmtName) s
      | Some st \<Rightarrow>
          (case bind_route qr st bind of
             None \<Rightarrow> ext_error ''08006'' ''could not extract routing parameter from Bind'' s
           | Some (d, err) \<Rightarrow>
               if err = Some ErrWriteBlocked then ext_error ''25006'' (be_routeText env ErrWriteBlocked) s
               else if err \<noteq> None \<or> rd_Scatter d
               then ext_error ''08006'' ''extended routing failed (no routing key; extended scatter unsupported)'' s
               else case backendForRouted env d s of
                 (Inl e, s) \<Rightarrow> (False, to_client [pg_error ''08006'' (''backend: '' @ e)] s)
               | (Inr c, s) \<Rightarrow> send_batch env c st stmtName batch s))"

text \<open>The names are marked while the messages are written; they are read only after the last write.\<close>

definition runDescribeOnly :: "'w backend_env \<Rightarrow> queryRouter \<Rightarrow> pgMessage list \<Rightarrow> 'w session \<Rightarrow> bool \<times> 'w session" where
  "runDescribeOnly env qr batch s =
     (case describeBackend env qr s of
        (Inl e, s) \<Rightarrow> ext_error ''08006'' (''describe-round: '' @ e) s
      | (Inr c, s) \<Rightarrow>
          (case all_to_backend env c batch (mark_prepared c (set (map parseStmtName (filter is_parse batch))) s) of
             (Some e, s) \<Rightarrow> (False, s)
           | (None, s) \<Rightarrow> relayExtended c 0 s))"

definition handleClose :: "pgMessage \<Rightarrow> 'w session \<Rightarrow> 'w session" where
  "handleClose m s =
     (case pm_Payload m of
        [] \<Rightarrow> s
      | k # rest \<Rightarrow>
          if k \<noteq> CHR ''S'' then s else s\<lparr>s_stmts := (s_stmts s)(TrimRight (\<lambda>c. c = CHR 0x00) rest := None)\<rparr>)"

fun synth_acks :: "pgMessage list \<Rightarrow> 'w session \<Rightarrow> 'w session" where
  "synth_acks [] s = s"
| "synth_acks (m # ms) s =
     synth_acks ms
       (if pm_Type m = CHR ''P'' then to_client [\<lparr>pm_Type = CHR ''1'', pm_Payload = []\<rparr>] s
        else if pm_Type m = CHR ''C'' then to_client [\<lparr>pm_Type = CHR ''3'', pm_Payload = []\<rparr>] (handleClose m s)
        else s)"

definition synthExtendedAcks :: "pgMessage list \<Rightarrow> 'w session \<Rightarrow> bool \<times> 'w session" where
  "synthExtendedAcks batch s = (True, sendReadyIdle (synth_acks batch s))"

definition handleExtendedBatch :: "'w backend_env \<Rightarrow> queryRouter \<Rightarrow> 'w session \<Rightarrow> bool \<times> 'w session" where
  "handleExtendedBatch env qr s =
     (let batch = s_extBuf s; s = s\<lparr>s_extBuf := []\<rparr> in
      if batch = [] then (True, s)
      else
        let s = foldl (\<lambda>s m. registerParse qr m s) s (filter is_parse batch) in
        case find (\<lambda>m. pm_Type m = CHR ''B'') batch of
          Some bind \<Rightarrow> runExtendedExec env qr batch bind s
        | None \<Rightarrow>
            if list_ex (\<lambda>m. pm_Type m = CHR ''D'') batch then runDescribeOnly env qr batch s
            else synthExtendedAcks batch s)"

section \<open>The session loop\<close>

text \<open>\<open>%q\<close> of a byte: a quoted rune.\<close>

definition quote_byte :: "char \<Rightarrow> string" where
  "quote_byte c =
     (let n = of_char c :: nat;
          escapes = [(7, CHR ''a''), (8, CHR ''b''), (12, CHR 0x66), (10, CHR ''n''), (13, CHR ''r''), (9, CHR ''t''), (11, CHR ''v''),
                     (92, CHR 0x5c), (39, CHR 0x27)];
          body = (case map_of escapes n of
                    Some e \<Rightarrow> [CHR 0x5c, e]
                  | None \<Rightarrow>
                      if 32 \<le> n \<and> n < 127 then [c]
                      else if n < 128 then CHR 0x5c # ''x'' @ fixed_hex 2 n
                      else if 161 \<le> n \<and> n \<noteq> 173 then map char_of [192 + n div 64, 128 + n mod 64]
                      else CHR 0x5c # ''u'' @ fixed_hex 4 n)
      in CHR 0x27 # body @ [CHR 0x27])"

definition session_step :: "'w backend_env \<Rightarrow> queryRouter \<Rightarrow> pgMessage \<Rightarrow> 'w session \<Rightarrow> bool \<times> 'w session" where
  "session_step env qr m s =
     (let t = pm_Type m in
      if t = CHR ''X'' then (False, s)
      else if t = CHR ''Q'' then handleSimpleQuery env qr m s
      else if t \<in> {CHR ''P'', CHR ''B'', CHR ''D'', CHR ''E'', CHR ''C'', CHR ''H''} then (True, s\<lparr>s_extBuf := s_extBuf s @ [m]\<rparr>)
      else if t = CHR ''S'' then handleExtendedBatch env qr (s\<lparr>s_extBuf := s_extBuf s @ [m]\<rparr>)
      else (False, to_client [pg_error ''0A000'' (''message type '' @ quote_byte t @ '' not supported in per-query mode'')] s))"

text \<open>The messages of the client with the router state at the time of each; the end of the list is the end of its connection.\<close>

fun runPerQuerySession :: "'w backend_env \<Rightarrow> (queryRouter \<times> pgMessage) list \<Rightarrow> 'w session \<Rightarrow> 'w session" where
  "runPerQuerySession env [] s = s"
| "runPerQuerySession env ((qr, m) # ms) s =
     (case session_step env qr m s of
        (False, s) \<Rightarrow> s
      | (True, s) \<Rightarrow> runPerQuerySession env ms s)"

lemmas session_defs = to_client_def sendReadyIdle_def ext_error_def queryError_def mark_prepared_def

end
