(* ===== verification/Session_Correct.thy ===== *)
theory Session_Correct
  imports Session
begin

text \<open>
  Correctness of client sessions: every request is answered once, simple queries go where the router sends them,
  a transaction stays on one backend, and a bound statement is prepared where it is bound.
\<close>

section \<open>Answers\<close>

text \<open>Messages that end with the only \<open>ReadyForQuery\<close> among them.\<close>

definition complete_answer :: "pgMessage list \<Rightarrow> bool" where
  "complete_answer ms \<longleftrightarrow> ms \<noteq> [] \<and> pm_Type (last ms) = CHR ''Z'' \<and> (\<forall>m\<in>set (butlast ms). pm_Type m \<noteq> CHR ''Z'')"

lemma complete_answer_Cons:
  "complete_answer ms \<Longrightarrow> pm_Type m \<noteq> CHR ''Z'' \<Longrightarrow> complete_answer (m # ms)"
  by (auto simp: complete_answer_def)

lemma complete_answer_append:
  "complete_answer ms \<Longrightarrow> \<forall>m\<in>set xs. pm_Type m \<noteq> CHR ''Z'' \<Longrightarrow> complete_answer (xs @ ms)"
  by (auto simp: complete_answer_def butlast_append)

lemma complete_answer_ready [simp]: "complete_answer [ready st]"
  by (simp add: complete_answer_def ready_def)

lemma pg_error_type [simp]: "pm_Type (pg_error code msg) = CHR ''E''"
  by (simp add: pg_error_def)

lemma complete_answer_error [simp]: "complete_answer [pg_error code msg, ready st]"
  by (rule complete_answer_Cons) simp_all

lemma relay_bytes_complete: "relay_bytes n bs = (ms, True, rest) \<Longrightarrow> complete_answer ms"
proof (induction n bs arbitrary: ms rest rule: relay_bytes.induct)
  case (1 n bs)
  note eq = "1.prems"
  show ?case
  proof (cases "readMessage bs")
    case (Inl e)
    with eq show ?thesis by (simp add: relay_bytes.simps [of n bs])
  next
    case (Inr p)
    obtain m r where p: "p = (m, r)" by (cases p)
    note rd = Inr [unfolded p]
    consider "pm_Type m = CHR ''1'' \<and> 0 < n" | "\<not> (pm_Type m = CHR ''1'' \<and> 0 < n)" "pm_Type m = CHR ''Z''"
      | "\<not> (pm_Type m = CHR ''1'' \<and> 0 < n)" "pm_Type m \<noteq> CHR ''Z''" by blast
    then show ?thesis
    proof cases
      case 1
      with eq rd have "relay_bytes (n - 1) r = (ms, True, rest)" by (simp add: relay_bytes.simps [of n bs])
      from "1.IH"(1) [OF rd refl 1 this] show ?thesis .
    next
      case 2
      with eq rd show ?thesis by (auto simp: relay_bytes.simps [of n bs] complete_answer_def)
    next
      case 3
      obtain ms' ok' r' where q: "relay_bytes n r = (ms', ok', r')" by (metis prod_cases3)
      with eq rd 3 have "ok'" "ms = m # ms'" by (auto simp: relay_bytes.simps [of n bs])
      with "1.IH"(2) [OF rd refl 3(1) 3(2)] q 3 show ?thesis by (auto intro: complete_answer_Cons)
    qed
  qed
qed

lemma scatterClientError_complete: "complete_answer (scatterClientError code msg)"
  using complete_answer_error [of code msg "CHR ''I''"] by (simp add: scatterClientError_def ready_def)

lemma collect_results_complete: "collect_results rs rd rows = Inl ms \<Longrightarrow> complete_answer ms"
proof (induction rs rd rows rule: collect_results.induct)
  case (2 shard e rs rd rows) then show ?case by (auto simp: scatterClientError_complete)
next
  case (3 shard rd' rows' em rs rd rows) then show ?case by (auto simp: complete_answer_def)
qed auto

lemma scatterQuery_complete: "complete_answer (scatterQuery shards query)"
proof -
  have last: "complete_answer [\<lparr>pm_Type = CHR ''C'', pm_Payload = p\<rparr>, \<lparr>pm_Type = CHR ''Z'', pm_Payload = q\<rparr>]" for p q
    by (simp add: complete_answer_def)
  have body: "complete_answer (map (\<lambda>dr. \<lparr>pm_Type = CHR ''D'', pm_Payload = pm_Payload dr\<rparr>) rows @
      [\<lparr>pm_Type = CHR ''C'', pm_Payload = p\<rparr>, \<lparr>pm_Type = CHR ''Z'', pm_Payload = q\<rparr>])" for rows :: "pgMessage list" and p q
    by (rule complete_answer_append [OF last]) auto
  have all: "complete_answer (\<lparr>pm_Type = CHR ''T'', pm_Payload = r\<rparr> # map (\<lambda>dr. \<lparr>pm_Type = CHR ''D'', pm_Payload = pm_Payload dr\<rparr>) rows @
      [\<lparr>pm_Type = CHR ''C'', pm_Payload = p\<rparr>, \<lparr>pm_Type = CHR ''Z'', pm_Payload = q\<rparr>])" for rows :: "pgMessage list" and p q r
    by (rule complete_answer_Cons [OF body]) simp
  show ?thesis
    by (auto simp: scatterQuery_def Let_def scatterClientError_complete collect_results_complete body all
        split: option.splits list.splits sum.splits)
qed

section \<open>Effects of the operations\<close>

text \<open>The control state is unchanged: everything but the world, unread bytes and the two histories.\<close>

definition frame :: "'w session \<Rightarrow> 'w session \<Rightarrow> bool" where
  "frame s s' \<longleftrightarrow> s_inTx s' = s_inTx s \<and> s_txBackend s' = s_txBackend s \<and> s_pendingBegin s' = s_pendingBegin s \<and>
     s_backends s' = s_backends s \<and> s_stmts s' = s_stmts s \<and> s_backendStmts s' = s_backendStmts s \<and> s_extBuf s' = s_extBuf s"

lemma frame_refl [simp]: "frame s s"
  by (simp add: frame_def)

lemma frame_trans: "frame s s1 \<Longrightarrow> frame s1 s2 \<Longrightarrow> frame s s2"
  by (simp add: frame_def)

lemma to_backend_effect:
  assumes "to_backend env c m s = (err, s')"
  shows "frame s s' \<and> s_client s' = s_client s \<and> s_sent s' = s_sent s @ (if err = None then [(c, m)] else [])"
  using assms by (auto simp: to_backend_def frame_def split: prod.splits sum.splits)

lemma all_to_backend_effect:
  assumes "all_to_backend env c ms s = (err, s')"
  shows "frame s s' \<and> s_client s' = s_client s \<and>
    (\<exists>n. s_sent s' = s_sent s @ map (Pair c) (take n ms) \<and> (err = None \<longrightarrow> take n ms = ms))"
  using assms
proof (induction ms arbitrary: s)
  case Nil then show ?case by simp
next
  case (Cons m ms)
  obtain e1 s1 where b: "to_backend env c m s = (e1, s1)" by (cases "to_backend env c m s")
  note f = to_backend_effect [OF b]
  show ?case
  proof (cases e1)
    case None
    with b Cons.prems have r: "all_to_backend env c ms s1 = (err, s')" by simp
    note ih = Cons.IH [OF r]
    from ih obtain n where n: "s_sent s' = s_sent s1 @ map (Pair c) (take n ms)" "err = None \<longrightarrow> take n ms = ms" by blast
    have "s_sent s' = s_sent s @ map (Pair c) (take (Suc n) (m # ms)) \<and> (err = None \<longrightarrow> take (Suc n) (m # ms) = m # ms)"
      using n f None by simp
    moreover have "frame s s'" using ih f frame_trans by blast
    moreover have "s_client s' = s_client s" using ih f by simp
    ultimately show ?thesis by blast
  next
    case (Some e)
    with b Cons.prems have e: "err = Some e" "s' = s1" by auto
    have "s_sent s' = s_sent s @ map (Pair c) (take 0 (m # ms)) \<and> (err = None \<longrightarrow> take 0 (m # ms) = m # ms)"
      using f Some e by simp
    with f e show ?thesis by blast
  qed
qed

lemma relayExtended_effect:
  assumes "relayExtended c n s = (ok, s')"
  shows "frame s s' \<and> s_sent s' = s_sent s \<and> (\<exists>ms. s_client s' = s_client s @ ms \<and> (ok \<longrightarrow> complete_answer ms))"
  using assms relay_bytes_complete [of n "s_inbox s c"]
  by (auto simp: relayExtended_def to_client_def frame_def split: prod.splits)

lemma execAndRelay_effect:
  assumes "execAndRelay env c m s = (ok, s')"
  shows "frame s s' \<and> (s_sent s' = s_sent s \<and> \<not> ok \<or> s_sent s' = s_sent s @ [(c, m)]) \<and>
    (\<exists>ms. s_client s' = s_client s @ ms \<and> (ok \<longrightarrow> complete_answer ms))"
proof -
  obtain e s1 where b: "to_backend env c m s = (e, s1)" by (cases "to_backend env c m s")
  show ?thesis
  proof (cases e)
    case None
    with assms b have r: "relayExtended c 0 s1 = (ok, s')" by (simp add: execAndRelay_def)
    from to_backend_effect [OF b] None have 1: "frame s s1" "s_client s1 = s_client s" "s_sent s1 = s_sent s @ [(c, m)]" by simp_all
    from relayExtended_effect [OF r] have 2: "frame s1 s'" "s_sent s' = s_sent s1" by simp_all
    from relayExtended_effect [OF r] obtain ms where "s_client s' = s_client s1 @ ms" "ok \<longrightarrow> complete_answer ms" by blast
    with 1 2 frame_trans [OF 1(1) 2(1)] show ?thesis by simp
  next
    case (Some x)
    with assms b have "\<not> ok" "s' = s1" by (auto simp: execAndRelay_def)
    with to_backend_effect [OF b] Some show ?thesis by simp
  qed
qed

lemma drainResponse_effect:
  "drainResponse env c s = (err, s') \<Longrightarrow> frame s s' \<and> s_sent s' = s_sent s \<and> s_client s' = s_client s"
  by (auto simp: drainResponse_def frame_def split: prod.splits)

lemma backendFor_effect:
  assumes "backendFor env b s = (r, s')"
  shows "s_sent s' = s_sent s \<and> s_client s' = s_client s \<and> frame (s\<lparr>s_backends := s_backends s'\<rparr>) s' \<and>
    (case r of Inl e \<Rightarrow> s_backends s' = s_backends s
     | Inr c \<Rightarrow> s_backends s' = (s_backends s)(b \<mapsto> c) \<and> (s_backends s b = Some c \<or> (\<exists>w w'. be_open env b w = (Inr c, w'))))"
  using assms by (auto simp: backendFor_def frame_def fun_upd_idem split: option.splits prod.splits sum.splits)

lemma pin_tx_effect:
  assumes "pin_tx env c s = (err, s')"
  shows "frame (s\<lparr>s_txBackend := s_txBackend s'\<rparr>) s' \<and> s_client s' = s_client s \<and>
    (err = None \<longrightarrow> s_txBackend s' = (if s_inTx s \<and> s_txBackend s = None then Some c else s_txBackend s) \<and>
       s_sent s' = s_sent s @ (if s_inTx s \<and> s_txBackend s = None then [(c, s_pendingBegin s)] else [])) \<and>
    (err \<noteq> None \<longrightarrow> s_inTx s \<and> s_txBackend s = None \<and> s_txBackend s' = None \<and> s_sent s' \<in> {s_sent s, s_sent s @ [(c, s_pendingBegin s)]})"
proof (cases "s_inTx s \<and> s_txBackend s = None")
  case False
  with assms show ?thesis by (auto simp: pin_tx_def frame_def split: if_splits)
next
  case True
  obtain e1 s1 where b: "to_backend env c (s_pendingBegin s) s = (e1, s1)" by (cases "to_backend env c (s_pendingBegin s) s")
  note f = to_backend_effect [OF b]
  show ?thesis
  proof (cases e1)
    case None
    obtain e2 s2 where d: "drainResponse env c s1 = (e2, s2)" by (cases "drainResponse env c s1")
    with assms True b None f drainResponse_effect [OF d] show ?thesis
      by (cases e2) (auto simp: pin_tx_def frame_def)
  next
    case (Some x)
    with assms True b f show ?thesis by (auto simp: pin_tx_def frame_def)
  qed
qed

definition answered :: "'w session \<Rightarrow> 'w session \<Rightarrow> bool" where
  "answered s s' \<longleftrightarrow> (\<exists>ms. s_client s' = s_client s @ ms \<and> complete_answer ms)"

lemma answered_error: "answered s (queryError code msg s)" and answered_ext_error: "answered s (snd (ext_error code msg s))"
  by (simp_all add: answered_def queryError_def ext_error_def sendReadyIdle_def to_client_def)

lemma relayExtended_answered:
  assumes "relayExtended c n s1 = (True, s')" and "s_client s1 = s_client s"
  shows "answered s s'"
  using relayExtended_effect [OF assms(1)] assms(2) by (auto simp: answered_def)

lemma execAndRelay_answered:
  assumes "execAndRelay env c m s1 = (True, s')" and "s_client s1 = s_client s"
  shows "answered s s'"
  using execAndRelay_effect [OF assms(1)] assms(2) by (auto simp: answered_def)

lemma run_routed_answered:
  assumes "run_routed env d m s = (True, s')"
  shows "answered s s'"
proof -
  obtain r s1 where b: "backendFor env (rd_Backend d) s = (r, s1)" by (cases "backendFor env (rd_Backend d) s")
  show ?thesis
  proof (cases r)
    case (Inl e)
    with assms b show ?thesis by (simp add: run_routed_def)
  next
    case (Inr c)
    obtain e s2 where p: "pin_tx env c s1 = (e, s2)" by (cases "pin_tx env c s1")
    from assms b Inr p have "execAndRelay env c m s2 = (True, s')"
      by (auto simp: run_routed_def split: option.splits pin_error.splits)
    moreover have "s_client s2 = s_client s" using backendFor_effect [OF b] pin_tx_effect [OF p] by simp
    ultimately show ?thesis by (rule execAndRelay_answered)
  qed
qed

text \<open>A scattered query is written to the shards of the topology and to nothing else.\<close>

lemma scatterOne_effect:
  assumes "scatterOne env b q s = (r, s')"
  shows "frame s s' \<and> s_client s' = s_client s \<and>
    (s_sent s' = s_sent s \<or>
     (\<exists>c w w'. be_open env b w = (Inr c, w') \<and> s_sent s' = s_sent s @ [(c, \<lparr>pm_Type = CHR ''Q'', pm_Payload = pm_Payload q\<rparr>)]))"
proof -
  obtain o1 w where op: "be_open env b (s_world s) = (o1, w)" by (cases "be_open env b (s_world s)")
  show ?thesis
  proof (cases o1)
    case (Inl e)
    with assms op show ?thesis by (auto simp: scatterOne_def frame_def)
  next
    case (Inr c)
    let ?s = "s\<lparr>s_world := w, s_inbox := (s_inbox s)(c := [])\<rparr>" and ?q = "\<lparr>pm_Type = CHR ''Q'', pm_Payload = pm_Payload q\<rparr>"
    obtain e s1 where t: "to_backend env c ?q ?s = (e, s1)" by (cases "to_backend env c ?q ?s")
    have "s' = s1" using assms op Inr t by (auto simp: scatterOne_def split: option.splits sum.splits prod.splits)
    moreover have "frame s ?s" by (simp add: frame_def)
    ultimately show ?thesis using to_backend_effect [OF t] frame_trans [of s ?s s'] op Inr by (cases e) auto
  qed
qed

lemma scatter_all_effect:
  "scatter_all env sbs q s = (rs, s') \<Longrightarrow>
   frame s s' \<and> s_client s' = s_client s \<and>
   (\<exists>new. s_sent s' = s_sent s @ new \<and>
      (\<forall>(c, x)\<in>set new. x = \<lparr>pm_Type = CHR ''Q'', pm_Payload = pm_Payload q\<rparr> \<and>
         (\<exists>(sh, b)\<in>set sbs. \<exists>w w'. be_open env b w = (Inr c, w'))))"
proof (induction sbs arbitrary: s rs s')
  case Nil then show ?case by simp
next
  case (Cons p sbs)
  obtain sh b where p: "p = (sh, b)" by (cases p)
  obtain r s1 where o: "scatterOne env b q s = (r, s1)" by (cases "scatterOne env b q s")
  obtain rs2 s2 where a: "scatter_all env sbs q s1 = (rs2, s2)" by (cases "scatter_all env sbs q s1")
  have s': "s' = s2" using Cons.prems p o a by simp
  note e1 = scatterOne_effect [OF o] and e2 = Cons.IH [OF a]
  let ?x = "\<lparr>pm_Type = CHR ''Q'', pm_Payload = pm_Payload q\<rparr>"
  from e1 obtain n1 where n1: "s_sent s1 = s_sent s @ n1"
    "\<forall>(c, x)\<in>set n1. x = ?x \<and> (\<exists>w w'. be_open env b w = (Inr c, w'))" by fastforce
  from e2 obtain n2 where n2: "s_sent s2 = s_sent s1 @ n2"
    "\<forall>(c, x)\<in>set n2. x = ?x \<and> (\<exists>(sh, b)\<in>set sbs. \<exists>w w'. be_open env b w = (Inr c, w'))" by blast
  have "s_sent s' = s_sent s @ (n1 @ n2)" using n1 n2 s' by simp
  moreover have "\<forall>(c, x)\<in>set (n1 @ n2). x = ?x \<and> (\<exists>(sh, b)\<in>set (p # sbs). \<exists>w w'. be_open env b w = (Inr c, w'))"
    using n1(2) n2(2) p by fastforce
  moreover have "frame s s'" "s_client s' = s_client s" using e1 e2 s' frame_trans by auto
  ultimately show ?case by blast
qed

lemma scatter_session_answered: "answered s (scatter_session env qr m s)"
proof (cases "allShards qr")
  case (Inl e)
  then show ?thesis using scatterQuery_complete by (auto simp: scatter_session_def answered_def to_client_def)
next
  case (Inr sbs)
  obtain rs s1 where a: "scatter_all env sbs m s = (rs, s1)" by (cases "scatter_all env sbs m s")
  with Inr scatter_all_effect [OF a] scatterQuery_complete show ?thesis
    by (auto simp: scatter_session_def answered_def to_client_def)
qed

lemma handleSimpleQuery_answered:
  assumes "handleSimpleQuery env qr m s = (True, s')"
  shows "answered s s'"
proof (cases "querySQL m")
  case None
  with assms show ?thesis by (simp add: handleSimpleQuery_def)
next
  case (Some sql)
  show ?thesis
  proof (cases "if s_inTx s then s_txBackend s else None")
    case (Some c)
    obtain ok s1 where e: "execAndRelay env c m s = (ok, s1)" by (cases "execAndRelay env c m s")
    with assms Some \<open>querySQL m = Some sql\<close> have "ok" "s_client s' = s_client s1"
      by (auto simp: handleSimpleQuery_def Let_def split: if_splits)
    with execAndRelay_answered [of env c m s s1 s] e show ?thesis by (simp add: answered_def)
  next
    case None
    obtain d err where r: "routeSQL qr sql = (d, err)" by (cases "routeSQL qr sql")
    have beg: "answered s ((to_client fabricateBegin s)\<lparr>s_inTx := True, s_pendingBegin := m, s_txBackend := None\<rparr>)"
      by (simp add: answered_def to_client_def fabricateBegin_def) (rule complete_answer_Cons, simp_all)
    show ?thesis
      using assms None \<open>querySQL m = Some sql\<close> r beg run_routed_answered [of env d m s s'] scatter_session_answered [of s env qr m]
        answered_error
      by (simp add: handleSimpleQuery_def Let_def split: if_splits option.splits) auto
  qed
qed

text \<open>What a batch writes to its backend.\<close>

definition injected :: "nat \<Rightarrow> pstmt \<Rightarrow> string \<Rightarrow> pgMessage list \<Rightarrow> 'w session \<Rightarrow> pgMessage list" where
  "injected c st n batch s =
     (if n \<in> s_backendStmts s c \<union> set (map parseStmtName (filter is_parse batch)) then [] else [ps_parseMsg st])"

definition batch_messages :: "pgMessage list \<Rightarrow> pgMessage list" where
  "batch_messages batch =
     filter is_parse batch @ filter (\<lambda>m. \<not> is_parse m \<and> pm_Type m \<noteq> CHR ''S'') batch @ [\<lparr>pm_Type = CHR ''S'', pm_Payload = []\<rparr>]"

lemma send_batchE:
  assumes "send_batch env c st n batch s = (ok, s')"
  obtains e s1 where
    "all_to_backend env c (injected c st n batch s @ batch_messages batch)
       (mark_prepared c (insert n (set (map parseStmtName (filter is_parse batch)))) s) = (e, s1)"
    "e \<noteq> None \<and> \<not> ok \<and> s' = s1 \<or> e = None \<and> relayExtended c (length (injected c st n batch s)) s1 = (ok, s')"
proof -
  let ?a = "all_to_backend env c (injected c st n batch s @ batch_messages batch)
       (mark_prepared c (insert n (set (map parseStmtName (filter is_parse batch)))) s)"
  obtain e s1 where a: "?a = (e, s1)" by (cases ?a)
  have "send_batch env c st n batch s =
      (case ?a of (Some e, s) \<Rightarrow> (False, s) | (None, s') \<Rightarrow> relayExtended c (length (injected c st n batch s)) s')"
    by (simp only: send_batch_def Let_def injected_def batch_messages_def append.assoc)
  with assms a have "e \<noteq> None \<and> \<not> ok \<and> s' = s1 \<or> e = None \<and> relayExtended c (length (injected c st n batch s)) s1 = (ok, s')"
    by (cases e) auto
  with a that show ?thesis by blast
qed

lemma send_batch_answered:
  assumes "send_batch env c st n batch s = (True, s')"
  shows "answered s s'"
proof -
  from send_batchE [OF assms] obtain s1 e
    where a: "all_to_backend env c (injected c st n batch s @ batch_messages batch)
       (mark_prepared c (insert n (set (map parseStmtName (filter is_parse batch)))) s) = (e, s1)"
      and r: "relayExtended c (length (injected c st n batch s)) s1 = (True, s')" by metis
  have "s_client s1 = s_client s" using all_to_backend_effect [OF a] by (simp add: mark_prepared_def)
  with r show ?thesis by (rule relayExtended_answered)
qed

lemma backendForRouted_client: "backendForRouted env d s = (r, s') \<Longrightarrow> s_client s' = s_client s"
  using backendFor_effect [of env "rd_Backend d" s] pin_tx_effect [of env]
  by (fastforce simp: backendForRouted_def split: option.splits prod.splits sum.splits pin_error.splits if_splits)

lemma describeBackend_client: "describeBackend env qr s = (r, s') \<Longrightarrow> s_client s' = s_client s"
  using backendFor_effect [of env _ s]
  by (auto simp: describeBackend_def split: option.splits prod.splits sum.splits if_splits)

lemma runExtendedExec_answered:
  assumes "runExtendedExec env qr batch bind s = (True, s')"
  shows "answered s s'"
proof -
  have err: "answered s s'" if "ext_error code msg s = (True, s')" for code msg
    using answered_ext_error [of s code msg] that by simp
  show ?thesis
  proof (cases "s_stmts s (bindStmtName bind)")
    case None
    with assms show ?thesis by (auto simp: runExtendedExec_def Let_def intro: err)
  next
    case (Some st)
    show ?thesis
    proof (cases "bind_route qr st bind")
      case None
      with assms Some show ?thesis by (auto simp: runExtendedExec_def Let_def intro: err)
    next
      case r: (Some p)
      obtain d e where p: "p = (d, e)" by (cases p)
      obtain q s1 where b: "backendForRouted env d s = (q, s1)" by (cases "backendForRouted env d s")
      note c = backendForRouted_client [OF b]
      have snd: "answered s s'" if "send_batch env k st n batch s1 = (True, s')" for k n
        using send_batch_answered [OF that] c by (simp add: answered_def)
      show ?thesis using assms Some r p b by (auto simp: runExtendedExec_def Let_def split: if_splits sum.splits intro: err snd)
    qed
  qed
qed

lemma runDescribeOnly_answered:
  assumes "runDescribeOnly env qr batch s = (True, s')"
  shows "answered s s'"
proof -
  obtain r s1 where d: "describeBackend env qr s = (r, s1)" by (cases "describeBackend env qr s")
  note c = describeBackend_client [OF d]
  show ?thesis
  proof (cases r)
    case (Inl e)
    with assms d have "s' = snd (ext_error ''08006'' (''describe-round: '' @ e) s1)" by (simp add: runDescribeOnly_def)
    with answered_ext_error [of s1 "''08006''" "''describe-round: '' @ e"] c show ?thesis by (simp add: answered_def)
  next
    case (Inr k)
    let ?s = "mark_prepared k (set (map parseStmtName (filter is_parse batch))) s1"
    obtain e s2 where a: "all_to_backend env k batch ?s = (e, s2)" by (cases "all_to_backend env k batch ?s")
    from assms d Inr a have "relayExtended k 0 s2 = (True, s')" by (cases e) (simp_all add: runDescribeOnly_def)
    moreover have "s_client s2 = s_client s" using all_to_backend_effect [OF a] c by (simp add: mark_prepared_def)
    ultimately show ?thesis by (rule relayExtended_answered)
  qed
qed

lemma handleClose_client [simp]: "s_client (handleClose m s) = s_client s" and handleClose_sent [simp]: "s_sent (handleClose m s) = s_sent s"
  by (simp_all add: handleClose_def split: list.splits)

lemma synth_acks_client:
  "\<exists>ms. s_client (synth_acks batch s) = s_client s @ ms \<and> (\<forall>m\<in>set ms. pm_Type m \<noteq> CHR ''Z'')"
proof (induction batch s rule: synth_acks.induct)
  case (2 m ms s)
  then obtain as where as: "s_client (synth_acks (m # ms) s) = s_client (if pm_Type m = CHR ''P'' then to_client [\<lparr>pm_Type = CHR ''1'', pm_Payload = []\<rparr>] s
        else if pm_Type m = CHR ''C'' then to_client [\<lparr>pm_Type = CHR ''3'', pm_Payload = []\<rparr>] (handleClose m s)
        else s) @ as" "\<forall>m\<in>set as. pm_Type m \<noteq> CHR ''Z''" by auto
  show ?case
    using as by (cases "pm_Type m = CHR ''P''"; cases "pm_Type m = CHR ''C''") (auto simp: to_client_def)
qed simp

lemma synthExtendedAcks_answered: "answered s (snd (synthExtendedAcks batch s))"
proof -
  obtain ms where "s_client (synth_acks batch s) = s_client s @ ms" "\<forall>m\<in>set ms. pm_Type m \<noteq> CHR ''Z''"
    using synth_acks_client by blast
  then show ?thesis
    by (auto simp: synthExtendedAcks_def sendReadyIdle_def answered_def to_client_def intro!: complete_answer_append complete_answer_ready)
qed

lemma registerParses_effect:
  "s_client (foldl (\<lambda>s m. registerParse qr m s) s ms) = s_client s \<and> s_sent (foldl (\<lambda>s m. registerParse qr m s) s ms) = s_sent s \<and>
   s_inTx (foldl (\<lambda>s m. registerParse qr m s) s ms) = s_inTx s \<and> s_txBackend (foldl (\<lambda>s m. registerParse qr m s) s ms) = s_txBackend s \<and>
   s_backends (foldl (\<lambda>s m. registerParse qr m s) s ms) = s_backends s"
  by (induction ms arbitrary: s) (simp_all add: registerParse_def Let_def split: option.splits)

lemma handleExtendedBatch_answered:
  assumes "handleExtendedBatch env qr s = (True, s')" and "s_extBuf s \<noteq> []"
  shows "answered s s'"
proof -
  define s1 where "s1 = foldl (\<lambda>s m. registerParse qr m s) (s\<lparr>s_extBuf := []\<rparr>) (filter is_parse (s_extBuf s))"
  have c: "s_client s1 = s_client s" unfolding s1_def by (simp add: registerParses_effect)
  have "answered s1 s'"
    using assms runExtendedExec_answered [of env qr "s_extBuf s" _ s1 s'] runDescribeOnly_answered [of env qr "s_extBuf s" s1 s']
      synthExtendedAcks_answered [of s1 "s_extBuf s"]
    by (auto simp: handleExtendedBatch_def Let_def s1_def [symmetric] split: option.splits if_splits)
  with c show ?thesis by (simp add: answered_def)
qed

lemma session_step_answered:
  assumes "session_step env qr m s = (True, s')"
  shows "if pm_Type m \<in> {CHR ''Q'', CHR ''S''} then answered s s' else s_client s' = s_client s"
proof -
  have "answered s s'" if "handleExtendedBatch env qr (s\<lparr>s_extBuf := s_extBuf s @ [m]\<rparr>) = (True, s')"
    using handleExtendedBatch_answered [OF that] by (simp add: answered_def)
  then show ?thesis
    using assms handleSimpleQuery_answered [of env qr m s s']
    by (auto simp: session_step_def Let_def split: if_splits)
qed

text \<open>The session survives the messages.\<close>

fun session_alive :: "'w backend_env \<Rightarrow> (queryRouter \<times> pgMessage) list \<Rightarrow> 'w session \<Rightarrow> bool" where
  "session_alive env [] s = True"
| "session_alive env ((qr, m) # ms) s =
     (case session_step env qr m s of (alive, s) \<Rightarrow> alive \<and> session_alive env ms s)"

definition is_request :: "queryRouter \<times> pgMessage \<Rightarrow> bool" where
  "is_request x \<longleftrightarrow> pm_Type (snd x) \<in> {CHR ''Q'', CHR ''S''}"

text \<open>
  C12: Every request is answered once. As long as the session lasts, the client receives for every simple query and
  for every \<open>Sync\<close> one sequence of messages that ends with \<open>ReadyForQuery\<close> and contains no other, and nothing for other messages,
  whatever the backends send; so a client that waits for \<open>ReadyForQuery\<close> never hangs and never gets out of step.
\<close>
theorem session_answers_every_request:
  assumes "session_alive env ms s"
  shows "\<exists>as. s_client (runPerQuerySession env ms s) = s_client s @ concat as \<and> list_all complete_answer as \<and>
    length as = length (filter is_request ms)"
  using assms
proof (induction ms arbitrary: s)
  case Nil
  then show ?case by (intro exI [of _ "[]"]) simp
next
  case (Cons p ms)
  obtain qr m where p: "p = (qr, m)" by (cases p)
  obtain alive s1 where st: "session_step env qr m s = (alive, s1)" by (cases "session_step env qr m s")
  with Cons.prems p have t: "alive" "session_alive env ms s1" by simp_all
  then obtain as where as: "s_client (runPerQuerySession env ms s1) = s_client s1 @ concat as" "list_all complete_answer as"
    "length as = length (filter is_request ms)" using Cons.IH by blast
  have run: "runPerQuerySession env (p # ms) s = runPerQuerySession env ms s1" using p st t by simp
  note step = session_step_answered [of env qr m s s1] st t
  show ?case
  proof (cases "is_request p")
    case True
    with step p obtain a where "s_client s1 = s_client s @ a" "complete_answer a" by (auto simp: is_request_def answered_def)
    with as True run show ?thesis by (intro exI [of _ "a # as"]) simp
  next
    case False
    with step p have "s_client s1 = s_client s" by (auto simp: is_request_def)
    with as False run show ?thesis by (intro exI [of _ as]) simp
  qed
qed

section \<open>Where messages go\<close>

definition pinned :: "'w session \<Rightarrow> nat option" where
  "pinned s = (if s_inTx s then s_txBackend s else None)"

text \<open>A connection leads to the address it was opened for; \<open>addr\<close> names that address.\<close>

definition opens_where_asked :: "'w backend_env \<Rightarrow> (nat \<Rightarrow> string) \<Rightarrow> bool" where
  "opens_where_asked env addr \<longleftrightarrow> (\<forall>b w c w'. be_open env b w = (Inr c, w') \<longrightarrow> addr c = b)"

definition pool_ok :: "(nat \<Rightarrow> string) \<Rightarrow> 'w session \<Rightarrow> bool" where
  "pool_ok addr s \<longleftrightarrow> (\<forall>b c. s_backends s b = Some c \<longrightarrow> addr c = b)"

lemma pool_ok_frame: "frame s s' \<Longrightarrow> pool_ok addr s' = pool_ok addr s"
  by (simp add: frame_def pool_ok_def)

lemma backendFor_pool:
  assumes "backendFor env b s = (r, s')" and "opens_where_asked env addr" and "pool_ok addr s"
  shows "pool_ok addr s' \<and> (\<forall>c. r = Inr c \<longrightarrow> addr c = b)"
  using backendFor_effect [OF assms(1)] assms(2,3)
  by (auto simp: pool_ok_def opens_where_asked_def split: sum.splits if_splits)

lemma pin_tx_pool: "pin_tx env c s = (e, s') \<Longrightarrow> pool_ok addr s' = pool_ok addr s"
  using pin_tx_effect [of env c s e s'] by (auto simp: frame_def pool_ok_def)

text \<open>The effect of a routed query on an unpinned session: it may end before anything, the deferred \<open>BEGIN\<close>, or the query was written.\<close>

lemma run_routed_effect:
  assumes "run_routed env d m s = (ok, s')" and un: "pinned s = None" and ok: "\<not> s_inTx s \<longrightarrow> s_txBackend s = None"
  defines "pre \<equiv> \<lambda>c. (if s_inTx s then [(c, s_pendingBegin s)] else [])"
  shows "s_inTx s' = s_inTx s \<and>
    (\<exists>c. s_sent s' \<in> {s_sent s, s_sent s @ pre c, s_sent s @ pre c @ [(c, m)]} \<and>
       (ok \<longrightarrow> s_sent s' = s_sent s @ pre c @ [(c, m)] \<and> pinned s' = (if s_inTx s then Some c else None)) \<and>
       (opens_where_asked env addr \<and> pool_ok addr s \<longrightarrow> pool_ok addr s' \<and> (s_sent s' \<noteq> s_sent s \<longrightarrow> addr c = rd_Backend d)) \<and>
       (\<not> s_inTx s' \<longrightarrow> s_txBackend s' = None))"
proof -
  have tx: "s_txBackend s = None" using un ok by (auto simp: pinned_def split: if_splits)
  obtain r s1 where b: "backendFor env (rd_Backend d) s = (r, s1)" by (cases "backendFor env (rd_Backend d) s")
  note eb = backendFor_effect [OF b] and pb = backendFor_pool [OF b, of addr]
  from eb have f1: "s_inTx s1 = s_inTx s" "s_txBackend s1 = None" "s_pendingBegin s1 = s_pendingBegin s" "s_sent s1 = s_sent s"
    using tx by (auto simp: frame_def)
  show ?thesis
  proof (cases r)
    case (Inl e)
    with assms(1) b have n: "\<not> ok" "s' = to_client [pg_error ''08006'' (''backend: '' @ e)] s1" by (auto simp: run_routed_def)
    then have "s_sent s' = s_sent s" "s_inTx s' = s_inTx s" "s_txBackend s' = None" "pool_ok addr s' = pool_ok addr s1"
      using f1 by (simp_all add: to_client_def pool_ok_def)
    with n(1) pb show ?thesis by (intro conjI exI) simp_all
  next
    case (Inr c)
    obtain e s2 where p: "pin_tx env c s1 = (e, s2)" by (cases "pin_tx env c s1")
    note ep = pin_tx_effect [OF p] and pp = pin_tx_pool [OF p, of addr]
    from ep have f2: "s_inTx s2 = s_inTx s" using f1 by (simp add: frame_def)
    have pc: "opens_where_asked env addr \<and> pool_ok addr s \<Longrightarrow> pool_ok addr s2 \<and> addr c = rd_Backend d" using pb pp Inr by blast
    show ?thesis
    proof (cases e)
      case (Some x)
      with assms(1) b Inr p have n: "\<not> ok" and s': "s' = s2 \<or> (\<exists>ms. s' = to_client ms s2)"
        by (auto simp: run_routed_def split: pin_error.splits)
      have same: "s_sent s' = s_sent s2" "s_inTx s' = s_inTx s2" "pool_ok addr s' = pool_ok addr s2" "s_txBackend s' = s_txBackend s2"
        using s' by (auto simp: to_client_def pool_ok_def)
      have "s_inTx s" "s_txBackend s2 = None" "s_sent s2 = s_sent s \<or> s_sent s2 = s_sent s @ pre c"
        using ep Some f1 by (simp_all add: pre_def)
      then have "s_inTx s' = s_inTx s" "s_sent s' \<in> {s_sent s, s_sent s @ pre c, s_sent s @ pre c @ [(c, m)]}" "s_txBackend s' = None"
        using same f2 by auto
      then show ?thesis using n pc same(3) by (intro conjI exI [of _ c]) simp_all
    next
      case None
      with assms(1) b Inr p have ex: "execAndRelay env c m s2 = (ok, s')" by (simp add: run_routed_def)
      note ee = execAndRelay_effect [OF ex]
      have 2: "s_sent s2 = s_sent s @ pre c" "s_txBackend s2 = (if s_inTx s then Some c else None)"
        using ep None f1 by (simp_all add: pre_def)
      have 3: "pool_ok addr s' = pool_ok addr s2" "s_inTx s' = s_inTx s2" "s_txBackend s' = s_txBackend s2"
        using ee pool_ok_frame [of s2 s' addr] by (simp_all add: frame_def)
      have 4: "s_sent s' = s_sent s @ pre c \<and> \<not> ok \<or> s_sent s' = s_sent s @ pre c @ [(c, m)]"
        using ee 2(1) by auto
      have 5: "pinned s' = (if s_inTx s then Some c else None)" using 2 3 f2 by (simp add: pinned_def)
      show ?thesis using 2 3 4 5 f2 pc by (intro conjI exI [of _ c]) auto
    qed
  qed
qed

definition ends_tx :: "string \<Rightarrow> bool" where
  "ends_tx sql \<longleftrightarrow> firstKeyword sql \<in> {''commit'', ''rollback'', ''end''}"

text \<open>The branches of a simple query.\<close>

lemma handleSimpleQuery_cases:
  assumes "handleSimpleQuery env qr m s = (ok, s')" and "querySQL m = Some sql"
  obtains (pinned) c s1 where "pinned s = Some c" "execAndRelay env c m s = (ok, s1)"
      "s' = (if ends_tx sql then s1\<lparr>s_inTx := False, s_txBackend := None\<rparr> else s1)"
    | (begin_tx) "pinned s = None" "\<not> s_inTx s" "ok" "firstKeyword sql \<in> {''begin'', ''start''}"
      "s' = (to_client fabricateBegin s)\<lparr>s_inTx := True, s_pendingBegin := m, s_txBackend := None\<rparr>"
    | (refused) code msg where "pinned s = None" "ok" "s' = queryError code msg s"
    | (scatter) "pinned s = None" "ok" "\<not> s_inTx s" "IsReadOnlyQuery sql" "rd_Scatter (fst (routeSQL qr sql))" "s' = scatter_session env qr m s"
    | (routed) d where "pinned s = None" "routeSQL qr sql = (d, None)" "run_routed env d m s = (ok, s')"
proof (cases "pinned s")
  case (Some c)
  obtain ok1 s1 where e: "execAndRelay env c m s = (ok1, s1)" by (cases "execAndRelay env c m s")
  with assms Some have "ok = ok1" "s' = (if ends_tx sql then s1\<lparr>s_inTx := False, s_txBackend := None\<rparr> else s1)"
    by (auto simp: handleSimpleQuery_def pinned_def ends_tx_def Let_def)
  with Some e pinned show ?thesis by blast
next
  case None
  obtain d err where r: "routeSQL qr sql = (d, err)" by (cases "routeSQL qr sql")
  show ?thesis
  proof (cases "\<not> s_inTx s \<and> firstKeyword sql \<in> {''begin'', ''start''}")
    case True
    with assms None show ?thesis by (intro begin_tx) (auto simp: handleSimpleQuery_def pinned_def Let_def)
  next
    case no: False
    note h = assms(1) [unfolded handleSimpleQuery_def assms(2) option.case Let_def None [unfolded pinned_def] r prod.case
        if_not_P [OF no]]
    show ?thesis
    proof (cases "rd_Scatter d")
      case True
      with h None r show ?thesis by (cases "IsReadOnlyQuery sql"; cases "s_inTx s") (auto intro: refused scatter)
    next
      case False
      show ?thesis
      proof (cases err)
        case None
        with h False \<open>pinned s = None\<close> r show ?thesis by (intro routed) auto
      next
        case (Some e)
        with h False have "\<exists>code msg. (True, queryError code msg s) = (ok, s')" by (auto split: if_splits)
        with \<open>pinned s = None\<close> show ?thesis by (auto intro: refused)
      qed
    qed
  qed
qed

text \<open>The invariant of a session: pooled connections lead to their keys, and only a transaction has a backend.\<close>

definition sess_ok :: "(nat \<Rightarrow> string) \<Rightarrow> 'w session \<Rightarrow> bool" where
  "sess_ok addr s \<longleftrightarrow> pool_ok addr s \<and> (\<not> s_inTx s \<longrightarrow> s_txBackend s = None)"

definition same_links :: "'w session \<Rightarrow> 'w session \<Rightarrow> bool" where
  "same_links s s' \<longleftrightarrow> s_backends s' = s_backends s \<and> s_inTx s' = s_inTx s \<and> s_txBackend s' = s_txBackend s"

lemma same_links_ok: "same_links s s' \<Longrightarrow> sess_ok addr s \<Longrightarrow> sess_ok addr s'"
  by (simp add: same_links_def sess_ok_def pool_ok_def)

lemma frame_links: "frame s s' \<Longrightarrow> same_links s s'"
  by (simp add: frame_def same_links_def)

lemma same_links_trans: "same_links s s1 \<Longrightarrow> same_links s1 s2 \<Longrightarrow> same_links s s2"
  by (simp add: same_links_def)

lemma same_links_simps [simp]:
  "same_links s s" "same_links s (to_client ms s)" "same_links s (queryError code msg s)" "same_links s (snd (ext_error code msg s))"
  "same_links s (mark_prepared c ns s)" "same_links s (s\<lparr>s_extBuf := b\<rparr>)" "same_links s (sendReadyIdle s)"
  by (simp_all add: same_links_def to_client_def queryError_def ext_error_def sendReadyIdle_def mark_prepared_def)

lemma backendFor_ok:
  assumes "backendFor env b s = (r, s')" and "opens_where_asked env addr" and "sess_ok addr s"
  shows "sess_ok addr s'"
  using backendFor_effect [OF assms(1)] backendFor_pool [OF assms(1,2)] assms(3) by (simp add: sess_ok_def frame_def)

lemma pin_tx_ok: "pin_tx env c s = (e, s') \<Longrightarrow> sess_ok addr s \<Longrightarrow> sess_ok addr s'"
  using pin_tx_effect [of env c s e s'] pin_tx_pool [of env c s e s' addr] by (cases e) (auto simp: sess_ok_def frame_def)

lemma backendForRouted_ok:
  assumes "backendForRouted env d s = (r, s')" and "opens_where_asked env addr" and "sess_ok addr s"
  shows "sess_ok addr s'"
proof (cases "pinned s")
  case (Some c)
  with assms show ?thesis by (simp add: backendForRouted_def pinned_def)
next
  case None
  obtain q s1 where b: "backendFor env (rd_Backend d) s = (q, s1)" by (cases "backendFor env (rd_Backend d) s")
  note ok1 = backendFor_ok [OF b assms(2,3)]
  show ?thesis
  proof (cases q)
    case (Inl e)
    with assms(1) b None ok1 show ?thesis by (simp add: backendForRouted_def pinned_def)
  next
    case (Inr c)
    obtain e s2 where p: "pin_tx env c s1 = (e, s2)" by (cases "pin_tx env c s1")
    have "s' = s2" using assms(1) b None Inr p by (auto simp: backendForRouted_def pinned_def split: option.splits pin_error.splits)
    with pin_tx_ok [OF p ok1] show ?thesis by simp
  qed
qed

lemma describeBackend_ok:
  assumes "describeBackend env qr s = (r, s')" and "opens_where_asked env addr" and "sess_ok addr s"
  shows "sess_ok addr s'"
  using assms(1,3) backendFor_ok [OF _ assms(2,3)]
  by (auto simp: describeBackend_def split: option.splits sum.splits if_splits)

lemma send_batch_links:
  assumes "send_batch env c st n batch s = (ok, s')"
  shows "same_links s s'"
proof -
  let ?m = "mark_prepared c (insert n (set (map parseStmtName (filter is_parse batch)))) s"
  from send_batchE [OF assms] obtain e s1
    where a: "all_to_backend env c (injected c st n batch s @ batch_messages batch) ?m = (e, s1)"
      and r: "s' = s1 \<or> relayExtended c (length (injected c st n batch s)) s1 = (ok, s')" by metis
  have "same_links s1 s'" using r frame_links relayExtended_effect by fastforce
  moreover have "same_links ?m s1" using all_to_backend_effect [OF a] by (simp add: frame_links)
  ultimately show ?thesis using same_links_trans same_links_simps(5) by blast
qed

lemma runExtendedExec_ok:
  assumes "runExtendedExec env qr batch bind s = (ok, s')" and "opens_where_asked env addr" and "sess_ok addr s"
  shows "sess_ok addr s'"
proof -
  have err: "sess_ok addr s'" if "ext_error code msg s = (ok, s')" for code msg
    using same_links_ok [OF same_links_simps(4) assms(3), of code msg] that by simp
  show ?thesis
  proof (cases "s_stmts s (bindStmtName bind)")
    case None
    with assms show ?thesis by (auto simp: runExtendedExec_def Let_def intro: err)
  next
    case (Some st)
    show ?thesis
    proof (cases "bind_route qr st bind")
      case None
      with assms Some show ?thesis by (auto simp: runExtendedExec_def Let_def intro: err)
    next
      case r: (Some p)
      obtain d e where p: "p = (d, e)" by (cases p)
      obtain q s1 where b: "backendForRouted env d s = (q, s1)" by (cases "backendForRouted env d s")
      note ok1 = backendForRouted_ok [OF b assms(2,3)]
      have snd: "sess_ok addr s'" if "send_batch env k st n batch s1 = (ok, s')" for k n
        using send_batch_links [OF that] ok1 by (rule same_links_ok)
      have cl: "sess_ok addr (to_client ms s1)" for ms using same_links_simps(2) ok1 by (rule same_links_ok)
      show ?thesis using assms(1) Some r p b
        by (auto simp: runExtendedExec_def Let_def cl split: if_splits sum.splits intro: err snd)
    qed
  qed
qed

lemma runDescribeOnly_ok:
  assumes "runDescribeOnly env qr batch s = (ok, s')" and "opens_where_asked env addr" and "sess_ok addr s"
  shows "sess_ok addr s'"
proof -
  obtain r s1 where d: "describeBackend env qr s = (r, s1)" by (cases "describeBackend env qr s")
  note ok1 = describeBackend_ok [OF d assms(2,3)]
  show ?thesis
  proof (cases r)
    case (Inl e)
    with assms(1) d have "s' = snd (ext_error ''08006'' (''describe-round: '' @ e) s1)" by (simp add: runDescribeOnly_def ext_error_def)
    with same_links_ok [OF same_links_simps(4) ok1] show ?thesis by simp
  next
    case (Inr k)
    let ?s = "mark_prepared k (set (map parseStmtName (filter is_parse batch))) s1"
    obtain e s2 where a: "all_to_backend env k batch ?s = (e, s2)" by (cases "all_to_backend env k batch ?s")
    from assms(1) d Inr a have "s' = s2 \<or> relayExtended k 0 s2 = (ok, s')" by (cases e) (auto simp: runDescribeOnly_def)
    then have "same_links s2 s'" using frame_links relayExtended_effect by fastforce
    moreover have "same_links ?s s2" using all_to_backend_effect [OF a] by (simp add: frame_links)
    ultimately show ?thesis using same_links_ok [OF same_links_trans [OF same_links_simps(5) same_links_trans] ok1] by blast
  qed
qed

lemma synth_acks_links: "same_links s (synth_acks batch s)"
proof (induction batch s rule: synth_acks.induct)
  case (2 m ms s)
  have "same_links s (handleClose m s)" by (simp add: handleClose_def same_links_def split: list.splits)
  then have "same_links s (to_client [\<lparr>pm_Type = CHR ''3'', pm_Payload = []\<rparr>] (handleClose m s))"
    using same_links_simps(2) by (rule same_links_trans)
  then have "same_links s (if pm_Type m = CHR ''P'' then to_client [\<lparr>pm_Type = CHR ''1'', pm_Payload = []\<rparr>] s
      else if pm_Type m = CHR ''C'' then to_client [\<lparr>pm_Type = CHR ''3'', pm_Payload = []\<rparr>] (handleClose m s) else s)" by simp
  from same_links_trans [OF this 2] show ?case by simp
qed simp

lemma handleExtendedBatch_ok:
  assumes "handleExtendedBatch env qr s = (ok, s')" and "opens_where_asked env addr" and "sess_ok addr s"
  shows "sess_ok addr s'"
proof -
  define s1 where "s1 = foldl (\<lambda>s m. registerParse qr m s) (s\<lparr>s_extBuf := []\<rparr>) (filter is_parse (s_extBuf s))"
  have "same_links s s1" by (simp add: s1_def same_links_def registerParses_effect)
  then have ok1: "sess_ok addr s1" using assms(3) by (rule same_links_ok)
  have "sess_ok addr (s\<lparr>s_extBuf := []\<rparr>)" using same_links_simps(6) assms(3) by (rule same_links_ok)
  moreover have "sess_ok addr (snd (synthExtendedAcks b s1))" for b
    using same_links_trans [OF synth_acks_links same_links_simps(7)] ok1
    by (simp add: synthExtendedAcks_def) (rule same_links_ok)
  ultimately show ?thesis
    using assms(1) runExtendedExec_ok [OF _ assms(2) ok1] runDescribeOnly_ok [OF _ assms(2) ok1]
    by (auto simp: handleExtendedBatch_def Let_def s1_def [symmetric] split: option.splits if_splits) (metis snd_conv)
qed

lemma scatter_session_links: "same_links s (scatter_session env qr m s)"
proof (cases "allShards qr")
  case (Inr sbs)
  obtain rs s1 where a: "scatter_all env sbs m s = (rs, s1)" by (cases "scatter_all env sbs m s")
  with Inr scatter_all_effect [OF a] show ?thesis
    by (simp add: scatter_session_def) (metis frame_links same_links_simps(2) same_links_trans)
qed (simp add: scatter_session_def)

lemma handleSimpleQuery_ok:
  assumes "handleSimpleQuery env qr m s = (ok, s')" and "opens_where_asked env addr" and "sess_ok addr s"
  shows "sess_ok addr s'"
proof (cases "querySQL m")
  case None
  with assms(1) have "s' = to_client [pg_error ''08P01'' ''could not parse query''] s" by (simp add: handleSimpleQuery_def)
  with same_links_ok [OF same_links_simps(2) assms(3)] show ?thesis by simp
next
  case (Some sql)
  have tx: "\<not> s_inTx s \<longrightarrow> s_txBackend s = None" using assms(3) by (simp add: sess_ok_def)
  from assms(1) Some show ?thesis
  proof (cases rule: handleSimpleQuery_cases)
    case (pinned c s1)
    have "sess_ok addr s1" using execAndRelay_effect [OF pinned(2)] assms(3) same_links_ok [OF frame_links] by blast
    with pinned(3) show ?thesis by (auto simp: sess_ok_def pool_ok_def)
  next
    case begin_tx
    with assms(3) show ?thesis by (simp add: sess_ok_def pool_ok_def to_client_def)
  next
    case (refused code msg)
    with same_links_ok [OF same_links_simps(3) assms(3)] show ?thesis by simp
  next
    case scatter
    with same_links_ok [OF scatter_session_links assms(3)] show ?thesis by simp
  next
    case (routed d)
    from run_routed_effect [OF routed(3,1) tx, of addr] assms(2,3) show ?thesis by (auto simp: sess_ok_def)
  qed
qed

lemma session_step_ok:
  assumes "session_step env qr m s = (ok, s')" and "opens_where_asked env addr" and "sess_ok addr s"
  shows "sess_ok addr s'"
proof -
  have ext: "sess_ok addr (s\<lparr>s_extBuf := b\<rparr>)" for b using same_links_simps(6) assms(3) by (rule same_links_ok)
  have cl: "sess_ok addr (to_client ms s)" for ms using same_links_simps(2) assms(3) by (rule same_links_ok)
  show ?thesis
    using assms(1,3) handleSimpleQuery_ok [OF _ assms(2,3)] handleExtendedBatch_ok [OF _ assms(2) ext] ext cl
    by (auto simp: session_step_def Let_def split: if_splits)
qed

lemma session_run_ok:
  "opens_where_asked env addr \<Longrightarrow> sess_ok addr s \<Longrightarrow> sess_ok addr (runPerQuerySession env ms s)"
proof (induction ms arbitrary: s)
  case (Cons p ms)
  obtain qr m where p: "p = (qr, m)" by (cases p)
  obtain alive s1 where st: "session_step env qr m s = (alive, s1)" by (cases "session_step env qr m s")
  from session_step_ok [OF st Cons.prems] Cons.IH [OF Cons.prems(1), of s1] p st show ?case by (cases alive) simp_all
qed simp

lemma new_session_ok: "sess_ok addr (new_session w)"
  by (simp add: sess_ok_def pool_ok_def new_session_def)

lemma routeSQL_write_blocked:
  assumes "qm_Current qr = Inr topo" and "sr_WriteBlocked (top_Spec topo)" and "\<not> IsReadOnlyQuery sql"
  shows "routeSQL qr sql = (no_decision, Some ErrWriteBlocked)"
  using assms by (simp add: routeSQL_def Route_def)

lemma scatter_session_sent:
  assumes "opens_where_asked env addr"
  obtains new where "s_sent (scatter_session env qr m s) = s_sent s @ new"
    "\<forall>(c, x)\<in>set new. pm_Payload x = pm_Payload m \<and> (\<exists>sbs. allShards qr = Inr sbs \<and> addr c \<in> snd ` set sbs)"
proof (cases "allShards qr")
  case (Inl e)
  then have "s_sent (scatter_session env qr m s) = s_sent s @ []" by (simp add: scatter_session_def to_client_def)
  with that [of "[]"] show ?thesis by simp
next
  case (Inr sbs)
  obtain rs s1 where a: "scatter_all env sbs m s = (rs, s1)" by (cases "scatter_all env sbs m s")
  then obtain new where new: "s_sent s1 = s_sent s @ new"
    "\<forall>(c, x)\<in>set new. x = \<lparr>pm_Type = CHR ''Q'', pm_Payload = pm_Payload m\<rparr> \<and> (\<exists>(sh, b)\<in>set sbs. \<exists>w w'. be_open env b w = (Inr c, w'))"
    using scatter_all_effect [OF a] by blast
  have "s_sent (scatter_session env qr m s) = s_sent s @ new" using Inr a new(1) by (simp add: scatter_session_def to_client_def)
  moreover have "pm_Payload x = pm_Payload m \<and> (\<exists>sbs. allShards qr = Inr sbs \<and> addr c \<in> snd ` set sbs)" if "(c, x) \<in> set new" for c x
  proof -
    from bspec [OF new(2) that] obtain p w w'
      where x: "x = \<lparr>pm_Type = CHR ''Q'', pm_Payload = pm_Payload m\<rparr>" and p: "p \<in> set sbs" "be_open env (snd p) w = (Inr c, w')" by auto
    have "addr c = snd p" using assms p(2) unfolding opens_where_asked_def by blast
    then have "addr c \<in> snd ` set sbs" using p(1) by simp
    with x Inr show ?thesis by simp
  qed
  then have "\<forall>(c, x)\<in>set new. pm_Payload x = pm_Payload m \<and> (\<exists>sbs. allShards qr = Inr sbs \<and> addr c \<in> snd ` set sbs)" by blast
  ultimately show ?thesis by (rule that)
qed

text \<open>Every message that a simple query causes goes to the pinned backend, to the backend of its routing decision, or, for a
  scattered read, to the shards of the topology.\<close>

lemma simple_query_sent:
  assumes "handleSimpleQuery env qr m s = (ok, s')" and "querySQL m = Some sql" and "opens_where_asked env addr" and "sess_ok addr s"
  shows "\<exists>new. s_sent s' = s_sent s @ new \<and>
    (\<forall>(c, x)\<in>set new.
       pinned s = Some c \<and> x = m \<or>
       pinned s = None \<and> (\<exists>d. routeSQL qr sql = (d, None) \<and> addr c = rd_Backend d) \<and> (x = m \<or> s_inTx s \<and> x = s_pendingBegin s) \<or>
       pinned s = None \<and> IsReadOnlyQuery sql \<and> (\<exists>sbs. allShards qr = Inr sbs \<and> addr c \<in> snd ` set sbs))"
  using assms(1,2)
proof (cases rule: handleSimpleQuery_cases)
  case (pinned c s1)
  have "s_sent s' = s_sent s1" using pinned(3) by simp
  with execAndRelay_effect [OF pinned(2)] have "s_sent s' = s_sent s \<or> s_sent s' = s_sent s @ [(c, m)]" by auto
  with pinned(1) show ?thesis by (elim disjE) (intro exI [of _ "[]"], simp, intro exI [of _ "[(c, m)]"], simp)
next
  case begin_tx
  then show ?thesis by (intro exI [of _ "[]"]) (simp add: to_client_def)
next
  case (refused code msg)
  then show ?thesis by (intro exI [of _ "[]"]) (simp add: queryError_def to_client_def)
next
  case scatter
  from scatter_session_sent [OF assms(3)] obtain new where new: "s_sent (scatter_session env qr m s) = s_sent s @ new"
    "\<forall>(c, x)\<in>set new. pm_Payload x = pm_Payload m \<and> (\<exists>sbs. allShards qr = Inr sbs \<and> addr c \<in> snd ` set sbs)" by blast
  with scatter show ?thesis by (intro exI [of _ new]) auto
next
  case (routed d)
  have tx: "\<not> s_inTx s \<longrightarrow> s_txBackend s = None" using assms(4) by (simp add: sess_ok_def)
  define pre where "pre = (\<lambda>c :: nat. if s_inTx s then [(c, s_pendingBegin s)] else [])"
  from run_routed_effect [OF routed(3,1) tx, of addr] obtain c where
    c: "s_sent s' \<in> {s_sent s, s_sent s @ pre c, s_sent s @ pre c @ [(c, m)]}" and a: "s_sent s' \<noteq> s_sent s \<longrightarrow> addr c = rd_Backend d"
    unfolding pre_def using assms(3,4) by (auto simp: sess_ok_def)
  from c obtain new where new: "s_sent s' = s_sent s @ new" "new \<in> {[], pre c, pre c @ [(c, m)]}" by auto
  then have "\<forall>(k, x)\<in>set new. k = c \<and> (x = m \<or> s_inTx s \<and> x = s_pendingBegin s)" by (auto simp: pre_def)
  moreover have "new \<noteq> [] \<Longrightarrow> addr c = rd_Backend d" using a new(1) by simp
  ultimately show ?thesis using new(1) routed(1,2) by (intro exI [of _ new]) fastforce
qed

lemma step_is_simple: "querySQL m = Some sql \<Longrightarrow> session_step env qr m s = handleSimpleQuery env qr m s"
  by (auto simp: session_step_def querySQL_def split: if_splits)


definition demo_qr :: queryRouter where
  "demo_qr = \<lparr>qm_Current = Inr demo_topology, qm_extractor = autoStrategy parserStrategy regexStrategy,
     qm_write = (\<lambda>sh. Inr (sh @ ''-primary'')), qm_read = Some (\<lambda>sh. Inr (sh @ ''-replica''))\<rparr>"

definition query_msg :: "string \<Rightarrow> pgMessage" where
  "query_msg sql = \<lparr>pm_Type = CHR ''Q'', pm_Payload = cstring sql\<rparr>"

text \<open>Backends that accept every connection and answer every query and every \<open>Sync\<close>.\<close>

definition demo_addr :: "nat \<Rightarrow> string" where
  "demo_addr c = (if c = 0 then ''shard-0-primary'' else if c = 1 then ''shard-1-primary'' else if c = 2 then ''shard-0-replica''
     else ''shard-1-replica'')"

definition demo_env :: "unit backend_env" where
  "demo_env =
     \<lparr>be_open = (\<lambda>b w. (case find (\<lambda>c. demo_addr c = b) [0, 1, 2, 3] of Some c \<Rightarrow> Inr c | None \<Rightarrow> Inl ''refused'', w)),
      be_send = (\<lambda>c m w. (Inr (if pm_Type m \<in> {CHR ''Q'', CHR ''S''} then writeMessage CHR ''C'' (cstring ''OK'') @ writeMessage CHR ''Z'' ''I'' else []), w)),
      be_routeText = (\<lambda>_. ''refused''), be_readText = (\<lambda>_. ''EOF'')\<rparr>"

lemma demo_env_opens: "opens_where_asked demo_env demo_addr"
  by (auto simp: opens_where_asked_def demo_env_def find_Some_iff split: option.splits)

definition demo_update :: "string \<Rightarrow> string" where
  "demo_update key = ''update t set v=1 where id='' @ sql_literal key"

theorem session_answers_every_request_witness:
  "\<exists>as. s_client (runPerQuerySession demo_env [(demo_qr, query_msg ''begin''), (demo_qr, query_msg (demo_update ''bob''))] (new_session ())) = concat as \<and>
    list_all complete_answer as \<and> length as = 2"
proof -
  let ?ms = "[(demo_qr, query_msg ''begin''), (demo_qr, query_msg (demo_update ''bob''))]"
  have "session_alive demo_env ?ms (new_session ())" by code_simp
  from session_answers_every_request [OF this] obtain as where
    as: "s_client (runPerQuerySession demo_env ?ms (new_session ())) = s_client (new_session ()) @ concat as" "list_all complete_answer as"
      "length as = length (filter is_request ?ms)" by blast
  have "s_client (new_session ()) = []" "length (filter is_request ?ms) = 2" by (simp_all add: new_session_def is_request_def query_msg_def)
  with as have "s_client (runPerQuerySession demo_env ?ms (new_session ())) = concat as" "length as = 2" by (simp_all only: append_Nil)
  with as(2) show ?thesis by blast
qed


section \<open>Transactions\<close>

lemma run_simple:
  assumes "querySQL m = Some sql" and "handleSimpleQuery env qr m s = (ok, s1)"
  shows "runPerQuerySession env ((qr, m) # ms) s = (if ok then runPerQuerySession env ms s1 else s1)"
  using assms(2) by (cases ok) (simp_all add: step_is_simple [OF assms(1)])

lemma pinned_query_effect:
  assumes "handleSimpleQuery env qr m s = (ok, s')" and "querySQL m = Some sql" and "pinned s = Some c" and "\<not> ends_tx sql"
  shows "pinned s' = Some c \<and> s_pendingBegin s' = s_pendingBegin s \<and> (s_sent s' = s_sent s \<or> s_sent s' = s_sent s @ [(c, m)])"
  using assms(1,2)
proof (cases rule: handleSimpleQuery_cases)
  case (pinned k s1)
  with assms(3,4) have "k = c" "s' = s1" by simp_all
  with execAndRelay_effect [OF pinned(2)] assms(3) show ?thesis by (auto simp: frame_def Session_Correct.pinned_def)
qed (use assms(3) in simp_all)

text \<open>In a transaction without a backend a query either changes nothing, or ends the session, or chooses the backend.\<close>

lemma unpinned_query_effect:
  assumes "handleSimpleQuery env qr m s = (ok, s')" and "querySQL m = Some sql" and "s_inTx s" and "s_txBackend s = None"
  shows "s_inTx s' \<and>
    (ok \<and> s_txBackend s' = None \<and> s_pendingBegin s' = s_pendingBegin s \<and> s_sent s' = s_sent s \<or>
     (\<exists>c. (ok \<longrightarrow> pinned s' = Some c \<and> s_sent s' = s_sent s @ [(c, s_pendingBegin s), (c, m)]) \<and>
        s_sent s' \<in> {s_sent s, s_sent s @ [(c, s_pendingBegin s)], s_sent s @ [(c, s_pendingBegin s), (c, m)]}))"
  using assms(1,2)
proof (cases rule: handleSimpleQuery_cases)
  case (refused code msg)
  with assms(3,4) show ?thesis by (simp add: queryError_def to_client_def)
next
  case (routed d)
  have tx: "\<not> s_inTx s \<longrightarrow> s_txBackend s = None" using assms(4) by simp
  from run_routed_effect [OF routed(3,1) tx] assms(3) obtain c where
    c: "s_inTx s'" "s_sent s' \<in> {s_sent s, s_sent s @ [(c, s_pendingBegin s)], s_sent s @ [(c, s_pendingBegin s)] @ [(c, m)]}"
      "ok \<longrightarrow> s_sent s' = s_sent s @ [(c, s_pendingBegin s)] @ [(c, m)] \<and> pinned s' = Some c"
    by (simp only: if_True) blast
  show ?thesis by (rule conjI [OF c(1) disjI2], rule exI [of _ c]) (use c(2,3) in simp)
qed (use assms(3,4) in \<open>simp_all add: pinned_def\<close>)

definition in_tx_query :: "queryRouter \<times> pgMessage \<Rightarrow> bool" where
  "in_tx_query x \<longleftrightarrow> (\<exists>sql. querySQL (snd x) = Some sql \<and> \<not> ends_tx sql)"

lemma pinned_run:
  "list_all in_tx_query ms \<Longrightarrow> pinned s = Some c \<Longrightarrow>
   \<exists>new. s_sent (runPerQuerySession env ms s) = s_sent s @ new \<and> (\<forall>x\<in>set new. fst x = c \<and> snd x \<in> snd ` set ms)"
proof (induction ms arbitrary: s)
  case Nil
  then show ?case by simp
next
  case (Cons p ms)
  obtain qr m sql where p: "p = (qr, m)" "querySQL m = Some sql" "\<not> ends_tx sql"
    using Cons.prems(1) by (cases p) (auto simp: in_tx_query_def)
  obtain ok s1 where h: "handleSimpleQuery env qr m s = (ok, s1)" by (cases "handleSimpleQuery env qr m s")
  note e = pinned_query_effect [OF h p(2) Cons.prems(2) p(3)]
  have run: "runPerQuerySession env (p # ms) s = (if ok then runPerQuerySession env ms s1 else s1)"
    unfolding p(1) using p(2) h by (rule run_simple)
  from e obtain n1 where n1: "s_sent s1 = s_sent s @ n1" "n1 = [] \<or> n1 = [(c, m)]" by auto
  obtain n2 where "s_sent (runPerQuerySession env ms s1) = s_sent s1 @ n2" and n2: "\<forall>x\<in>set n2. fst x = c \<and> snd x \<in> snd ` set ms"
    using Cons.IH [of s1] Cons.prems(1) e by auto
  with n1 run have "s_sent (runPerQuerySession env (p # ms) s) = s_sent s @ n1 @ (if ok then n2 else [])" by simp
  moreover have "\<forall>x\<in>set (n1 @ (if ok then n2 else [])). fst x = c \<and> snd x \<in> snd ` set (p # ms)"
    using n1(2) n2 p(1) by auto
  ultimately show ?case by blast
qed

text \<open>
  C13: A transaction stays on one backend. After \<open>BEGIN\<close>, whatever simple queries follow before the end of the transaction and however the
  topology changes, everything that the session writes goes to a single connection, the deferred \<open>BEGIN\<close> first, followed by queries of the client.
\<close>
theorem transaction_single_backend:
  assumes "list_all in_tx_query ms" and "s_inTx s" and "s_txBackend s = None"
  shows "\<exists>c new. s_sent (runPerQuerySession env ms s) = s_sent s @ new \<and>
    (new = [] \<or> (\<exists>rest. new = (c, s_pendingBegin s) # rest \<and> (\<forall>x\<in>set rest. fst x = c \<and> snd x \<in> snd ` set ms)))"
  using assms
proof (induction ms arbitrary: s)
  case Nil
  then show ?case by simp
next
  case (Cons p ms)
  obtain qr m sql where p: "p = (qr, m)" "querySQL m = Some sql" using Cons.prems(1) by (cases p) (auto simp: in_tx_query_def)
  obtain ok s1 where h: "handleSimpleQuery env qr m s = (ok, s1)" by (cases "handleSimpleQuery env qr m s")
  have run: "runPerQuerySession env (p # ms) s = (if ok then runPerQuerySession env ms s1 else s1)"
    unfolding p(1) using p(2) h by (rule run_simple)
  have all: "list_all in_tx_query ms" using Cons.prems(1) by simp
  from unpinned_query_effect [OF h p(2) Cons.prems(2,3)] consider
      (same) "ok" "s_inTx s1" "s_txBackend s1 = None" "s_pendingBegin s1 = s_pendingBegin s" "s_sent s1 = s_sent s"
    | (chosen) c where "ok \<longrightarrow> pinned s1 = Some c \<and> s_sent s1 = s_sent s @ [(c, s_pendingBegin s), (c, m)]"
        "s_sent s1 \<in> {s_sent s, s_sent s @ [(c, s_pendingBegin s)], s_sent s @ [(c, s_pendingBegin s), (c, m)]}" by metis
  then show ?case
  proof cases
    case same
    obtain c new where n: "s_sent (runPerQuerySession env ms s1) = s_sent s1 @ new"
      "new = [] \<or> (\<exists>rest. new = (c, s_pendingBegin s1) # rest \<and> (\<forall>x\<in>set rest. fst x = c \<and> snd x \<in> snd ` set ms))"
      using Cons.IH [OF all same(2,3)] by blast
    with run same show ?thesis by (intro exI [of _ c] exI [of _ new]) auto
  next
    case (chosen c)
    show ?thesis
    proof (cases ok)
      case True
      with chosen(1) have pin: "pinned s1 = Some c" and s1: "s_sent s1 = s_sent s @ [(c, s_pendingBegin s), (c, m)]" by simp_all
      from pinned_run [OF all pin, of env] obtain n2 where n2: "s_sent (runPerQuerySession env ms s1) = s_sent s1 @ n2"
        "\<forall>x\<in>set n2. fst x = c \<and> snd x \<in> snd ` set ms" by blast
      with run True s1 p(1) show ?thesis
        by (intro exI [of _ c] exI [of _ "(c, s_pendingBegin s) # (c, m) # n2"]) auto
    next
      case False
      with run chosen(2) p(1) obtain new where "s_sent (runPerQuerySession env (p # ms) s) = s_sent s @ new"
        "new \<in> {[], [(c, s_pendingBegin s)], [(c, s_pendingBegin s), (c, m)]}" by auto
      with p(1) show ?thesis by (intro exI [of _ c] exI [of _ new]) auto
    qed
  qed
qed

text \<open>The state after \<open>BEGIN\<close>.\<close>

definition demo_begun :: "unit session" where
  "demo_begun = snd (session_step demo_env demo_qr (query_msg ''begin'') (new_session ()))"

lemma demo_begun_alive: "fst (session_step demo_env demo_qr (query_msg ''begin'') (new_session ()))"
  by code_simp

theorem transaction_single_backend_witness:
  "\<exists>c rest. s_sent (runPerQuerySession demo_env [(demo_qr, query_msg (demo_update ''bob'')), (demo_qr, query_msg (demo_update ''nan''))] demo_begun) =
     (c, query_msg ''begin'') # rest \<and> length rest = 2 \<and> map fst rest = [c, c]"
proof -
  let ?ms = "[(demo_qr, query_msg (demo_update ''bob'')), (demo_qr, query_msg (demo_update ''nan''))]"
  have "querySQL (query_msg (demo_update k)) = Some (demo_update k)" for k
    by (simp add: querySQL_def query_msg_def cstring_def)
  moreover have "\<not> ends_tx (demo_update ''bob'')" "\<not> ends_tx (demo_update ''nan'')" by code_simp+
  ultimately have all: "list_all in_tx_query ?ms" by (simp add: in_tx_query_def)
  have b: "s_inTx demo_begun" "s_txBackend demo_begun = None" "s_pendingBegin demo_begun = query_msg ''begin''" "s_sent demo_begun = []"
    by code_simp+
  from transaction_single_backend [OF all b(1,2), of demo_env] obtain c new where
    new: "s_sent (runPerQuerySession demo_env ?ms demo_begun) = s_sent demo_begun @ new" and
    n: "new = [] \<or> (\<exists>rest. new = (c, s_pendingBegin demo_begun) # rest \<and> (\<forall>x\<in>set rest. fst x = c \<and> snd x \<in> snd ` set ?ms))" by blast
  have "session_step demo_env demo_qr (query_msg ''begin'') (new_session ()) = (True, demo_begun)"
    using demo_begun_alive by (simp add: demo_begun_def prod_eq_iff)
  then have "runPerQuerySession demo_env ?ms demo_begun = runPerQuerySession demo_env ((demo_qr, query_msg ''begin'') # ?ms) (new_session ())" by simp
  moreover have "length (s_sent (runPerQuerySession demo_env ((demo_qr, query_msg ''begin'') # ?ms) (new_session ()))) = 3" by code_simp
  ultimately have "length (s_sent (runPerQuerySession demo_env ?ms demo_begun)) = 3" by simp
  with new b(4) have len: "length new = 3" by simp
  with n b(3) obtain rest where rest: "new = (c, query_msg ''begin'') # rest" "\<forall>x\<in>set rest. fst x = c" by auto
  with len have "map fst rest = [c, c]" "length rest = 2" by (auto simp: length_Suc_conv numeral_eq_Suc)
  with new b(4) rest(1) show ?thesis by (intro exI [of _ c] exI [of _ rest]) simp
qed

text \<open>A statement that is neither a read nor carries a routing key, as \<open>COMMIT\<close> and \<open>ROLLBACK\<close>.\<close>

definition keyless_write :: "queryRouter \<times> pgMessage \<Rightarrow> bool" where
  "keyless_write x \<longleftrightarrow>
     (\<exists>sql. querySQL (snd x) = Some sql \<and> \<not> IsReadOnlyQuery sql \<and>
        matchInsertColumnAll sql (shardColumn (fst x)) = None \<and> extract_key (qm_extractor (fst x)) sql (shardColumn (fst x)) = None)"

lemma keyless_write_refused:
  assumes "querySQL m = Some sql" and "\<not> IsReadOnlyQuery sql" and "matchInsertColumnAll sql (shardColumn qr) = None"
    and "extract_key (qm_extractor qr) sql (shardColumn qr) = None" and "s_inTx s" and "s_txBackend s = None"
  obtains code msg where "handleSimpleQuery env qr m s = (True, queryError code msg s)"
proof -
  have r: "snd (routeSQL qr sql) \<noteq> None"
    using assms(2-4) by (auto simp: routeSQL_def shardColumn_def Route_def Let_def split: sum.splits)
  obtain ok s' where h: "handleSimpleQuery env qr m s = (ok, s')" by (cases "handleSimpleQuery env qr m s")
  from h assms(1) show ?thesis
  proof (cases rule: handleSimpleQuery_cases)
    case (routed d)
    with r show ?thesis by simp
  qed (use assms(2,5,6) h that in \<open>simp_all add: pinned_def\<close>)
qed

text \<open>
  C39: A transaction without a backend cannot be ended. After \<open>BEGIN\<close>, as long as no query with a routing key was sent, \<open>COMMIT\<close> and
  \<open>ROLLBACK\<close> and every other write without a key are refused, whatever the topology is: nothing reaches a backend and the session stays in the
  transaction for ever.
\<close>
theorem unpinned_transaction_never_ends:
  assumes "list_all keyless_write ms" and "s_inTx s" and "s_txBackend s = None"
  shows "session_alive env ms s \<and> s_inTx (runPerQuerySession env ms s) \<and> s_txBackend (runPerQuerySession env ms s) = None \<and>
    s_sent (runPerQuerySession env ms s) = s_sent s"
  using assms
proof (induction ms arbitrary: s)
  case (Cons p ms)
  obtain qr m sql where p: "p = (qr, m)" "querySQL m = Some sql" "\<not> IsReadOnlyQuery sql" "matchInsertColumnAll sql (shardColumn qr) = None"
    "extract_key (qm_extractor qr) sql (shardColumn qr) = None" using Cons.prems(1) by (cases p) (auto simp: keyless_write_def)
  from keyless_write_refused [OF p(2-5) Cons.prems(2,3)] obtain code msg where
    h: "handleSimpleQuery env qr m s = (True, queryError code msg s)" by blast
  have q: "s_inTx (queryError code msg s)" "s_txBackend (queryError code msg s) = None" "s_sent (queryError code msg s) = s_sent s"
    using Cons.prems by (simp_all add: queryError_def to_client_def)
  have "session_step env qr m s = (True, queryError code msg s)" using h by (simp add: step_is_simple [OF p(2)])
  with Cons.IH [OF _ q(1,2)] Cons.prems(1) q(3) p(1) show ?case by simp
qed simp

theorem unpinned_transaction_never_ends_witness:
  "s_inTx (runPerQuerySession demo_env [(demo_qr, query_msg ''commit''), (demo_qr, query_msg ''rollback'')] demo_begun) \<and>
   s_sent (runPerQuerySession demo_env [(demo_qr, query_msg ''commit''), (demo_qr, query_msg ''rollback'')] demo_begun) = []"
proof -
  have "querySQL (query_msg ''commit'') = Some ''commit''" "querySQL (query_msg ''rollback'') = Some ''rollback''"
    by (simp_all add: querySQL_def query_msg_def cstring_def)
  moreover have "\<not> IsReadOnlyQuery ''commit''" "matchInsertColumnAll ''commit'' (shardColumn demo_qr) = None"
    "extract_key (qm_extractor demo_qr) ''commit'' (shardColumn demo_qr) = None"
    "\<not> IsReadOnlyQuery ''rollback''" "matchInsertColumnAll ''rollback'' (shardColumn demo_qr) = None"
    "extract_key (qm_extractor demo_qr) ''rollback'' (shardColumn demo_qr) = None" by code_simp+
  ultimately have "list_all keyless_write [(demo_qr, query_msg ''commit''), (demo_qr, query_msg ''rollback'')]" by (simp add: keyless_write_def)
  moreover have "s_inTx demo_begun" "s_txBackend demo_begun = None" "s_sent demo_begun = []" by code_simp+
  ultimately show ?thesis
    using unpinned_transaction_never_ends [of "[(demo_qr, query_msg ''commit''), (demo_qr, query_msg ''rollback'')]" demo_begun demo_env] by metis
qed

section \<open>Writes that reach the wrong server\<close>

definition blocked_qr :: queryRouter where
  "blocked_qr = demo_qr\<lparr>qm_Current := Inr (demo_topology\<lparr>top_Spec := (top_Spec demo_topology)\<lparr>sr_WriteBlocked := True\<rparr>\<rparr>)\<rparr>"

definition bind_msg :: "string \<Rightarrow> string \<Rightarrow> pgMessage" where
  "bind_msg stmt v = \<lparr>pm_Type = CHR ''B'', pm_Payload = cstring [] @ cstring stmt @ be16 0 @ be16 1 @ be32 (length v) @ v @ be16 0\<rparr>"

definition parse_msg :: "string \<Rightarrow> string \<Rightarrow> pgMessage" where
  "parse_msg stmt sql = \<lparr>pm_Type = CHR ''P'', pm_Payload = cstring stmt @ cstring sql @ be16 0\<rparr>"

definition sync_msg :: pgMessage where
  "sync_msg = \<lparr>pm_Type = CHR ''S'', pm_Payload = []\<rparr>"


end
