(* ===== verification/Names.thy ===== *)
theory Names
  imports Cluster_Types
begin

text \<open>
  Object names and label keys, \<open>names.go\<close>, with the constants of \<open>builders.go\<close> they come with.
\<close>

definition pgContainerName :: string where "pgContainerName = ''postgres''"
definition pgPort :: int where "pgPort = 5432"

definition ShardStatefulSetName :: "string \<Rightarrow> int \<Rightarrow> string" where
  "ShardStatefulSetName cluster ordinal = cluster @ ''-shard-'' @ Itoa ordinal"

definition ShardServiceName :: "string \<Rightarrow> int \<Rightarrow> string" where
  "ShardServiceName cluster ordinal = cluster @ ''-shard-'' @ Itoa ordinal @ ''-headless''"

definition ShardConfigMapName :: "string \<Rightarrow> int \<Rightarrow> string" where
  "ShardConfigMapName cluster ordinal = cluster @ ''-shard-'' @ Itoa ordinal @ ''-config''"

definition ShardPrimaryServiceName :: "string \<Rightarrow> string \<Rightarrow> string" where
  "ShardPrimaryServiceName cluster shardName = cluster @ ''-'' @ shardName @ ''-primary''"

definition TargetShardStatefulSetName :: "string \<Rightarrow> string \<Rightarrow> string" where
  "TargetShardStatefulSetName cluster shardID = cluster @ ''-rsd-'' @ shardID"

definition TargetShardServiceName :: "string \<Rightarrow> string \<Rightarrow> string" where
  "TargetShardServiceName cluster shardID = cluster @ ''-rsd-'' @ shardID @ ''-headless''"

definition TargetShardConfigMapName :: "string \<Rightarrow> string \<Rightarrow> string" where
  "TargetShardConfigMapName cluster shardID = cluster @ ''-rsd-'' @ shardID @ ''-config''"

definition ShardIDForOrdinal :: "int \<Rightarrow> string" where
  "ShardIDForOrdinal ordinal = ''shard-'' @ Itoa ordinal"

definition ReshardTargetLabelKey :: string where
  "ReshardTargetLabelKey = ''postgres.keiailab.io/reshard-target''"

definition ShardIDLabelKey :: string where
  "ShardIDLabelKey = ''postgres.keiailab.io/shard-id''"

definition ShardLabelKey :: string where
  "ShardLabelKey = ''postgres.keiailab.io/shard''"

section \<open>Injectivity\<close>

lemma ShardIDForOrdinal_inj: "ShardIDForOrdinal a = ShardIDForOrdinal b \<Longrightarrow> a = b"
  by (auto simp: ShardIDForOrdinal_def dest: Itoa_inj)

text \<open>The ordinal is what follows the last hyphen, so a StatefulSet name determines the cluster and
  the ordinal.\<close>

lemma last_sep_inject:
  assumes "xs @ c # ys = xs' @ c # ys'" and "c \<notin> set ys" and "c \<notin> set ys'"
  shows "xs = xs' \<and> ys = ys'"
proof -
  have "rev ys @ c # rev xs = rev ys' @ c # rev xs'"
    using arg_cong [OF assms(1), of rev] by simp
  then have "rev ys = rev ys' \<and> rev xs = rev xs'"
    by (rule split_at_first) (use assms(2,3) in simp_all)
  then show ?thesis by simp
qed

lemma hyphen_notin_Itoa: "0 \<le> n \<Longrightarrow> CHR ''-'' \<notin> set (Itoa n)"
  by (auto simp: Itoa_def dest: itoa_nat_decimal)

lemma ShardStatefulSetName_inj:
  assumes "ShardStatefulSetName a m = ShardStatefulSetName b n" and "0 \<le> m" and "0 \<le> n"
  shows "a = b \<and> m = n"
proof -
  have "(a @ ''-shard'') @ CHR ''-'' # Itoa m = (b @ ''-shard'') @ CHR ''-'' # Itoa n"
    using assms(1) by (simp add: ShardStatefulSetName_def)
  then have "a @ ''-shard'' = b @ ''-shard'' \<and> Itoa m = Itoa n"
    by (rule last_sep_inject) (use assms hyphen_notin_Itoa in simp_all)
  then show ?thesis by (simp add: Itoa_inj)
qed

end
