(* ===== verification/Kube.thy ===== *)
theory Kube
  imports Cluster_Types
begin

text \<open>
  The Kubernetes objects the controllers read and write, and the API client they call.

  The API server and the \<open>controller-runtime\<close> client are not part of the repository, so the client is
  a parameter: a record of operations over an opaque world \<open>'w\<close>, one field per call the controllers
  make in the cluster's namespace. Every operation of the controllers takes the client as an argument
  and threads the world. What the code relies on is the locale \<open>kube_client\<close>: a successful read
  returns what is stored, a patch changes the patched object only, a failed write either took effect
  or did not (the answer to a committed write can be lost). \<open>mem_client\<close> is an object store that
  meets these laws.
\<close>

section \<open>Objects\<close>

text \<open>\<open>statusapi.Role\<close> and \<open>statusapi.Status\<close>: what an instance manager reports in its pod annotation.\<close>

datatype Role = RoleStarting | RolePrimary | RoleReplica | RoleStopping | RoleUnknown

record Status =
  st_Role :: Role
  st_Promoted :: bool
  st_Ready :: bool
  st_Endpoint :: string
  st_LagBytes :: int
  st_WALLSNBytes :: int
  st_SizeBytes :: int
  st_Reason :: string
  st_Message :: string
  st_LastUpdate :: time

definition IsStale :: "Status \<Rightarrow> time \<Rightarrow> time \<Rightarrow> bool" where
  "IsStale s now thresh \<longleftrightarrow> now - st_LastUpdate s > thresh"

text \<open>The fields of a \<open>corev1.Pod\<close> the controllers read. The annotation
  \<open>postgres.keiailab.io/instance-status\<close> is kept decoded: \<open>None\<close> when it is absent or not valid JSON,
  which is when \<open>parsePodStatus\<close> answers \<open>ok = false\<close>.\<close>

record Pod =
  pod_Name :: string
  pod_Labels :: labels
  pod_InstanceStatus :: "Status option"
  pod_CreationTimestamp :: time
  pod_DeletionTimestamp :: "time option"
  pod_Finalizers :: "string list"
  pod_NodeName :: string
  pod_Phase :: string
  pod_Conditions :: "(string \<times> string) list"
  pod_ContainerStatuses :: "(string \<times> bool) list"

record PVC =
  pvc_Name :: string
  pvc_Labels :: labels

record Node =
  node_Name :: string
  node_Conditions :: "(string \<times> string) list"

text \<open>The first condition of a type: the loops over \<open>Status.Conditions\<close> stop there.\<close>

definition condition_status :: "(string \<times> string) list \<Rightarrow> string \<Rightarrow> string option" where
  "condition_status cs ty = map_of cs ty"

definition parsePodStatus :: "Pod \<Rightarrow> Status option" where
  "parsePodStatus pod = pod_InstanceStatus pod"

section \<open>The fence label of \<open>internal/instance/fencing\<close>\<close>

definition FenceLabelKey :: string where "FenceLabelKey = ''postgres.keiailab.io/fenced''"
definition FenceLabelValue :: string where "FenceLabelValue = ''true''"

definition PVCName :: "string \<Rightarrow> string" where
  "PVCName podName = ''data-'' @ podName"

definition isLabeledFenced :: "PVC \<Rightarrow> bool" where
  "isLabeledFenced pvc \<longleftrightarrow> label_of (pvc_Labels pvc) FenceLabelKey = FenceLabelValue"

definition add_fence :: "PVC \<Rightarrow> PVC" where
  "add_fence pvc = pvc\<lparr>pvc_Labels := (pvc_Labels pvc)(FenceLabelKey \<mapsto> FenceLabelValue)\<rparr>"

definition drop_fence :: "PVC \<Rightarrow> PVC" where
  "drop_fence pvc = pvc\<lparr>pvc_Labels := (pvc_Labels pvc)(FenceLabelKey := None)\<rparr>"

section \<open>The client\<close>

datatype ApiError = NotFound | ApiFailure string

record 'w Client =
  c_GetPod :: "'w \<Rightarrow> string \<Rightarrow> (ApiError, Pod) result"
  c_ListPods :: "'w \<Rightarrow> (string \<times> string) list \<Rightarrow> (ApiError, Pod list) result"
  c_PatchPod :: "Pod \<Rightarrow> Pod \<Rightarrow> 'w \<Rightarrow> ApiError option \<times> 'w"
  c_DeletePod :: "string \<Rightarrow> nat option \<Rightarrow> 'w \<Rightarrow> ApiError option \<times> 'w"
  c_GetPVC :: "'w \<Rightarrow> string \<Rightarrow> (ApiError, PVC) result"
  c_ListPVCs :: "'w \<Rightarrow> (ApiError, PVC list) result"
  c_PatchPVC :: "PVC \<Rightarrow> PVC \<Rightarrow> 'w \<Rightarrow> ApiError option \<times> 'w"
  c_LabelPVC :: "string \<Rightarrow> string \<Rightarrow> string option \<Rightarrow> 'w \<Rightarrow> ApiError option \<times> 'w"
  c_DeletePVC :: "string \<Rightarrow> 'w \<Rightarrow> ApiError option \<times> 'w"
  c_GetNode :: "'w \<Rightarrow> string \<Rightarrow> (ApiError, Node) result"
  c_PatchAnnotations :: "labels \<Rightarrow> 'w \<Rightarrow> ApiError option \<times> 'w"

definition selects :: "(string \<times> string) list \<Rightarrow> Pod \<Rightarrow> bool" where
  "selects sel pod \<longleftrightarrow> (\<forall>(k, v) \<in> set sel. pod_Labels pod k = Some v)"

locale kube_client =
  fixes c :: "'w Client" and pods :: "'w \<Rightarrow> string \<rightharpoonup> Pod" and pvcs :: "'w \<Rightarrow> string \<rightharpoonup> PVC"
  assumes get_pod: "c_GetPod c w n = Inr p \<Longrightarrow> pods w n = Some p"
    and get_pod_NotFound: "c_GetPod c w n = Inl NotFound \<Longrightarrow> pods w n = None"
    and list_pods: "c_ListPods c w sel = Inr ps \<Longrightarrow>
          distinct (map pod_Name ps) \<and> (\<forall>p. p \<in> set ps \<longleftrightarrow> pods w (pod_Name p) = Some p \<and> selects sel p)"
    and get_pvc: "c_GetPVC c w n = Inr v \<Longrightarrow> pvcs w n = Some v"
    and get_pvc_NotFound: "c_GetPVC c w n = Inl NotFound \<Longrightarrow> pvcs w n = None"
    and list_pvcs: "c_ListPVCs c w = Inr vs \<Longrightarrow>
          distinct (map pvc_Name vs) \<and> (\<forall>v. v \<in> set vs \<longleftrightarrow> pvcs w (pvc_Name v) = Some v)"
    and pod_names: "pods w n = Some p \<Longrightarrow> pod_Name p = n"
    and pvc_names: "pvcs w n = Some v \<Longrightarrow> pvc_Name v = n"
    and patch_pvc: "c_PatchPVC c b v w = (r, w') \<Longrightarrow> pvcs w (pvc_Name b) = Some b \<Longrightarrow>
          pvc_Name v = pvc_Name b \<Longrightarrow>
          (pvcs w' = (pvcs w)(pvc_Name v \<mapsto> v) \<or> r \<noteq> None \<and> pvcs w' = pvcs w) \<and> pods w' = pods w"
    and label_pvc: "c_LabelPVC c n k x w = (r, w') \<Longrightarrow>
          (r = None \<longrightarrow> pvcs w n \<noteq> None) \<and>
          (pvcs w' = (pvcs w)(n := map_option (\<lambda>v. v\<lparr>pvc_Labels := (pvc_Labels v)(k := x)\<rparr>) (pvcs w n)) \<or>
           r \<noteq> None \<and> pvcs w' = pvcs w) \<and> pods w' = pods w"
    and delete_pvc: "c_DeletePVC c n w = (r, w') \<Longrightarrow>
          (pvcs w' = (pvcs w)(n := None) \<or> pvcs w' = pvcs w) \<and> pods w' = pods w"
    and patch_pod: "c_PatchPod c q p w = (r, w') \<Longrightarrow> pods w (pod_Name q) = Some q \<Longrightarrow>
          pod_Name p = pod_Name q \<Longrightarrow>
          (pods w' = (pods w)(pod_Name p \<mapsto> p) \<or> r \<noteq> None \<and> pods w' = pods w) \<and> pvcs w' = pvcs w"
    and delete_pod: "c_DeletePod c n g w = (r, w') \<Longrightarrow>
          (\<forall>m. m \<noteq> n \<longrightarrow> pods w' m = pods w m) \<and> pvcs w' = pvcs w"
    and patch_annotations: "c_PatchAnnotations c as w = (r, w') \<Longrightarrow> pods w' = pods w \<and> pvcs w' = pvcs w"
begin

text \<open>Reads agree with each other.\<close>

lemma get_pvc_name: "c_GetPVC c w n = Inr v \<Longrightarrow> pvc_Name v = n"
  using get_pvc pvc_names by blast

lemma list_pvcs_mem: "c_ListPVCs c w = Inr vs \<Longrightarrow> v \<in> set vs \<longleftrightarrow> pvcs w (pvc_Name v) = Some v"
  using list_pvcs by blast

lemma patch_pvc_other:
  "c_PatchPVC c b v w = (r, w') \<Longrightarrow> pvcs w (pvc_Name b) = Some b \<Longrightarrow> pvc_Name v = pvc_Name b \<Longrightarrow>
   m \<noteq> pvc_Name b \<Longrightarrow> pvcs w' m = pvcs w m"
  using patch_pvc [of b v w r w'] by auto

lemma patch_pvc_ok:
  "c_PatchPVC c b v w = (None, w') \<Longrightarrow> pvcs w (pvc_Name b) = Some b \<Longrightarrow> pvc_Name v = pvc_Name b \<Longrightarrow>
   pvcs w' = (pvcs w)(pvc_Name v \<mapsto> v)"
  using patch_pvc [of b v w None w'] by auto

end

section \<open>Facts on the fence label\<close>

lemma fenced_add_fence [simp]: "isLabeledFenced (add_fence v)"
  by (simp add: isLabeledFenced_def add_fence_def label_of_def)

lemma fenced_drop_fence [simp]: "\<not> isLabeledFenced (drop_fence v)"
  by (simp add: isLabeledFenced_def drop_fence_def label_of_def FenceLabelValue_def)

lemma pvc_Name_fence [simp]: "pvc_Name (add_fence v) = pvc_Name v" "pvc_Name (drop_fence v) = pvc_Name v"
  by (simp_all add: add_fence_def drop_fence_def)

lemma PVCName_inject [simp]: "PVCName a = PVCName b \<longleftrightarrow> a = b"
  by (simp add: PVCName_def)

section \<open>An object store\<close>

text \<open>Lists of objects with unique names, the first of a name being the stored one.\<close>

record Store =
  s_pods :: "Pod list"
  s_pvcs :: "PVC list"
  s_nodes :: "Node list"
  s_annotations :: labels

definition pod_in :: "'a Store_scheme \<Rightarrow> string \<rightharpoonup> Pod" where
  "pod_in s n = find (\<lambda>p. pod_Name p = n) (s_pods s)"

definition pvc_in :: "'a Store_scheme \<Rightarrow> string \<rightharpoonup> PVC" where
  "pvc_in s n = find (\<lambda>v. pvc_Name v = n) (s_pvcs s)"

definition found :: "'a option \<Rightarrow> (ApiError, 'a) result" where
  "found x = (case x of None \<Rightarrow> Inl NotFound | Some a \<Rightarrow> Inr a)"

fun first_named :: "('a \<Rightarrow> string) \<Rightarrow> string set \<Rightarrow> 'a list \<Rightarrow> 'a list" where
  "first_named nm seen [] = []"
| "first_named nm seen (x # xs) =
     (if nm x \<in> seen then first_named nm seen xs else x # first_named nm (insert (nm x) seen) xs)"

definition mem_client :: "'a Store_scheme Client" where
  "mem_client =
     \<lparr>c_GetPod = (\<lambda>s n. found (pod_in s n)),
      c_ListPods = (\<lambda>s sel. Inr (filter (selects sel) (first_named pod_Name {} (s_pods s)))),
      c_PatchPod = (\<lambda>b p s. (None, s\<lparr>s_pods := p # s_pods s\<rparr>)),
      c_DeletePod = (\<lambda>n g s. if pod_in s n = None then (Some NotFound, s)
         else (None, s\<lparr>s_pods := filter (\<lambda>p. pod_Name p \<noteq> n) (s_pods s)\<rparr>)),
      c_GetPVC = (\<lambda>s n. found (pvc_in s n)),
      c_ListPVCs = (\<lambda>s. Inr (first_named pvc_Name {} (s_pvcs s))),
      c_PatchPVC = (\<lambda>b v s. (None, s\<lparr>s_pvcs := v # s_pvcs s\<rparr>)),
      c_LabelPVC = (\<lambda>n k x s. case pvc_in s n of None \<Rightarrow> (Some NotFound, s)
         | Some v \<Rightarrow> (None, s\<lparr>s_pvcs := v\<lparr>pvc_Labels := (pvc_Labels v)(k := x)\<rparr> # s_pvcs s\<rparr>)),
      c_DeletePVC = (\<lambda>n s. if pvc_in s n = None then (Some NotFound, s)
         else (None, s\<lparr>s_pvcs := filter (\<lambda>v. pvc_Name v \<noteq> n) (s_pvcs s)\<rparr>)),
      c_GetNode = (\<lambda>s n. found (find (\<lambda>x. node_Name x = n) (s_nodes s))),
      c_PatchAnnotations = (\<lambda>as s. (None, s\<lparr>s_annotations := as\<rparr>))\<rparr>"

lemma find_name: "find (\<lambda>x. nm x = n) xs = Some x \<Longrightarrow> nm x = n"
  by (induction xs) (auto split: if_splits)

lemma find_filter_name:
  "find (\<lambda>x. nm x = m) (filter (\<lambda>x. nm x \<noteq> n) xs) = (if m = n then None else find (\<lambda>x. nm x = m) xs)"
  by (induction xs) auto

lemma first_named_names: "set (map nm (first_named nm seen xs)) = set (map nm xs) - seen"
  by (induction xs arbitrary: seen) auto

lemma first_named_distinct: "distinct (map nm (first_named nm seen xs))"
proof (induction xs arbitrary: seen)
  case (Cons x xs)
  have "nm x \<notin> set (map nm (first_named nm (insert (nm x) seen) xs))"
    by (simp only: first_named_names) simp
  with Cons show ?case by simp
qed simp

lemma first_named_mem:
  "x \<in> set (first_named nm seen xs) \<longleftrightarrow> nm x \<notin> seen \<and> find (\<lambda>y. nm y = nm x) xs = Some x"
  by (induction xs arbitrary: seen) auto

lemma distinct_map_filter_names: "distinct (map nm xs) \<Longrightarrow> distinct (map nm (filter P xs))"
  by (induction xs) auto

interpretation store: kube_client mem_client pod_in pvc_in
proof unfold_locales
  show "c_ListPods mem_client w sel = Inr ps \<Longrightarrow>
      distinct (map pod_Name ps) \<and> (\<forall>p. p \<in> set ps \<longleftrightarrow> pod_in w (pod_Name p) = Some p \<and> selects sel p)"
    for w sel ps
    by (auto simp: mem_client_def pod_in_def first_named_mem
        intro: distinct_map_filter_names first_named_distinct)
  show "c_ListPVCs mem_client w = Inr vs \<Longrightarrow>
      distinct (map pvc_Name vs) \<and> (\<forall>v. v \<in> set vs \<longleftrightarrow> pvc_in w (pvc_Name v) = Some v)" for w vs
    by (auto simp: mem_client_def pvc_in_def first_named_mem intro: first_named_distinct)
qed (auto simp: mem_client_def found_def pod_in_def pvc_in_def find_filter_name fun_eq_iff
    split: option.splits if_splits dest: find_name)

section \<open>Package \<open>fencing\<close>: the instance manager's own fence\<close>

text \<open>\<open>Real\<close> acts on the PVC of its own pod, through label patches by name.\<close>

datatype FencingError = FenceApi ApiError | FencePVCNotFound | ErrFenced | FenceConfig string

definition NewReal :: "bool \<Rightarrow> string \<Rightarrow> string \<Rightarrow> (FencingError, string) result" where
  "NewReal hasClient namespace pvcName =
     (if \<not> hasClient then Inl (FenceConfig ''Client must not be nil'')
      else if namespace = [] then Inl (FenceConfig ''Namespace must not be empty'')
      else if pvcName = [] then Inl (FenceConfig ''PVCName must not be empty'')
      else Inr pvcName)"

definition MarkFenced :: "'w Client \<Rightarrow> string \<Rightarrow> 'w \<Rightarrow> FencingError option \<times> 'w" where
  "MarkFenced c pvc w = apfst (map_option FenceApi) (c_LabelPVC c pvc FenceLabelKey (Some FenceLabelValue) w)"

definition Unfence :: "'w Client \<Rightarrow> string \<Rightarrow> 'w \<Rightarrow> FencingError option \<times> 'w" where
  "Unfence c pvc w = apfst (map_option FenceApi) (c_LabelPVC c pvc FenceLabelKey None w)"

definition IsFenced :: "'w Client \<Rightarrow> string \<Rightarrow> 'w \<Rightarrow> (FencingError, bool) result" where
  "IsFenced c pvc w =
     (case c_GetPVC c w pvc of
        Inl NotFound \<Rightarrow> Inl FencePVCNotFound
      | Inl e \<Rightarrow> Inl (FenceApi e)
      | Inr v \<Rightarrow> Inr (isLabeledFenced v))"

definition VerifyNotFenced :: "'w Client \<Rightarrow> string \<Rightarrow> 'w \<Rightarrow> FencingError option" where
  "VerifyNotFenced c pvc w =
     (case IsFenced c pvc w of Inl e \<Rightarrow> Some e | Inr fenced \<Rightarrow> if fenced then Some ErrFenced else None)"

context kube_client
begin

text \<open>After a successful \<open>MarkFenced\<close> no promotion guard passes, until \<open>Unfence\<close> succeeds.\<close>

lemma MarkFenced_blocks: "MarkFenced c n w = (None, w') \<Longrightarrow> VerifyNotFenced c n w' \<noteq> None"
  using label_pvc [of n FenceLabelKey "Some FenceLabelValue" w None w'] get_pvc [of w' n]
  by (auto simp: MarkFenced_def VerifyNotFenced_def IsFenced_def apfst_def map_prod_def isLabeledFenced_def
      label_of_def split: sum.splits ApiError.splits prod.splits)

lemma Unfence_admits:
  "Unfence c n w = (None, w') \<Longrightarrow> c_GetPVC c w' n = Inr v \<Longrightarrow> VerifyNotFenced c n w' = None"
  using label_pvc [of n FenceLabelKey None w None w'] get_pvc [of w' n v]
  by (auto simp: Unfence_def VerifyNotFenced_def IsFenced_def apfst_def map_prod_def isLabeledFenced_def
      label_of_def FenceLabelValue_def split: sum.splits ApiError.splits prod.splits)

end

end
