(* ===== verification/Failover.thy ===== *)
theory Failover
  imports Kube
begin

text \<open>
  The decision layer of failover, package \<open>internal/controller/failover\<close>: detection of a failed
  primary and choice of the promotion candidate (\<open>detection.go\<close>), the promotion plan
  (\<open>promotion.go\<close>) and the PVC fencing runbook (\<open>pvc_fence_runbook.go\<close>). All of it is pure; the
  effects are in \<open>Promoter\<close>.
\<close>

section \<open>Detection\<close>

datatype FailureReason = ReasonNone | ReasonNoPrimary | ReasonPrimaryNotReady | ReasonNoEligibleReplica

fun reason_string :: "FailureReason \<Rightarrow> string" where
  "reason_string ReasonNone = ''''"
| "reason_string ReasonNoPrimary = ''NoPrimary''"
| "reason_string ReasonPrimaryNotReady = ''PrimaryNotReady''"
| "reason_string ReasonNoEligibleReplica = ''NoEligibleReplica''"

record Decision =
  d_Failed :: bool
  d_Reason :: FailureReason
  d_Message :: string
  d_PromotionCandidate :: "ShardEndpoint option"

definition no_failure :: Decision where
  "no_failure = \<lparr>d_Failed = False, d_Reason = ReasonNone, d_Message = [], d_PromotionCandidate = None\<rparr>"

text \<open>The verb \<open>%q\<close> on names, which contain nothing to escape, and the UTF-8 bytes of an em dash.\<close>

definition fmt_q :: "string \<Rightarrow> string" where
  "fmt_q s = CHR 0x22 # s @ [CHR 0x22]"

definition em_dash :: string where
  "em_dash = [CHR 0xE2, CHR 0x80, CHR 0x94]"

text \<open>The loop of \<open>SelectPromotionCandidate\<close>, with the best replica so far.\<close>

fun select_loop :: "ShardEndpoint option \<Rightarrow> ShardEndpoint list \<Rightarrow> ShardEndpoint option" where
  "select_loop best [] = best"
| "select_loop best (r # rs) =
     (if \<not> ep_Ready r then select_loop best rs
      else case best of
        None \<Rightarrow> select_loop (Some r) rs
      | Some b \<Rightarrow>
          if ep_LagBytes r < ep_LagBytes b then select_loop (Some r) rs
          else if ep_LagBytes r = ep_LagBytes b \<and> ep_Pod r < ep_Pod b then select_loop (Some r) rs
          else select_loop best rs)"

definition SelectPromotionCandidate :: "ShardEndpoint list \<Rightarrow> ShardEndpoint option" where
  "SelectPromotionCandidate replicas = select_loop None replicas"

definition DetectPrimaryFailure :: "ShardStatus \<Rightarrow> Decision" where
  "DetectPrimaryFailure shard =
     (let failed = (\<lambda>reason msg.
            case SelectPromotionCandidate (ss_Replicas shard) of
              None \<Rightarrow>
                \<lparr>d_Failed = True, d_Reason = ReasonNoEligibleReplica,
                 d_Message = msg @ '' '' @ em_dash @
                   '' no eligible replica for promotion (manual intervention required)'',
                 d_PromotionCandidate = None\<rparr>
            | Some candidate \<Rightarrow>
                \<lparr>d_Failed = True, d_Reason = reason, d_Message = msg, d_PromotionCandidate = Some candidate\<rparr>)
      in case ss_Primary shard of
           None \<Rightarrow> failed ReasonNoPrimary
             (''shard '' @ fmt_q (ss_Name shard) @
              '' has no primary endpoint reported (instance manager heartbeat absent)'')
         | Some p \<Rightarrow>
             if ep_Ready p then no_failure
             else failed ReasonPrimaryNotReady
               (''shard '' @ fmt_q (ss_Name shard) @ '' primary pod '' @ fmt_q (ep_Pod p) @ '' readiness=false''))"

section \<open>Promotion plan\<close>

datatype PromotionStep =
  StepRemoveStandbySignal | StepPgCtlPromote | StepWaitNotInRecovery | StepUpdateInstanceRole

record PromotionTarget =
  pt_ShardName :: string
  pt_Pod :: string
  pt_Endpoint :: string

record PromotionPlan =
  pl_Target :: PromotionTarget
  pl_Steps :: "PromotionStep list"

datatype 'e PromoteError =
    ErrNilPromoter
  | ErrNoPromotionTarget
  | ErrExecutePlan string string 'e

definition BuildPromotionPlan :: "string \<Rightarrow> ShardEndpoint option \<Rightarrow> ('e PromoteError, PromotionPlan) result" where
  "BuildPromotionPlan shardName candidate =
     (case candidate of
        None \<Rightarrow> Inl ErrNoPromotionTarget
      | Some ep \<Rightarrow>
          Inr \<lparr>pl_Target = \<lparr>pt_ShardName = shardName, pt_Pod = ep_Pod ep, pt_Endpoint = ep_Endpoint ep\<rparr>,
               pl_Steps = [StepRemoveStandbySignal, StepPgCtlPromote, StepWaitNotInRecovery,
                           StepUpdateInstanceRole]\<rparr>)"

text \<open>The promoter is an interface of the package: an argument, \<open>None\<close> for a nil one.\<close>

definition PromoteFromDecision ::
  "string \<Rightarrow> Decision \<Rightarrow> (PromotionPlan \<Rightarrow> 'w \<Rightarrow> 'e option \<times> 'w) option \<Rightarrow> 'w \<Rightarrow> 'e PromoteError option \<times> 'w" where
  "PromoteFromDecision shardName d p w =
     (if \<not> d_Failed d then (None, w)
      else case p of
        None \<Rightarrow> (Some ErrNilPromoter, w)
      | Some execute \<Rightarrow>
          (case BuildPromotionPlan shardName (d_PromotionCandidate d) of
             Inl e \<Rightarrow> (Some e, w)
           | Inr plan \<Rightarrow>
               (case execute plan w of
                  (Some e, w') \<Rightarrow>
                    (Some (ErrExecutePlan (pt_ShardName (pl_Target plan)) (pt_Pod (pl_Target plan)) e), w')
                | (None, w') \<Rightarrow> (None, w'))))"

section \<open>PVC fencing runbook\<close>

datatype PVCFenceReason =
    PVCFenceReasonNone
  | PVCFenceReasonSplitBrain
  | PVCFenceReasonStaleLease
  | PVCFenceReasonMultiAttach
  | PVCFenceReasonHealthyOperatorPromotionRace

record PVCFenceDecision =
  fd_PVCName :: string
  fd_PodName :: string
  fd_ShouldFence :: bool
  fd_Reason :: PVCFenceReason

record PVCFenceMountedPod =
  mp_Name :: string
  mp_InstanceRole :: string
  mp_Ready :: bool

text \<open>\<open>LeaseRenewTime\<close> is an option: \<open>None\<close> is the zero \<open>time.Time\<close>. The diagnostic text \<open>Detail\<close>
  of a decision is not kept.\<close>

record PVCFenceInput =
  fi_PVCName :: string
  fi_MountedPods :: "PVCFenceMountedPod list"
  fi_LeaseHolderIdentity :: string
  fi_LeaseRenewTime :: "time option"
  fi_LeaseDurationSeconds :: int
  fi_Now :: time
  fi_CSIControllerReportsMultiAttach :: bool

definition primaryPods :: "PVCFenceMountedPod list \<Rightarrow> PVCFenceMountedPod list" where
  "primaryPods pods = filter (\<lambda>p. mp_InstanceRole p = ''primary'' \<and> mp_Ready p) pods"

definition leaseStale :: "PVCFenceInput \<Rightarrow> bool" where
  "leaseStale i =
     (case fi_LeaseRenewTime i of
        None \<Rightarrow> False
      | Some renew \<Rightarrow>
          if fi_LeaseDurationSeconds i = 0 then False
          else fi_Now i > renew + fi_LeaseDurationSeconds i * second)"

definition DecidePVCFence :: "PVCFenceInput \<Rightarrow> PVCFenceDecision list" where
  "DecidePVCFence i =
     (let dec = (\<lambda>f r p. \<lparr>fd_PVCName = fi_PVCName i, fd_PodName = mp_Name p, fd_ShouldFence = f, fd_Reason = r\<rparr>);
          primaries = primaryPods (fi_MountedPods i)
      in if fi_CSIControllerReportsMultiAttach i
         then map (dec True PVCFenceReasonMultiAttach) (fi_MountedPods i)
         else if 2 \<le> length primaries
         then map (\<lambda>p. dec (mp_Name p \<noteq> fi_LeaseHolderIdentity i) PVCFenceReasonSplitBrain p) primaries
         else if leaseStale i \<and> length primaries = 1 \<and> mp_Name (hd primaries) \<noteq> fi_LeaseHolderIdentity i
         then [dec True PVCFenceReasonStaleLease (hd primaries)]
         else map (dec False PVCFenceReasonNone) (fi_MountedPods i))"

section \<open>The candidate is the least-lagging ready replica\<close>

definition better :: "ShardEndpoint \<Rightarrow> ShardEndpoint \<Rightarrow> bool" where
  "better a b \<longleftrightarrow> (ep_LagBytes a, ep_Pod a) \<le> (ep_LagBytes b, ep_Pod b)"

lemma better_refl [simp]: "better a a"
  by (simp add: better_def)

lemma better_trans: "better a b \<Longrightarrow> better b c \<Longrightarrow> better a c"
  unfolding better_def by (rule order_trans)

lemma select_loop_better:
  "select_loop (Some b) rs = Some x \<Longrightarrow> ep_Ready b \<Longrightarrow>
   ep_Ready x \<and> x \<in> insert b (set rs) \<and> better x b \<and> (\<forall>r\<in>set rs. ep_Ready r \<longrightarrow> better x r)"
proof (induction rs arbitrary: b)
  case (Cons r rs)
  let ?take = "ep_Ready r \<and>
    (ep_LagBytes r < ep_LagBytes b \<or> ep_LagBytes r = ep_LagBytes b \<and> ep_Pod r < ep_Pod b)"
  show ?case
  proof (cases ?take)
    case True
    then have "select_loop (Some r) rs = Some x" using Cons.prems(1) by (auto split: if_splits)
    then have IH: "ep_Ready x \<and> x \<in> insert r (set rs) \<and> better x r \<and> (\<forall>r\<in>set rs. ep_Ready r \<longrightarrow> better x r)"
      by (rule Cons.IH) (simp add: True)
    have "better r b" using True by (auto simp: better_def)
    with IH show ?thesis using better_trans by auto
  next
    case False
    then have "select_loop (Some b) rs = Some x" using Cons.prems(1) by (auto split: if_splits)
    then have IH: "ep_Ready x \<and> x \<in> insert b (set rs) \<and> better x b \<and> (\<forall>r\<in>set rs. ep_Ready r \<longrightarrow> better x r)"
      by (rule Cons.IH) (rule Cons.prems(2))
    have "ep_Ready r \<Longrightarrow> better b r" using False by (auto simp: better_def)
    with IH show ?thesis using better_trans by auto
  qed
qed simp

lemma select_loop_Some: "\<exists>x. select_loop (Some b) rs = Some x"
  by (induction rs arbitrary: b) auto

lemma SelectPromotionCandidate_None:
  "SelectPromotionCandidate rs = None \<longleftrightarrow> (\<forall>r\<in>set rs. \<not> ep_Ready r)"
  unfolding SelectPromotionCandidate_def
proof (induction rs)
  case (Cons r rs)
  then show ?case using select_loop_Some [of r rs] by auto
qed simp

lemma SelectPromotionCandidate_Some:
  "SelectPromotionCandidate rs = Some x \<Longrightarrow>
   ep_Ready x \<and> x \<in> set rs \<and> (\<forall>r\<in>set rs. ep_Ready r \<longrightarrow> better x r)"
  unfolding SelectPromotionCandidate_def
proof (induction rs)
  case (Cons r rs)
  show ?case
  proof (cases "ep_Ready r")
    case True
    then show ?thesis using Cons.prems select_loop_better [of r rs x] by auto
  next
    case False
    then show ?thesis using Cons by auto
  qed
qed simp

text \<open>C24: The promotion candidate is the ready replica with the least replication lag, ties resolved
  by the least pod name; there is none exactly when no replica is ready. Hence, when pod names are
  distinct, the choice does not depend on the order in which the replicas are listed.\<close>

theorem SelectPromotionCandidate_least_lag:
  "(SelectPromotionCandidate rs = None \<longleftrightarrow> (\<forall>r\<in>set rs. \<not> ep_Ready r)) \<and>
   (\<forall>x. SelectPromotionCandidate rs = Some x \<longrightarrow>
      x \<in> set rs \<and> ep_Ready x \<and>
      (\<forall>r\<in>set rs. ep_Ready r \<longrightarrow>
         ep_LagBytes x < ep_LagBytes r \<or> ep_LagBytes x = ep_LagBytes r \<and> ep_Pod x \<le> ep_Pod r)) \<and>
   (\<forall>rs'. set rs' = set rs \<longrightarrow> inj_on ep_Pod (set rs) \<longrightarrow>
      SelectPromotionCandidate rs' = SelectPromotionCandidate rs)"
proof (intro conjI allI impI)
  show "SelectPromotionCandidate rs = None \<longleftrightarrow> (\<forall>r\<in>set rs. \<not> ep_Ready r)"
    by (rule SelectPromotionCandidate_None)
next
  fix x assume "SelectPromotionCandidate rs = Some x"
  note x = SelectPromotionCandidate_Some [OF this]
  show "x \<in> set rs" "ep_Ready x" using x by simp_all
  show "\<forall>r\<in>set rs. ep_Ready r \<longrightarrow>
      ep_LagBytes x < ep_LagBytes r \<or> ep_LagBytes x = ep_LagBytes r \<and> ep_Pod x \<le> ep_Pod r"
    using x by (auto simp: better_def)
next
  fix rs' assume same: "set rs' = set rs" and inj: "inj_on ep_Pod (set rs)"
  show "SelectPromotionCandidate rs' = SelectPromotionCandidate rs"
  proof (cases "SelectPromotionCandidate rs")
    case None
    then show ?thesis using SelectPromotionCandidate_None same by metis
  next
    case (Some x)
    then obtain y where y: "SelectPromotionCandidate rs' = Some y"
      using SelectPromotionCandidate_None same by (metis not_Some_eq)
    note xs = SelectPromotionCandidate_Some [OF Some] and ys = SelectPromotionCandidate_Some [OF y]
    then have "better x y" "better y x" using same by simp_all
    then have "ep_Pod x = ep_Pod y" by (auto simp: better_def)
    then have "x = y" using inj xs ys same by (auto dest: inj_onD)
    with Some y show ?thesis by simp
  qed
qed

definition demo_replica :: "string \<Rightarrow> bool \<Rightarrow> int \<Rightarrow> ShardEndpoint" where
  "demo_replica n r lag = \<lparr>ep_Pod = n, ep_Endpoint = n @ '':5432'', ep_Ready = r, ep_LagBytes = lag,
     ep_Reason = [], ep_Message = []\<rparr>"

theorem SelectPromotionCandidate_least_lag_witness:
  "let rs = [demo_replica ''p2'' True 5, demo_replica ''p1'' True 5, demo_replica ''p0'' False 0];
       x = demo_replica ''p1'' True 5
   in SelectPromotionCandidate rs = Some x \<and>
      (\<forall>r\<in>set rs. ep_Ready r \<longrightarrow>
         ep_LagBytes x < ep_LagBytes r \<or> ep_LagBytes x = ep_LagBytes r \<and> ep_Pod x \<le> ep_Pod r)"
proof -
  let ?rs = "[demo_replica ''p2'' True 5, demo_replica ''p1'' True 5, demo_replica ''p0'' False 0]"
  have eq: "SelectPromotionCandidate ?rs = Some (demo_replica ''p1'' True 5)" by code_simp
  show ?thesis
    using SelectPromotionCandidate_least_lag [of ?rs] eq unfolding Let_def by blast
qed

lemma DetectPrimaryFailure_Failed:
  "d_Failed (DetectPrimaryFailure s) \<longleftrightarrow> (\<forall>p. ss_Primary s = Some p \<longrightarrow> \<not> ep_Ready p)"
  by (cases "ss_Primary s"; cases "SelectPromotionCandidate (ss_Replicas s)")
    (simp_all add: DetectPrimaryFailure_def no_failure_def)

lemma DetectPrimaryFailure_candidate:
  "d_PromotionCandidate (DetectPrimaryFailure s) =
     (if d_Failed (DetectPrimaryFailure s) then SelectPromotionCandidate (ss_Replicas s) else None)"
  by (cases "ss_Primary s"; cases "SelectPromotionCandidate (ss_Replicas s)")
    (simp_all add: DetectPrimaryFailure_def no_failure_def)

lemma DetectPrimaryFailure_reason:
  "d_Reason (DetectPrimaryFailure s) = ReasonNone \<longleftrightarrow> \<not> d_Failed (DetectPrimaryFailure s)"
  by (cases "ss_Primary s"; cases "SelectPromotionCandidate (ss_Replicas s)")
    (simp_all add: DetectPrimaryFailure_def no_failure_def)

section \<open>The fencing runbook leaves one writer\<close>

definition fenced_names :: "PVCFenceDecision list \<Rightarrow> string set" where
  "fenced_names ds = set (map fd_PodName (filter fd_ShouldFence ds))"

definition ready_primaries :: "PVCFenceInput \<Rightarrow> string set" where
  "ready_primaries i = mp_Name ` set (primaryPods (fi_MountedPods i))"

lemma fenced_names_cases:
  "fenced_names (DecidePVCFence i) =
     (if fi_CSIControllerReportsMultiAttach i then mp_Name ` set (fi_MountedPods i)
      else if 2 \<le> length (primaryPods (fi_MountedPods i))
           then ready_primaries i - {fi_LeaseHolderIdentity i}
      else if leaseStale i then ready_primaries i - {fi_LeaseHolderIdentity i}
      else {})"
proof -
  let ?ps = "primaryPods (fi_MountedPods i)"
  note defs = fenced_names_def DecidePVCFence_def ready_primaries_def Let_def filter_map comp_def
  consider (multi) "fi_CSIControllerReportsMultiAttach i"
    | (many) "\<not> fi_CSIControllerReportsMultiAttach i" "2 \<le> length ?ps"
    | (one) p where "\<not> fi_CSIControllerReportsMultiAttach i" "?ps = [p]"
    | (none) "\<not> fi_CSIControllerReportsMultiAttach i" "?ps = []"
  proof (cases ?ps)
    case (Cons p qs)
    then show ?thesis using that by (cases qs) auto
  qed (use that in blast)
  then show ?thesis
  proof cases
    case many
    then have "fenced_names (DecidePVCFence i) =
        mp_Name ` {p \<in> set ?ps. mp_Name p \<noteq> fi_LeaseHolderIdentity i}"
      by (simp add: defs)
    also have "\<dots> = ready_primaries i - {fi_LeaseHolderIdentity i}"
      unfolding ready_primaries_def by auto
    finally show ?thesis using many by simp
  next
    case one
    then show ?thesis
      by (cases "leaseStale i"; cases "mp_Name p = fi_LeaseHolderIdentity i") (auto simp: defs)
  qed (simp_all add: defs)
qed

lemma primaryPods_subset: "ready_primaries i \<subseteq> mp_Name ` set (fi_MountedPods i)"
  by (auto simp: ready_primaries_def primaryPods_def)

text \<open>C25: For every observation, the fencing decisions leave at most one ready primary pod of the
  volume unfenced. When two or more ready primaries are seen, the one left is the lease holder; the
  lease holder is fenced only on a multi-attach report, and then every pod that mounts the volume is.\<close>

theorem DecidePVCFence_single_writer:
  "card (ready_primaries i - fenced_names (DecidePVCFence i)) \<le> 1 \<and>
   (2 \<le> card (ready_primaries i) \<longrightarrow>
      ready_primaries i - fenced_names (DecidePVCFence i) \<subseteq> {fi_LeaseHolderIdentity i}) \<and>
   (fi_LeaseHolderIdentity i \<in> fenced_names (DecidePVCFence i) \<longrightarrow>
      fi_CSIControllerReportsMultiAttach i \<and>
      fenced_names (DecidePVCFence i) = mp_Name ` set (fi_MountedPods i))"
proof -
  let ?P = "ready_primaries i" and ?h = "fi_LeaseHolderIdentity i"
  have fin: "finite ?P" by (simp add: ready_primaries_def)
  have len: "card ?P \<le> length (primaryPods (fi_MountedPods i))"
    unfolding ready_primaries_def by (metis card_length length_map set_map)
  have diff: "?P - (?P - {?h}) \<subseteq> {?h}" by blast
  then have le1: "card (?P - (?P - {?h})) \<le> 1"
    using card_mono [of "{?h}" "?P - (?P - {?h})"] by simp
  have "card (?P - fenced_names (DecidePVCFence i)) \<le> 1"
    using le1 len primaryPods_subset [of i]
    by (auto simp: fenced_names_cases Diff_eq_empty_iff [THEN iffD2])
  moreover have "2 \<le> card ?P \<Longrightarrow> ?P - fenced_names (DecidePVCFence i) \<subseteq> {?h}"
    using diff len primaryPods_subset [of i] by (auto simp: fenced_names_cases)
  moreover have "?h \<in> fenced_names (DecidePVCFence i) \<Longrightarrow> fi_CSIControllerReportsMultiAttach i \<and>
      fenced_names (DecidePVCFence i) = mp_Name ` set (fi_MountedPods i)"
    by (auto simp: fenced_names_cases split: if_splits)
  ultimately show ?thesis by blast
qed

definition demo_fence_input :: PVCFenceInput where
  "demo_fence_input =
     \<lparr>fi_PVCName = ''data-a-0'',
      fi_MountedPods = [\<lparr>mp_Name = ''a-0'', mp_InstanceRole = ''primary'', mp_Ready = True\<rparr>,
                        \<lparr>mp_Name = ''a-1'', mp_InstanceRole = ''primary'', mp_Ready = True\<rparr>],
      fi_LeaseHolderIdentity = ''a-1'', fi_LeaseRenewTime = None, fi_LeaseDurationSeconds = 15,
      fi_Now = 0, fi_CSIControllerReportsMultiAttach = False\<rparr>"

theorem DecidePVCFence_single_writer_witness:
  "ready_primaries demo_fence_input - fenced_names (DecidePVCFence demo_fence_input) = {''a-1''}"
proof -
  have P: "ready_primaries demo_fence_input = {''a-0'', ''a-1''}"
    by (simp add: ready_primaries_def primaryPods_def demo_fence_input_def)
  have "''a-1'' \<notin> fenced_names (DecidePVCFence demo_fence_input)"
    using DecidePVCFence_single_writer [of demo_fence_input] by (simp add: demo_fence_input_def)
  moreover have "ready_primaries demo_fence_input - fenced_names (DecidePVCFence demo_fence_input) \<subseteq> {''a-1''}"
    using DecidePVCFence_single_writer [of demo_fence_input] by (simp add: P) (simp add: demo_fence_input_def)
  ultimately show ?thesis using P by blast
qed

end
