(* ===== verification/Aggregate_Status.thy ===== *)
theory Aggregate_Status
  imports Failover Names Vindex
begin

text \<open>
  Aggregation of the instance reports into the status of a shard, \<open>aggregate_status.go\<close>, and the
  shard topology that the \<open>ShardRange\<close> resources induce. \<open>aggregateShardStatusMatching\<close> lists the
  pods, reads which PVCs are fenced, and folds the pods of the shard into one primary and a list of
  replicas. The label selector of the cluster's pods comes from the commons library and is an
  argument; the clock reading is the argument \<open>now\<close>.
\<close>

section \<open>Readiness of a pod\<close>

definition statusStaleThresh :: time where "statusStaleThresh = 30 * second"
definition roguePrimaryReason :: string where "roguePrimaryReason = ''rogue-primary''"
definition fencedMemberReason :: string where "fencedMemberReason = ''fenced''"
definition podNotReadyReason :: string where "podNotReadyReason = ''pod-not-ready''"
definition jobNameLabelKey :: string where "jobNameLabelKey = ''batch.kubernetes.io/job-name''"

definition kubernetesPodNotReady :: "Pod \<Rightarrow> bool" where
  "kubernetesPodNotReady pod =
     (if pod_DeletionTimestamp pod \<noteq> None then True
      else if pod_Phase pod = ''Pending'' \<or> pod_Phase pod = ''Failed'' \<or> pod_Phase pod = ''Succeeded'' then True
      else case condition_status (pod_Conditions pod) ''Ready'' of
        Some st \<Rightarrow> st \<noteq> ''True''
      | None \<Rightarrow>
          (case map_of (pod_ContainerStatuses pod) pgContainerName of
             Some ready \<Rightarrow> \<not> ready
           | None \<Rightarrow> False))"

definition podMatchesShardIdentity :: "Pod \<Rightarrow> int \<Rightarrow> bool" where
  "podMatchesShardIdentity pod ord =
     (if label_of (pod_Labels pod) ShardLabelKey = Itoa ord then True
      else label_of (pod_Labels pod) ShardIDLabelKey = ShardIDForOrdinal ord)"

definition podMatchesNamedShardIdentity :: "Pod \<Rightarrow> string \<Rightarrow> bool" where
  "podMatchesNamedShardIdentity pod shardID =
     (if shardID = [] then False
      else if label_of (pod_Labels pod) jobNameLabelKey \<noteq> [] then False
      else label_of (pod_Labels pod) ShardIDLabelKey = shardID \<or>
           label_of (pod_Labels pod) ReshardTargetLabelKey = shardID)"

definition defaultEndpoint :: "string \<Rightarrow> string \<Rightarrow> string \<Rightarrow> string" where
  "defaultEndpoint podName svcName namespace =
     podName @ ''.'' @ svcName @ ''.'' @ namespace @ ''.svc.cluster.local:'' @ Itoa pgPort"

section \<open>Folding the pods of a shard\<close>

definition fencedPVC :: "'w Client \<Rightarrow> 'w \<Rightarrow> string \<Rightarrow> bool" where
  "fencedPVC c w name =
     (case c_ListPVCs c w of
        Inl _ \<Rightarrow> False
      | Inr vs \<Rightarrow> list_ex (\<lambda>v. isLabeledFenced v \<and> pvc_Name v = name) vs)"

definition promoted_primary :: "(string \<Rightarrow> bool) \<Rightarrow> Pod \<Rightarrow> bool" where
  "promoted_primary fenced pod =
     (case parsePodStatus pod of
        None \<Rightarrow> False
      | Some st \<Rightarrow> st_Role st = RolePrimary \<and> st_Promoted st \<and> \<not> fenced (PVCName (pod_Name pod)))"

text \<open>The endpoint the loop builds for a pod with a report.\<close>

definition or_default :: "string \<Rightarrow> string \<Rightarrow> string" where
  "or_default s d = (if s = [] then d else s)"

definition member_endpoint :: "(string \<Rightarrow> bool) \<Rightarrow> time \<Rightarrow> Pod \<Rightarrow> Status \<Rightarrow> ShardEndpoint" where
  "member_endpoint fenced now pod st =
     (let notReady = kubernetesPodNotReady pod;
          podFenced = fenced (PVCName (pod_Name pod));
          ready = st_Ready st \<and> \<not> IsStale st now statusStaleThresh \<and> \<not> notReady;
          reason1 = (if notReady then or_default (st_Reason st) podNotReadyReason else st_Reason st);
          msg1 = (if notReady then or_default (st_Message st) ''Kubernetes Pod or postgres container is not ready''
                  else st_Message st)
      in \<lparr>ep_Pod = pod_Name pod, ep_Endpoint = st_Endpoint st, ep_Ready = ready \<and> \<not> podFenced,
          ep_LagBytes = max 0 (st_LagBytes st),
          ep_Reason = (if podFenced then or_default reason1 fencedMemberReason else reason1),
          ep_Message = (if podFenced then or_default msg1 ''PVC is fenced; member is excluded from promotion candidates''
                        else msg1)\<rparr>)"

record Aggregate =
  ag_primary :: "ShardEndpoint option"
  ag_size :: int
  ag_replicas :: "ShardEndpoint list"

definition agg_step ::
  "(string \<Rightarrow> bool) \<Rightarrow> bool \<Rightarrow> time \<Rightarrow> string \<Rightarrow> string \<Rightarrow> Aggregate \<Rightarrow> Pod \<Rightarrow> Aggregate" where
  "agg_step fenced hasPromotedPrimary now svcName namespace a pod =
     (let add = (\<lambda>ep. a\<lparr>ag_replicas := ag_replicas a @ [ep]\<rparr>) in
      case parsePodStatus pod of
        None \<Rightarrow>
          (let ep = \<lparr>ep_Pod = pod_Name pod, ep_Endpoint = defaultEndpoint (pod_Name pod) svcName namespace,
                     ep_Ready = False, ep_LagBytes = 0, ep_Reason = [], ep_Message = []\<rparr>
           in if label_of (pod_Labels pod) ReshardTargetLabelKey \<noteq> [] \<and> \<not> kubernetesPodNotReady pod
              then (if ag_primary a = None then a\<lparr>ag_primary := Some (ep\<lparr>ep_Ready := True\<rparr>)\<rparr> else a)
              else add ep)
      | Some st \<Rightarrow>
          (let ep = member_endpoint fenced now pod st in
           if st_Role st = RolePrimary \<and> fenced (PVCName (pod_Name pod)) then add ep
           else if st_Role st = RolePrimary \<and> \<not> st_Promoted st \<and> hasPromotedPrimary
             then add (ep\<lparr>ep_Ready := False, ep_Reason := roguePrimaryReason\<rparr>)
           else if st_Role st = RolePrimary
             then (if ag_primary a \<noteq> None then add ep
                   else a\<lparr>ag_primary := Some ep, ag_size := max 0 (st_SizeBytes st)\<rparr>)
           else add ep))"

definition aggregateShardStatusMatching ::
  "'w Client \<Rightarrow> (string \<times> string) list \<Rightarrow> PostgresCluster \<Rightarrow> string \<Rightarrow> int \<Rightarrow> string \<Rightarrow> (Pod \<Rightarrow> bool) \<Rightarrow> time \<Rightarrow> 'w \<Rightarrow>
   ShardStatus" where
  "aggregateShardStatusMatching c sel cluster shardID ordinal svcName matches now w =
     (case c_ListPods c w sel of
        Inl _ \<Rightarrow> \<lparr>ss_Name = shardID, ss_Ordinal = ordinal, ss_Primary = None, ss_Replicas = [],
                 ss_SizeBytes = 0, ss_LastSplit = None\<rparr>
      | Inr items \<Rightarrow>
          (let members = filter matches items;
               fenced = fencedPVC c w;
               hasPromotedPrimary = list_ex (promoted_primary fenced) members;
               a = foldl (agg_step fenced hasPromotedPrimary now svcName (pc_Namespace cluster))
                     \<lparr>ag_primary = None, ag_size = 0, ag_replicas = []\<rparr> members
           in \<lparr>ss_Name = shardID, ss_Ordinal = ordinal, ss_Primary = ag_primary a,
               ss_Replicas = ag_replicas a,
               ss_SizeBytes = (if ag_primary a \<noteq> None then ag_size a else 0), ss_LastSplit = None\<rparr>))"

definition aggregateShardStatus ::
  "'w Client \<Rightarrow> (string \<times> string) list \<Rightarrow> PostgresCluster \<Rightarrow> int \<Rightarrow> string \<Rightarrow> time \<Rightarrow> 'w \<Rightarrow> ShardStatus" where
  "aggregateShardStatus c sel cluster ord svcName now w =
     aggregateShardStatusMatching c sel cluster (ShardIDForOrdinal ord) ord svcName
       (\<lambda>pod. podMatchesShardIdentity pod ord) now w"

definition aggregateNamedShardStatus ::
  "'w Client \<Rightarrow> (string \<times> string) list \<Rightarrow> PostgresCluster \<Rightarrow> string \<Rightarrow> string \<Rightarrow> time \<Rightarrow> 'w \<Rightarrow> ShardStatus" where
  "aggregateNamedShardStatus c sel cluster shardID svcName now w =
     aggregateShardStatusMatching c sel cluster shardID (- 1) svcName
       (\<lambda>pod. podMatchesNamedShardIdentity pod shardID) now w"

section \<open>Active shard topology\<close>

text \<open>The listed \<open>ShardRange\<close> resources of the namespace are an argument; \<open>None\<close> is the answer
  \<open>hasTopology = false\<close>.\<close>

definition activeShardTopology ::
  "PostgresCluster \<Rightarrow> (ApiError, ShardRangeSpec list) result \<Rightarrow> (ApiError, string set option) result" where
  "activeShardTopology cluster ranges =
     (if pc_ShardingMode cluster \<noteq> ShardingModeNative then Inr None
      else case ranges of
        Inl e \<Rightarrow> Inl e
      | Inr items \<Rightarrow>
          (let seen = set (filter (\<lambda>id. id \<noteq> [])
                 (concat (map (\<lambda>sr. map entry_Shard (sr_Ranges sr))
                    (filter (\<lambda>sr. sr_Cluster sr = pc_Name cluster) items))))
           in if seen = {} then Inr None else Inr (Some seen)))"

definition isOrdinalShardID :: "PostgresCluster \<Rightarrow> string \<Rightarrow> bool" where
  "isOrdinalShardID cluster shardID \<longleftrightarrow>
     list_ex (\<lambda>ord. shardID = ShardIDForOrdinal ord) [0..pc_InitialCount cluster - 1]"

definition activeNamedShardStatuses ::
  "'w Client \<Rightarrow> (string \<times> string) list \<Rightarrow> PostgresCluster \<Rightarrow> (ApiError, ShardRangeSpec list) result \<Rightarrow> time \<Rightarrow> 'w \<Rightarrow>
   (ApiError, ShardStatus list \<times> bool) result" where
  "activeNamedShardStatuses c sel cluster ranges now w =
     (case activeShardTopology cluster ranges of
        Inl e \<Rightarrow> Inl e
      | Inr None \<Rightarrow> Inr ([], True)
      | Inr (Some active) \<Rightarrow>
          (let ids = sorted_list_of_set (Set.filter (\<lambda>id. \<not> isOrdinalShardID cluster id) active);
               statuses = map (\<lambda>id. aggregateNamedShardStatus c sel cluster id
                                 (TargetShardServiceName (pc_Name cluster) id) now w) ids
           in Inr (statuses,
                   list_all (\<lambda>s. case ss_Primary s of None \<Rightarrow> False | Some p \<Rightarrow> ep_Ready p) statuses)))"

section \<open>What the aggregate reports\<close>

lemma agg_step_None:
  "parsePodStatus pod = None \<Longrightarrow>
   agg_step fenced hp now svc ns a pod =
     (let ep = \<lparr>ep_Pod = pod_Name pod, ep_Endpoint = defaultEndpoint (pod_Name pod) svc ns,
                ep_Ready = False, ep_LagBytes = 0, ep_Reason = [], ep_Message = []\<rparr>
      in if label_of (pod_Labels pod) ReshardTargetLabelKey \<noteq> [] \<and> \<not> kubernetesPodNotReady pod
         then (if ag_primary a = None then a\<lparr>ag_primary := Some (ep\<lparr>ep_Ready := True\<rparr>)\<rparr> else a)
         else a\<lparr>ag_replicas := ag_replicas a @ [ep]\<rparr>)"
  by (simp add: agg_step_def Let_def)

lemma member_endpoint_Pod [simp]: "ep_Pod (member_endpoint fenced now pod st) = pod_Name pod"
  by (simp add: member_endpoint_def Let_def)

lemma member_endpoint_Ready:
  "ep_Ready (member_endpoint fenced now pod st) \<longleftrightarrow>
     st_Ready st \<and> \<not> IsStale st now statusStaleThresh \<and> \<not> kubernetesPodNotReady pod \<and>
     \<not> fenced (PVCName (pod_Name pod))"
  by (auto simp: member_endpoint_def Let_def)

lemma member_endpoint_Lag [simp]: "0 \<le> ep_LagBytes (member_endpoint fenced now pod st)"
  by (simp add: member_endpoint_def Let_def)

text \<open>The endpoint of a pod that may serve: a live report of a live, unfenced pod.\<close>

definition serves :: "(string \<Rightarrow> bool) \<Rightarrow> time \<Rightarrow> Pod \<Rightarrow> Status \<Rightarrow> bool" where
  "serves fenced now pod st \<longleftrightarrow>
     parsePodStatus pod = Some st \<and> st_Ready st \<and> \<not> IsStale st now statusStaleThresh \<and>
     \<not> kubernetesPodNotReady pod \<and> \<not> fenced (PVCName (pod_Name pod))"

definition replica_ok :: "(string \<Rightarrow> bool) \<Rightarrow> time \<Rightarrow> Pod set \<Rightarrow> ShardEndpoint \<Rightarrow> bool" where
  "replica_ok fenced now M ep \<longleftrightarrow>
     (\<exists>pod\<in>M. ep_Pod ep = pod_Name pod \<and> 0 \<le> ep_LagBytes ep \<and>
        (ep_Ready ep \<longrightarrow> (\<exists>st. serves fenced now pod st)))"

definition primary_ok :: "(string \<Rightarrow> bool) \<Rightarrow> bool \<Rightarrow> time \<Rightarrow> Pod set \<Rightarrow> ShardEndpoint \<Rightarrow> bool" where
  "primary_ok fenced hp now M ep \<longleftrightarrow>
     (\<exists>pod\<in>M. ep_Pod ep = pod_Name pod \<and>
        (case parsePodStatus pod of
           None \<Rightarrow> label_of (pod_Labels pod) ReshardTargetLabelKey \<noteq> [] \<and> \<not> kubernetesPodNotReady pod
         | Some st \<Rightarrow> st_Role st = RolePrimary \<and> \<not> fenced (PVCName (pod_Name pod)) \<and>
                      (hp \<longrightarrow> st_Promoted st) \<and> (ep_Ready ep \<longrightarrow> serves fenced now pod st)))"

definition agg_ok :: "(string \<Rightarrow> bool) \<Rightarrow> bool \<Rightarrow> time \<Rightarrow> Pod set \<Rightarrow> Aggregate \<Rightarrow> bool" where
  "agg_ok fenced hp now M a \<longleftrightarrow>
     (\<forall>ep\<in>set (ag_replicas a). replica_ok fenced now M ep) \<and>
     (\<forall>ep. ag_primary a = Some ep \<longrightarrow> primary_ok fenced hp now M ep) \<and> 0 \<le> ag_size a"

lemma agg_ok_add:
  "agg_ok fenced hp now M a \<Longrightarrow> replica_ok fenced now M ep \<Longrightarrow>
   agg_ok fenced hp now M (a\<lparr>ag_replicas := ag_replicas a @ [ep]\<rparr>)"
  by (auto simp: agg_ok_def)

lemma member_replica_ok:
  "pod \<in> M \<Longrightarrow> parsePodStatus pod = Some st \<Longrightarrow> replica_ok fenced now M (member_endpoint fenced now pod st)"
  unfolding replica_ok_def by (rule bexI [of _ pod]) (auto simp: member_endpoint_Ready serves_def)

lemma agg_step_ok:
  assumes "agg_ok fenced hp now M a" and "pod \<in> M"
  shows "agg_ok fenced hp now M (agg_step fenced hp now svc ns a pod)"
proof (cases "parsePodStatus pod")
  case None
  have "replica_ok fenced now M \<lparr>ep_Pod = pod_Name pod, ep_Endpoint = defaultEndpoint (pod_Name pod) svc ns,
      ep_Ready = False, ep_LagBytes = 0, ep_Reason = [], ep_Message = []\<rparr>"
    using assms(2) by (auto simp: replica_ok_def)
  moreover have "agg_ok fenced hp now M
      (a\<lparr>ag_primary := Some \<lparr>ep_Pod = pod_Name pod, ep_Endpoint = defaultEndpoint (pod_Name pod) svc ns,
          ep_Ready = True, ep_LagBytes = 0, ep_Reason = [], ep_Message = []\<rparr>\<rparr>)"
    if "label_of (pod_Labels pod) ReshardTargetLabelKey \<noteq> []" "\<not> kubernetesPodNotReady pod"
    using assms None that by (auto simp: agg_ok_def primary_ok_def intro!: bexI [of _ pod])
  ultimately show ?thesis
    using assms(1) by (simp add: agg_step_None [OF None] Let_def agg_ok_add)
next
  case (Some st)
  note rep = member_replica_ok [OF assms(2) Some, of fenced now]
  let ?ep = "member_endpoint fenced now pod st"
  have rogue: "replica_ok fenced now M (?ep\<lparr>ep_Ready := False, ep_Reason := roguePrimaryReason\<rparr>)"
    using rep by (auto simp: replica_ok_def)
  have prim: "agg_ok fenced hp now M (a\<lparr>ag_primary := Some ?ep, ag_size := max 0 (st_SizeBytes st)\<rparr>)"
    if "st_Role st = RolePrimary" "\<not> fenced (PVCName (pod_Name pod))" "hp \<longrightarrow> st_Promoted st"
    using assms that Some
    by (auto simp: agg_ok_def primary_ok_def member_endpoint_Ready serves_def intro!: bexI [of _ pod])
  show ?thesis
    using assms(1) rep rogue prim agg_ok_add by (auto simp: agg_step_def Some Let_def)
qed

lemma foldl_agg_ok:
  "agg_ok fenced hp now M a \<Longrightarrow> set ps \<subseteq> M \<Longrightarrow>
   agg_ok fenced hp now M (foldl (agg_step fenced hp now svc ns) a ps)"
  by (induction ps arbitrary: a) (auto intro: agg_step_ok)

definition fenced_at :: "(string \<rightharpoonup> PVC) \<Rightarrow> string \<Rightarrow> bool" where
  "fenced_at vs n = (case vs n of None \<Rightarrow> False | Some v \<Rightarrow> isLabeledFenced v)"

text \<open>A stored pod of the shard that reports \<open>primary\<close> with the promotion marker and is not fenced.\<close>

definition promoted_member ::
  "(string \<rightharpoonup> Pod) \<Rightarrow> (string \<rightharpoonup> PVC) \<Rightarrow> (string \<times> string) list \<Rightarrow> (Pod \<Rightarrow> bool) \<Rightarrow> Pod \<Rightarrow> bool" where
  "promoted_member ps vs sel matches p \<longleftrightarrow>
     ps (pod_Name p) = Some p \<and> selects sel p \<and> matches p \<and> promoted_primary (fenced_at vs) p"

context kube_client
begin

lemma fencedPVC_iff: "c_ListPVCs c w = Inr vs \<Longrightarrow> fencedPVC c w n \<longleftrightarrow> fenced_at (pvcs w) n"
proof -
  assume l: "c_ListPVCs c w = Inr vs"
  have "(\<exists>v\<in>set vs. isLabeledFenced v \<and> pvc_Name v = n) \<longleftrightarrow> (\<exists>v. pvcs w n = Some v \<and> isLabeledFenced v)"
    using list_pvcs_mem [OF l] pvc_names [of w n] by metis
  then show ?thesis
    by (cases "pvcs w n") (simp_all add: fencedPVC_def fenced_at_def list_ex_iff l)
qed

lemma aggregate_agg_ok:
  assumes "c_ListPods c w sel = Inr items"
  shows "\<exists>a. agg_ok (fencedPVC c w) (list_ex (promoted_primary (fencedPVC c w)) (filter matches items)) now
           {p. pods w (pod_Name p) = Some p \<and> matches p} a \<and>
         ss_Primary (aggregateShardStatusMatching c sel cluster shardID ord svc matches now w) = ag_primary a \<and>
         ss_Replicas (aggregateShardStatusMatching c sel cluster shardID ord svc matches now w) = ag_replicas a"
proof -
  let ?M = "{p. pods w (pod_Name p) = Some p \<and> matches p}"
  let ?hp = "list_ex (promoted_primary (fencedPVC c w)) (filter matches items)"
  have sub: "set (filter matches items) \<subseteq> ?M"
    using list_pods [OF assms] by auto
  have init: "agg_ok (fencedPVC c w) ?hp now ?M \<lparr>ag_primary = None, ag_size = 0, ag_replicas = []\<rparr>"
    by (simp add: agg_ok_def)
  show ?thesis
    using foldl_agg_ok [OF init sub, of svc "pc_Namespace cluster"]
    by (intro exI conjI) (assumption, simp_all add: aggregateShardStatusMatching_def assms Let_def)
qed

lemma aggregate_replica:
  assumes "ep \<in> set (ss_Replicas (aggregateShardStatusMatching c sel cluster shardID ord svc matches now w))"
    and "ep_Ready ep"
  shows "\<exists>pod st. pods w (ep_Pod ep) = Some pod \<and> matches pod \<and> serves (fencedPVC c w) now pod st"
proof (cases "c_ListPods c w sel")
  case (Inl e)
  with assms(1) show ?thesis by (simp add: aggregateShardStatusMatching_def)
next
  case (Inr items)
  show ?thesis
    using aggregate_agg_ok [OF Inr, of matches now cluster shardID ord svc] assms
    unfolding agg_ok_def replica_ok_def by force
qed

lemma aggregate_primary:
  assumes "ss_Primary (aggregateShardStatusMatching c sel cluster shardID ord svc matches now w) = Some ep"
  shows "\<exists>pod items. c_ListPods c w sel = Inr items \<and> pods w (ep_Pod ep) = Some pod \<and> matches pod \<and>
     (case parsePodStatus pod of
        None \<Rightarrow> label_of (pod_Labels pod) ReshardTargetLabelKey \<noteq> [] \<and> \<not> kubernetesPodNotReady pod
      | Some st \<Rightarrow> st_Role st = RolePrimary \<and> \<not> fencedPVC c w (PVCName (ep_Pod ep)) \<and>
          (list_ex (promoted_primary (fencedPVC c w)) (filter matches items) \<longrightarrow> st_Promoted st) \<and>
          (ep_Ready ep \<longrightarrow> serves (fencedPVC c w) now pod st))"
proof (cases "c_ListPods c w sel")
  case (Inl e)
  with assms(1) show ?thesis by (simp add: aggregateShardStatusMatching_def)
next
  case (Inr items)
  obtain a where a: "agg_ok (fencedPVC c w) (list_ex (promoted_primary (fencedPVC c w)) (filter matches items)) now
      {p. pods w (pod_Name p) = Some p \<and> matches p} a" and "ag_primary a = Some ep"
    using aggregate_agg_ok [OF Inr, of matches now cluster shardID ord svc] assms by auto
  then have "primary_ok (fencedPVC c w) (list_ex (promoted_primary (fencedPVC c w)) (filter matches items)) now
      {p. pods w (pod_Name p) = Some p \<and> matches p} ep"
    by (simp add: agg_ok_def)
  with Inr show ?thesis
    unfolding primary_ok_def by (elim bexE) (auto split: option.splits)
qed

lemma promoted_member_listed:
  assumes "c_ListPods c w sel = Inr items" and "c_ListPVCs c w = Inr vs"
  shows "list_ex (promoted_primary (fencedPVC c w)) (filter matches items) \<longleftrightarrow>
    (\<exists>p. promoted_member (pods w) (pvcs w) sel matches p)"
proof -
  have "fencedPVC c w = fenced_at (pvcs w)" using fencedPVC_iff [OF assms(2)] by blast
  moreover have "p \<in> set items \<longleftrightarrow> pods w (pod_Name p) = Some p \<and> selects sel p" for p
    using list_pods [OF assms(1)] by blast
  ultimately show ?thesis
    unfolding list_ex_iff promoted_member_def set_filter by (simp only: mem_Collect_eq) blast
qed

end

section \<open>Properties\<close>


definition demo_status :: "Role \<Rightarrow> bool \<Rightarrow> Status" where
  "demo_status r promoted =
     \<lparr>st_Role = r, st_Promoted = promoted, st_Ready = True, st_Endpoint = ''ep:5432'', st_LagBytes = 0,
      st_WALLSNBytes = 100, st_SizeBytes = 7, st_Reason = [], st_Message = [], st_LastUpdate = 0\<rparr>"

definition demo_pod :: "string \<Rightarrow> Status option \<Rightarrow> Pod" where
  "demo_pod n st =
     \<lparr>pod_Name = n, pod_Labels = [ShardLabelKey \<mapsto> ''0''], pod_InstanceStatus = st, pod_CreationTimestamp = 0,
      pod_DeletionTimestamp = None, pod_Finalizers = [], pod_NodeName = ''n1'', pod_Phase = ''Running'',
      pod_Conditions = [(''Ready'', ''True'')], pod_ContainerStatuses = [(''postgres'', True)]\<rparr>"

definition demo_pvc :: "string \<Rightarrow> bool \<Rightarrow> PVC" where
  "demo_pvc pod fenced =
     \<lparr>pvc_Name = PVCName pod, pvc_Labels = (if fenced then [FenceLabelKey \<mapsto> FenceLabelValue] else Map.empty)\<rparr>"

text \<open>The old primary is back and fenced, its successor is promoted, a third member replicates.\<close>

definition demo_store :: Store where
  "demo_store =
     \<lparr>s_pods = [demo_pod ''demo-shard-0-0'' (Some (demo_status RolePrimary False)),
                demo_pod ''demo-shard-0-1'' (Some (demo_status RolePrimary True)),
                demo_pod ''demo-shard-0-2'' (Some (demo_status RoleReplica False))],
      s_pvcs = [demo_pvc ''demo-shard-0-0'' True, demo_pvc ''demo-shard-0-1'' False, demo_pvc ''demo-shard-0-2'' False],
      s_nodes = [], s_annotations = Map.empty\<rparr>"

abbreviation demo_aggregate :: ShardStatus where
  "demo_aggregate \<equiv> aggregateShardStatusMatching mem_client [] demo_cluster ''shard-0'' 0 ''svc''
     (\<lambda>pod. podMatchesShardIdentity pod 0) 0 demo_store"


text \<open>The fence is consulted for members with a report only: the loop takes a reshard target without a
  report as the ready primary although its volume is fenced.\<close>

definition fenced_target_store :: Store where
  "fenced_target_store =
     \<lparr>s_pods = [(demo_pod ''demo-rsd-hot-0'' None)\<lparr>pod_Labels := [ReshardTargetLabelKey \<mapsto> ''hot'']\<rparr>],
      s_pvcs = [demo_pvc ''demo-rsd-hot-0'' True], s_nodes = [], s_annotations = Map.empty\<rparr>"

lemma fenced_target_aggregated_as_primary:
  "fenced_at (pvc_in fenced_target_store) (PVCName ''demo-rsd-hot-0'')"
  "\<exists>ep. ss_Primary (aggregateNamedShardStatus mem_client [] demo_cluster ''hot'' ''svc'' 0 fenced_target_store) = Some ep \<and>
     ep_Pod ep = ''demo-rsd-hot-0'' \<and> ep_Ready ep"
proof -
  let ?pod = "(demo_pod ''demo-rsd-hot-0'' None)\<lparr>pod_Labels := [ReshardTargetLabelKey \<mapsto> ''hot'']\<rparr>"
  have "podMatchesNamedShardIdentity ?pod ''hot''" "label_of (pod_Labels ?pod) ReshardTargetLabelKey \<noteq> []"
    "\<not> kubernetesPodNotReady ?pod" "parsePodStatus ?pod = None" "pod_Name ?pod = ''demo-rsd-hot-0''"
    by code_simp+
  then show "\<exists>ep. ss_Primary (aggregateNamedShardStatus mem_client [] demo_cluster ''hot'' ''svc'' 0 fenced_target_store) = Some ep \<and>
      ep_Pod ep = ''demo-rsd-hot-0'' \<and> ep_Ready ep"
    by (simp add: aggregateNamedShardStatus_def aggregateShardStatusMatching_def mem_client_def
        fenced_target_store_def selects_def agg_step_def Let_def)
qed code_simp

end
