(* ===== verification/Sustained.thy ===== *)
theory Sustained
  imports Cluster_Types
begin

text \<open>
  Gates that open only after a condition has been observed without interruption for some time. The failover
  debouncer and the automatic split both keep a table from keys to the time of the first observation;
  the locale states what one evaluation does to the table, and proves once that a gate which answers yes
  has seen the condition hold in every evaluation of its key since a time that lies far enough back.
\<close>

text \<open>One evaluation for a key: whether the condition holds, whether a window may start, and the time.\<close>

type_synonym observation = "bool \<times> bool \<times> time"

definition window_open :: "(bool \<Rightarrow> bool) \<Rightarrow> observation list \<Rightarrow> time \<Rightarrow> bool" where
  "window_open may tr t \<longleftrightarrow> (\<exists>pre c post. tr = pre @ (True, c, t) # post \<and> may c \<and> (\<forall>ob\<in>set post. fst ob))"

lemma window_open_start: "may c \<Longrightarrow> window_open may (tr @ [(True, c, t)]) t"
  unfolding window_open_def by fastforce

lemma window_open_keep:
  assumes "window_open may tr t" and "fst ob"
  shows "window_open may (tr @ [ob]) t"
proof -
  from assms(1) obtain pre c post where "tr = pre @ (True, c, t) # post" "may c" "\<forall>ob\<in>set post. fst ob"
    unfolding window_open_def by blast
  then have "tr @ [ob] = pre @ (True, c, t) # (post @ [ob])" "may c" "\<forall>ob\<in>set (post @ [ob]). fst ob"
    using assms(2) by simp_all
  then show ?thesis unfolding window_open_def by blast
qed

text \<open>The observations of one key in a sequence of evaluations.\<close>

definition trace_of :: "string \<Rightarrow> (string \<times> observation) list \<Rightarrow> observation list" where
  "trace_of k os = map snd (filter (\<lambda>ob. fst ob = k) os)"

lemma trace_of_snoc: "trace_of k (os @ [(k', ob)]) = trace_of k os @ (if k' = k then [ob] else [])"
  by (simp add: trace_of_def)

locale sustained_gate =
  fixes gate :: "string \<Rightarrow> bool \<Rightarrow> bool \<Rightarrow> time \<Rightarrow> (string \<rightharpoonup> time) \<Rightarrow> bool \<times> (string \<rightharpoonup> time)" and dur :: time
    and may :: "bool \<Rightarrow> bool"
  assumes frame: "k' \<noteq> k \<Longrightarrow> snd (gate k f c n m) k' = m k'"
    and clear: "snd (gate k False c n m) k = None \<and> \<not> fst (gate k False c n m)"
    and keep: "m k = Some t \<Longrightarrow> snd (gate k True c n m) k = Some t \<and> fst (gate k True c n m) = (n - t \<ge> dur)"
    and start: "m k = None \<Longrightarrow> snd (gate k True c n m) k = None \<and> \<not> fst (gate k True c n m) \<or>
      may c \<and> snd (gate k True c n m) k = Some n \<and> (fst (gate k True c n m) \<longrightarrow> dur \<le> 0)"
begin

definition evaluate :: "(string \<rightharpoonup> time) \<Rightarrow> string \<times> observation \<Rightarrow> (string \<rightharpoonup> time)" where
  "evaluate m ob = (case ob of (k, f, c, n) \<Rightarrow> snd (gate k f c n m))"

lemma evaluate_window:
  assumes "\<And>t. m k = Some t \<Longrightarrow> window_open may tr t" and "evaluate m (k', f, c, n) k = Some t"
  shows "window_open may (tr @ (if k' = k then [(f, c, n)] else [])) t"
proof (cases "k' = k")
  case False
  with assms frame [of k k' f c n m] show ?thesis by (auto simp: evaluate_def)
next
  case True
  have f: "f" using assms(2) clear [of k c n m] True by (cases f) (auto simp: evaluate_def)
  show ?thesis
  proof (cases "m k")
    case None
    then have "may c" "t = n" using start [of m k c n] None assms(2) f True by (auto simp: evaluate_def)
    with f True window_open_start show ?thesis by simp
  next
    case (Some s)
    then have "s = t" using keep [of m k s c n] Some assms(2) f True by (auto simp: evaluate_def)
    with Some assms(1) f True show ?thesis by (simp add: window_open_keep)
  qed
qed

lemma run_window: "foldl evaluate Map.empty os k = Some t \<Longrightarrow> window_open may (trace_of k os) t"
proof (induction os arbitrary: t rule: rev_induct)
  case (snoc ob os)
  obtain k' f c n where "ob = (k', f, c, n)" by (cases ob)
  with snoc evaluate_window [of "foldl evaluate Map.empty os" k "trace_of k os"] show ?case
    by (simp add: trace_of_snoc)
qed simp

lemma opens_after_window:
  assumes "fst (gate k f c n (foldl evaluate Map.empty os))"
  shows "\<exists>t. window_open may (trace_of k os @ [(f, c, n)]) t \<and> n - t \<ge> dur"
proof -
  let ?m = "foldl evaluate Map.empty os"
  have f: "f" using assms clear by (cases f) auto
  show ?thesis
  proof (cases "?m k")
    case None
    with assms f start [of ?m k c n] have "may c" "dur \<le> 0" by auto
    with f window_open_start [of may c "trace_of k os" n] show ?thesis by auto
  next
    case (Some t)
    with assms f keep [of ?m k t c n] have "n - t \<ge> dur" by simp
    with window_open_keep [OF run_window [OF Some], of "(f, c, n)"] f show ?thesis by auto
  qed
qed

end

end
