(* ===== verification/Promoter.thy ===== *)
theory Promoter
  imports Aggregate_Status
begin

text \<open>
  The effects of failover: \<open>failover_promoter.go\<close> (fencing, promotion by pod exec, switchover, the
  failback guard), \<open>stale_replica_reseed.go\<close> (re-seeding stuck standbys and rogue primaries),
  \<open>role_label_sync.go\<close> and the failover decisions of \<open>postgrescluster_controller.go\<close>. Each operation
  threads the world of the API client. The pod executor is a parameter: it runs the promotion script
  in a pod and answers the script's output or an error.
\<close>

section \<open>Fencing\<close>

datatype PromoterError =
    ApiE string ApiError
  | ExecutorNotConfigured
  | InvalidPromotionTarget string string
  | CandidateNotReady string string
  | ExecFailed string
  | NoStatefulSetName string
  | UnfenceTarget string PromoterError
  | FenceNonTarget string PromoterError
  | PreFence string PromoterError
  | PromoteE "PromoterError PromoteError"
  | ReseedOld string PromoterError
  | SwitchoverAlreadyPrimary string
  | SwitchoverTargetNotReady string
  | SwitchoverFailed string PromoterError

text \<open>The executor's answer and the world after it.\<close>

type_synonym 'w executor = "string \<Rightarrow> 'w \<Rightarrow> (string, string) result \<times> 'w"

definition fencePodPVC :: "'w Client \<Rightarrow> string \<Rightarrow> 'w \<Rightarrow> PromoterError option \<times> 'w" where
  "fencePodPVC c podName w =
     (case c_GetPVC c w (PVCName podName) of
        Inl NotFound \<Rightarrow> (None, w)
      | Inl e \<Rightarrow> (Some (ApiE ''get pvc'' e), w)
      | Inr pvc \<Rightarrow>
          if isLabeledFenced pvc then (None, w)
          else (case c_PatchPVC c pvc (add_fence pvc) w of
                  (r, w') \<Rightarrow> (map_option (ApiE ''fence pvc'') r, w')))"

definition unfenceTargetPVC :: "'w Client option \<Rightarrow> string \<Rightarrow> 'w \<Rightarrow> PromoterError option \<times> 'w" where
  "unfenceTargetPVC client podName w =
     (case client of
        None \<Rightarrow> (None, w)
      | Some c \<Rightarrow>
          (case c_GetPVC c w (PVCName podName) of
             Inl NotFound \<Rightarrow> (None, w)
           | Inl e \<Rightarrow> (Some (ApiE ''get target pvc'' e), w)
           | Inr pvc \<Rightarrow>
               if \<not> isLabeledFenced pvc then (None, w)
               else (case c_PatchPVC c pvc (drop_fence pvc) w of
                       (r, w') \<Rightarrow> (map_option (ApiE ''patch'') r, w'))))"

text \<open>\<open>strings.LastIndex\<close> of a hyphen: \<open>statefulSetNameFromPod\<close> cuts an all-digit suffix.\<close>

definition after_last_hyphen :: "string \<Rightarrow> string" where
  "after_last_hyphen s = rev (takeWhile (\<lambda>ch. ch \<noteq> CHR ''-'') (rev s))"

definition statefulSetNameFromPod :: "string \<Rightarrow> string" where
  "statefulSetNameFromPod pod =
     (let suf = after_last_hyphen pod in
      if CHR ''-'' \<notin> set pod then []
      else let idx = length pod - length suf - 1 in
        if idx = 0 \<or> suf = [] then []
        else if list_ex (\<lambda>ch. ch < CHR ''0'' \<or> CHR ''9'' < ch) suf then []
        else take idx pod)"

definition member_prefix :: "string \<Rightarrow> string" where
  "member_prefix sts = ''data-'' @ sts @ ''-''"

fun fence_loop :: "'w Client \<Rightarrow> string \<Rightarrow> string \<Rightarrow> PVC list \<Rightarrow> 'w \<Rightarrow> PromoterError option \<times> 'w" where
  "fence_loop c target prefix [] w = (None, w)"
| "fence_loop c target prefix (pvc # rest) w =
     (if pvc_Name pvc = target \<or> \<not> HasPrefix (pvc_Name pvc) prefix then fence_loop c target prefix rest w
      else if isLabeledFenced pvc then fence_loop c target prefix rest w
      else (case c_PatchPVC c pvc (add_fence pvc) w of
              (Some e, w') \<Rightarrow> (Some (ApiE ''fence non-target pvc'' e), w')
            | (None, w') \<Rightarrow> fence_loop c target prefix rest w'))"

definition fenceNonTargetMembers :: "'w Client \<Rightarrow> string \<Rightarrow> 'w \<Rightarrow> PromoterError option \<times> 'w" where
  "fenceNonTargetMembers c targetPod w =
     (let stsName = statefulSetNameFromPod targetPod in
      if stsName = [] then (Some (NoStatefulSetName targetPod), w)
      else case c_ListPVCs c w of
        Inl e \<Rightarrow> (Some (ApiE ''list pvcs'' e), w)
      | Inr items \<Rightarrow> fence_loop c (PVCName targetPod) (member_prefix stsName) items w)"

section \<open>Promotion\<close>

definition promotionActuallyHappened :: "string \<Rightarrow> bool" where
  "promotionActuallyHappened execOutput = str_Contains execOutput ''PROMOTE_RESULT=promoted''"

text \<open>The script of \<open>postgresPromotionCommand\<close>, on the state of one instance: whether the server is in
  recovery, and the three files of the data directory it tests or changes. The server itself is a
  parameter: \<open>promote\<close> is the effect and the answer of \<open>SELECT pg_promote(true, 30)\<close> (\<open>None\<close> when
  \<open>psql\<close> fails, which ends the script), \<open>tick\<close> is what happens to the server in the second between
  two polls.\<close>

record PGInstance =
  pg_InRecovery :: bool
  pg_StandbySignal :: bool
  pg_RestartAsStandby :: bool
  pg_PromotedMarker :: bool

definition is_primary :: "PGInstance \<Rightarrow> bool" where
  "is_primary i \<longleftrightarrow> \<not> pg_InRecovery i"

fun poll_primary :: "(PGInstance \<Rightarrow> PGInstance) \<Rightarrow> nat \<Rightarrow> PGInstance \<Rightarrow> (string, string) result \<times> PGInstance" where
  "poll_primary tick 0 i = (Inl ''promotion did not reach primary state within 30s'', i)"
| "poll_primary tick (Suc k) i =
     (if is_primary i then (Inr ''PROMOTE_RESULT=promoted'', i) else poll_primary tick k (tick i))"

definition promotion_script ::
  "(PGInstance \<Rightarrow> string option \<times> PGInstance) \<Rightarrow> (PGInstance \<Rightarrow> PGInstance) \<Rightarrow> PGInstance \<Rightarrow>
   (string, string) result \<times> PGInstance" where
  "promotion_script promote tick i =
     (if is_primary i then (Inr ''PROMOTE_RESULT=noop-already-primary'', i)
      else case promote i of
        (None, i1) \<Rightarrow> (Inl ''psql failed'', i1)
      | (Some answer, i1) \<Rightarrow>
          if filter (\<lambda>ch. \<not> is_space ch) answer \<noteq> ''t'' \<and> \<not> is_primary i1
          then (Inl ''pg_promote did not reach primary state within 30s'', i1)
          else poll_primary tick 30
                 (i1\<lparr>pg_StandbySignal := False, pg_RestartAsStandby := False, pg_PromotedMarker := True\<rparr>))"

definition promoted_status :: "time \<Rightarrow> PromotionPlan \<Rightarrow> Status" where
  "promoted_status now plan =
     \<lparr>st_Role = RolePrimary, st_Promoted = False, st_Ready = True,
      st_Endpoint = pt_Endpoint (pl_Target plan), st_LagBytes = 0, st_WALLSNBytes = 0,
      st_SizeBytes = 0, st_Reason = [], st_Message = [], st_LastUpdate = now\<rparr>"

definition patchPromotedPodStatus ::
  "'w Client \<Rightarrow> time \<Rightarrow> PromotionPlan \<Rightarrow> 'w \<Rightarrow> PromoterError option \<times> 'w" where
  "patchPromotedPodStatus c now plan w =
     (case c_GetPod c w (pt_Pod (pl_Target plan)) of
        Inl e \<Rightarrow> (Some (ApiE ''get promoted pod'' e), w)
      | Inr pod \<Rightarrow>
          (case c_PatchPod c pod (pod\<lparr>pod_InstanceStatus := Some (promoted_status now plan)\<rparr>) w of
             (r, w') \<Rightarrow> (map_option (ApiE ''patch promoted pod status annotation'') r, w')))"

text \<open>\<open>clusterPodPromoter.Execute\<close>; a nil client skips the fencing and the annotation.\<close>

definition Execute ::
  "'w Client option \<Rightarrow> 'w executor option \<Rightarrow> string \<Rightarrow> time \<Rightarrow> PromotionPlan \<Rightarrow> 'w \<Rightarrow>
   PromoterError option \<times> 'w" where
  "Execute client executor namespace now plan w =
     (let pod = pt_Pod (pl_Target plan) in
      case executor of
        None \<Rightarrow> (Some ExecutorNotConfigured, w)
      | Some exec \<Rightarrow>
          if namespace = [] \<or> pod = [] then (Some (InvalidPromotionTarget namespace pod), w)
          else (case unfenceTargetPVC client pod w of
             (Some e, w1) \<Rightarrow> (Some (UnfenceTarget pod e), w1)
           | (None, w1) \<Rightarrow>
               (case exec pod w1 of
                  (Inl e, w2) \<Rightarrow> (Some (ExecFailed e), w2)
                | (Inr out, w2) \<Rightarrow>
                    (case client of
                       None \<Rightarrow> (None, w2)
                     | Some c \<Rightarrow>
                         if \<not> promotionActuallyHappened out then (None, w2)
                         else (case fenceNonTargetMembers c pod w2 of
                            (Some e, w3) \<Rightarrow> (Some (FenceNonTarget pod e), w3)
                          | (None, w3) \<Rightarrow> patchPromotedPodStatus c now plan w3)))))"

section \<open>Re-seeding\<close>

definition staleStandbyReseedTimeout :: time where "staleStandbyReseedTimeout = 8 * minute"
definition reseedCooldown :: time where "reseedCooldown = 10 * minute"
definition stuckTerminatingForceDeleteThreshold :: time where
  "stuckTerminatingForceDeleteThreshold = 2 * minute"
definition reseedAnnotationPrefix :: string where
  "reseedAnnotationPrefix = ''postgres.keiailab.io/last-reseed-''"

definition podAbsentOrNotReady :: "'w Client \<Rightarrow> string \<Rightarrow> 'w \<Rightarrow> bool" where
  "podAbsentOrNotReady c podName w =
     (case c_GetPod c w podName of
        Inl e \<Rightarrow> e = NotFound
      | Inr pod \<Rightarrow>
          (case condition_status (pod_Conditions pod) ''Ready'' of
             Some st \<Rightarrow> st \<noteq> ''True''
           | None \<Rightarrow> True))"

definition nodeNotReady :: "'w Client \<Rightarrow> string \<Rightarrow> 'w \<Rightarrow> bool" where
  "nodeNotReady c nodeName w =
     (if nodeName = [] then False
      else case c_GetNode c w nodeName of
        Inl _ \<Rightarrow> False
      | Inr node \<Rightarrow>
          (case condition_status (node_Conditions node) ''Ready'' of
             Some st \<Rightarrow> st \<noteq> ''True''
           | None \<Rightarrow> False))"

definition stuckTerminatingOnDeadNode :: "'w Client \<Rightarrow> Pod \<Rightarrow> time \<Rightarrow> 'w \<Rightarrow> bool" where
  "stuckTerminatingOnDeadNode c pod now w =
     (case pod_DeletionTimestamp pod of
        None \<Rightarrow> False
      | Some t \<Rightarrow>
          if now - t < stuckTerminatingForceDeleteThreshold then False
          else nodeNotReady c (pod_NodeName pod) w)"

text \<open>A deletion whose object is already gone counts as done.\<close>

definition ignore_NotFound :: "string \<Rightarrow> ApiError option \<Rightarrow> PromoterError option" where
  "ignore_NotFound what r = (case r of None \<Rightarrow> None | Some NotFound \<Rightarrow> None | Some e \<Rightarrow> Some (ApiE what e))"

definition forceDeleteStuckPod :: "'w Client \<Rightarrow> Pod \<Rightarrow> 'w \<Rightarrow> PromoterError option \<times> 'w" where
  "forceDeleteStuckPod c pod w =
     (let del = (\<lambda>w. case c_DeletePod c (pod_Name pod) (Some 0) w of
                  (r, w') \<Rightarrow> (ignore_NotFound ''force delete pod'' r, w'))
      in if pod_Finalizers pod \<noteq> []
         then (case c_PatchPod c pod (pod\<lparr>pod_Finalizers := []\<rparr>) w of
                 (Some e, w1) \<Rightarrow> (Some (ApiE ''clear finalizers'' e), w1)
               | (None, w1) \<Rightarrow> del w1)
         else del w)"

definition reseed_pod :: "'w Client \<Rightarrow> string \<Rightarrow> time \<Rightarrow> 'w \<Rightarrow> PromoterError option \<times> 'w" where
  "reseed_pod c podName now w =
     (case c_GetPod c w podName of
        Inl NotFound \<Rightarrow> (None, w)
      | Inl e \<Rightarrow> (Some (ApiE ''get stale standby pod'' e), w)
      | Inr pod \<Rightarrow>
          if stuckTerminatingOnDeadNode c pod now w \<and> podAbsentOrNotReady c podName w
          then forceDeleteStuckPod c pod w
          else (case c_DeletePod c podName None w of
                  (r, w') \<Rightarrow> (ignore_NotFound ''delete stale standby pod'' r, w')))"

definition reseedStandby :: "'w Client \<Rightarrow> string \<Rightarrow> time \<Rightarrow> 'w \<Rightarrow> PromoterError option \<times> 'w" where
  "reseedStandby c podName now w =
     (case c_GetPVC c w (PVCName podName) of
        Inl NotFound \<Rightarrow> reseed_pod c podName now w
      | Inl e \<Rightarrow> (Some (ApiE ''get stale standby pvc'' e), w)
      | Inr pvc \<Rightarrow>
          (case c_DeletePVC c (pvc_Name pvc) w of
             (r, w1) \<Rightarrow>
               (case ignore_NotFound ''delete stale standby pvc'' r of
                  Some e \<Rightarrow> (Some e, w1)
                | None \<Rightarrow> reseed_pod c podName now w1)))"

text \<open>The cooldown annotation holds an RFC 3339 time. Its formatting and parsing are arguments:
  \<open>fmt\<close> and \<open>parse\<close> stand for \<open>Time.Format\<close> and \<open>time.Parse\<close> with that layout.\<close>

definition in_cooldown :: "(string \<Rightarrow> time option) \<Rightarrow> PostgresCluster \<Rightarrow> string \<Rightarrow> time \<Rightarrow> bool" where
  "in_cooldown parse cluster pod now =
     (let last = label_of (pc_Annotations cluster) (reseedAnnotationPrefix @ pod) in
      if last = [] then False
      else case parse last of None \<Rightarrow> False | Some t \<Rightarrow> now - t < reseedCooldown)"

definition record_reseed ::
  "(time \<Rightarrow> string) \<Rightarrow> 'w Client \<Rightarrow> string \<Rightarrow> time \<Rightarrow> PostgresCluster \<Rightarrow> 'w \<Rightarrow>
   PromoterError option \<times> PostgresCluster \<times> 'w" where
  "record_reseed fmt c pod now cluster w =
     (let cluster' = cluster\<lparr>pc_Annotations := (pc_Annotations cluster)(reseedAnnotationPrefix @ pod \<mapsto> fmt now)\<rparr>
      in case c_PatchAnnotations c (pc_Annotations cluster') w of
           (r, w') \<Rightarrow> (map_option (ApiE ''record re-seed cooldown'') r, cluster', w'))"

text \<open>\<open>reconcileStaleReplicas\<close>: the inner loop over the replicas of a shard, then the loop over shards.\<close>

definition stale_replica ::
  "(string \<Rightarrow> time option) \<Rightarrow> 'w Client \<Rightarrow> time \<Rightarrow> PostgresCluster \<Rightarrow> ShardEndpoint \<Rightarrow> 'w \<Rightarrow> bool" where
  "stale_replica parse c now cluster rep w =
     (if ep_Ready rep \<or> ep_Pod rep = [] then False
      else case c_GetPod c w (ep_Pod rep) of
        Inl _ \<Rightarrow> False
      | Inr pod \<Rightarrow>
          if now - pod_CreationTimestamp pod < staleStandbyReseedTimeout then False
          else \<not> in_cooldown parse cluster (ep_Pod rep) now)"

fun reseed_loop ::
  "(PostgresCluster \<Rightarrow> ShardEndpoint \<Rightarrow> 'w \<Rightarrow> bool) \<Rightarrow> (time \<Rightarrow> string) \<Rightarrow> 'w Client \<Rightarrow> time \<Rightarrow>
   ShardEndpoint list \<Rightarrow> PostgresCluster \<Rightarrow> 'w \<Rightarrow> PromoterError option \<times> PostgresCluster \<times> 'w" where
  "reseed_loop due fmt c now [] cluster w = (None, cluster, w)"
| "reseed_loop due fmt c now (rep # reps) cluster w =
     (if \<not> due cluster rep w then reseed_loop due fmt c now reps cluster w
      else case reseedStandby c (ep_Pod rep) now w of
        (Some e, w1) \<Rightarrow> (Some e, cluster, w1)
      | (None, w1) \<Rightarrow>
          (case record_reseed fmt c (ep_Pod rep) now cluster w1 of
             (Some e, cl, w2) \<Rightarrow> (Some e, cl, w2)
           | (None, cl, w2) \<Rightarrow> reseed_loop due fmt c now reps cl w2))"

fun reseed_shards ::
  "(ShardEndpoint \<Rightarrow> PostgresCluster \<Rightarrow> ShardEndpoint \<Rightarrow> 'w \<Rightarrow> bool) \<Rightarrow> (time \<Rightarrow> string) \<Rightarrow> 'w Client \<Rightarrow> time \<Rightarrow>
   ShardStatus list \<Rightarrow> PostgresCluster \<Rightarrow> 'w \<Rightarrow> PromoterError option \<times> PostgresCluster \<times> 'w" where
  "reseed_shards due fmt c now [] cluster w = (None, cluster, w)"
| "reseed_shards due fmt c now (ss # rest) cluster w =
     (case ss_Primary ss of
        None \<Rightarrow> reseed_shards due fmt c now rest cluster w
      | Some p \<Rightarrow>
          if \<not> ep_Ready p then reseed_shards due fmt c now rest cluster w
          else (case reseed_loop (due p) fmt c now (ss_Replicas ss) cluster w of
                  (Some e, cl, w1) \<Rightarrow> (Some e, cl, w1)
                | (None, cl, w1) \<Rightarrow> reseed_shards due fmt c now rest cl w1))"

definition reconcileStaleReplicas ::
  "(string \<Rightarrow> time option) \<Rightarrow> (time \<Rightarrow> string) \<Rightarrow> 'w Client \<Rightarrow> PostgresCluster \<Rightarrow> ShardStatus list \<Rightarrow> time \<Rightarrow> 'w \<Rightarrow>
   PromoterError option \<times> PostgresCluster \<times> 'w" where
  "reconcileStaleReplicas parse fmt c cluster shardStatuses now w =
     reseed_shards (\<lambda>p. stale_replica parse c now) fmt c now shardStatuses cluster w"

definition rogue_replica ::
  "(string \<Rightarrow> time option) \<Rightarrow> time \<Rightarrow> ShardEndpoint \<Rightarrow> PostgresCluster \<Rightarrow> ShardEndpoint \<Rightarrow> 'w \<Rightarrow> bool" where
  "rogue_replica parse now p cluster rep w =
     (if ep_Reason rep \<noteq> roguePrimaryReason \<or> ep_Pod rep = [] \<or> ep_Pod rep = ep_Pod p then False
      else \<not> in_cooldown parse cluster (ep_Pod rep) now)"

definition reconcileRoguePrimaries ::
  "(string \<Rightarrow> time option) \<Rightarrow> (time \<Rightarrow> string) \<Rightarrow> 'w Client \<Rightarrow> PostgresCluster \<Rightarrow> ShardStatus list \<Rightarrow> time \<Rightarrow> 'w \<Rightarrow>
   PromoterError option \<times> PostgresCluster \<times> 'w" where
  "reconcileRoguePrimaries parse fmt c cluster shards now w =
     reseed_shards (rogue_replica parse now) fmt c now shards cluster w"

section \<open>Cluster-level promotion\<close>

definition shardPrimaryPod :: "PostgresCluster \<Rightarrow> string \<Rightarrow> string" where
  "shardPrimaryPod cluster shardName =
     (case find (\<lambda>s. ss_Name s = shardName) (pc_Shards cluster) of
        None \<Rightarrow> []
      | Some s \<Rightarrow> (case ss_Primary s of None \<Rightarrow> [] | Some p \<Rightarrow> ep_Pod p))"

definition promotionCandidateReadyForExec :: "'w Client \<Rightarrow> string \<Rightarrow> 'w \<Rightarrow> PromoterError option" where
  "promotionCandidateReadyForExec c podName w =
     (case c_GetPod c w podName of
        Inl e \<Rightarrow> Some (ApiE ''promotion candidate pod not ready for promotion exec'' e)
      | Inr pod \<Rightarrow>
          if pod_DeletionTimestamp pod \<noteq> None then Some (CandidateNotReady podName ''deleting'')
          else if pod_Phase pod \<noteq> [] \<and> pod_Phase pod \<noteq> ''Running''
            then Some (CandidateNotReady podName (''phase='' @ pod_Phase pod))
          else if condition_status (pod_Conditions pod) ''Ready'' \<noteq> Some ''True''
            then Some (CandidateNotReady podName ''PodReady=false'')
          else if map_of (pod_ContainerStatuses pod) pgContainerName \<noteq> Some True
            then Some (CandidateNotReady podName ''container Ready=false'')
          else None)"

definition replaced_down :: "'w Client \<Rightarrow> string \<Rightarrow> Decision \<Rightarrow> 'w \<Rightarrow> bool" where
  "replaced_down c oldPrimary decision w =
     (oldPrimary \<noteq> [] \<and>
      (case d_PromotionCandidate decision of
         None \<Rightarrow> False
       | Some ep \<Rightarrow> oldPrimary \<noteq> ep_Pod ep \<and> podAbsentOrNotReady c oldPrimary w))"

definition executeClusterPromotion ::
  "'w Client \<Rightarrow> 'w executor option \<Rightarrow> PostgresCluster \<Rightarrow> string \<Rightarrow> Decision \<Rightarrow> time \<Rightarrow> 'w \<Rightarrow>
   PromoterError option \<times> 'w" where
  "executeClusterPromotion c executor cluster shardName decision now w =
     (if \<not> d_Failed decision then (None, w)
      else if Option.is_none executor then (Some ExecutorNotConfigured, w)
      else
        let oldPrimary = shardPrimaryPod cluster shardName in
        case (if replaced_down c oldPrimary decision w then fencePodPVC c oldPrimary w else (None, w)) of
          (Some e, w1) \<Rightarrow> (Some (PreFence oldPrimary e), w1)
        | (None, w1) \<Rightarrow>
            (case (case d_PromotionCandidate decision of
                     None \<Rightarrow> None
                   | Some ep \<Rightarrow> promotionCandidateReadyForExec c (ep_Pod ep) w1) of
               Some e \<Rightarrow> (Some e, w1)
             | None \<Rightarrow>
                 (case PromoteFromDecision shardName decision
                         (Some (Execute (Some c) executor (pc_Namespace cluster) now)) w1 of
                    (Some e, w2) \<Rightarrow> (Some (PromoteE e), w2)
                  | (None, w2) \<Rightarrow>
                      if replaced_down c oldPrimary decision w2
                      then (case reseedStandby c oldPrimary now w2 of
                              (Some e, w3) \<Rightarrow> (Some (ReseedOld oldPrimary e), w3)
                            | (None, w3) \<Rightarrow> (None, w3))
                      else (None, w2))))"

section \<open>The failback guard\<close>

definition promotionFreshnessLeadBytes :: int where "promotionFreshnessLeadBytes = 2 ^ 30"

definition reportedWALPosition :: "'w Client \<Rightarrow> string \<Rightarrow> 'w \<Rightarrow> int" where
  "reportedWALPosition c podName w =
     (case c_GetPod c w podName of
        Inl _ \<Rightarrow> - 1
      | Inr pod \<Rightarrow> (case parsePodStatus pod of None \<Rightarrow> - 1 | Some st \<Rightarrow> st_WALLSNBytes st))"

definition shouldSkipFencedCandidate :: "'w Client \<Rightarrow> string \<Rightarrow> 'w \<Rightarrow> (ApiError, bool) result" where
  "shouldSkipFencedCandidate c candidatePod w =
     (let stsName = statefulSetNameFromPod candidatePod in
      if stsName = [] then Inr False
      else case c_ListPVCs c w of
        Inl e \<Rightarrow> Inl e
      | Inr items \<Rightarrow>
          (let members = filter (\<lambda>v. HasPrefix (pvc_Name v) (member_prefix stsName)) items;
               candidateFenced = foldl (\<lambda>b v. if pvc_Name v = PVCName candidatePod then isLabeledFenced v else b)
                                   False members;
               unfenced = map (\<lambda>v. TrimPrefix (pvc_Name v) ''data-'') (filter (\<lambda>v. \<not> isLabeledFenced v) members)
           in if \<not> candidateFenced \<or> unfenced = [] then Inr False
              else
                let candWAL = reportedWALPosition c candidatePod w in
                if candWAL < 0 then Inr True
                else
                  let servingWAL = foldl (\<lambda>m pod. let p = reportedWALPosition c pod w in if p > m then p else m)
                                     (- 1) unfenced
                  in if servingWAL < 0 then Inr True
                     else if candWAL - servingWAL \<ge> promotionFreshnessLeadBytes then Inr False
                     else Inr True))"

section \<open>Switchover\<close>

definition AnnotationSwitchoverTarget :: string where
  "AnnotationSwitchoverTarget = ''postgres.keiailab.io/switchover-target''"

text \<open>The endpoint of the last ready replica named \<open>targetPod\<close>; \<open>None\<close> when the target is a primary.\<close>

fun switchover_endpoint :: "string \<Rightarrow> string \<Rightarrow> ShardStatus list \<Rightarrow> string option" where
  "switchover_endpoint targetPod acc [] = Some acc"
| "switchover_endpoint targetPod acc (ss # rest) =
     (if (case ss_Primary ss of None \<Rightarrow> False | Some p \<Rightarrow> ep_Pod p = targetPod) then None
      else switchover_endpoint targetPod
             (foldl (\<lambda>e rep. if ep_Pod rep = targetPod \<and> ep_Ready rep then ep_Endpoint rep else e) acc (ss_Replicas ss))
             rest)"

definition handleSwitchover ::
  "'w Client \<Rightarrow> 'w executor option \<Rightarrow> PostgresCluster \<Rightarrow> ShardStatus list \<Rightarrow> time \<Rightarrow> 'w \<Rightarrow>
   PromoterError option \<times> PostgresCluster \<times> 'w" where
  "handleSwitchover c executor cluster shardStatuses now w =
     (let targetPod = label_of (pc_Annotations cluster) AnnotationSwitchoverTarget in
      if targetPod = [] then (None, cluster, w)
      else if Option.is_none executor then (Some ExecutorNotConfigured, cluster, w)
      else case switchover_endpoint targetPod [] shardStatuses of
        None \<Rightarrow> (Some (SwitchoverAlreadyPrimary targetPod), cluster, w)
      | Some targetEndpoint \<Rightarrow>
          if targetEndpoint = [] then (Some (SwitchoverTargetNotReady targetPod), cluster, w)
          else
            (case Execute (Some c) executor (pc_Namespace cluster) now
                    \<lparr>pl_Target = \<lparr>pt_ShardName = [], pt_Pod = targetPod, pt_Endpoint = targetEndpoint\<rparr>,
                     pl_Steps = []\<rparr> w of
               (Some e, w1) \<Rightarrow> (Some (SwitchoverFailed targetPod e), cluster, w1)
             | (None, w1) \<Rightarrow>
                 (let cluster' = cluster\<lparr>pc_Annotations := (pc_Annotations cluster)(AnnotationSwitchoverTarget := None)\<rparr>
                  in case c_PatchAnnotations c (pc_Annotations cluster') w1 of
                       (r, w2) \<Rightarrow> (map_option (ApiE ''clear switchover annotation'') r, cluster', w2))))"

section \<open>Decisions of the reconcile loop\<close>

definition failoverDebounceThreshold :: time where "failoverDebounceThreshold = 8 * second"

text \<open>\<open>failoverPending\<close> maps a cluster key to the time its failure was first seen.\<close>

definition shouldPromoteAfterDebounce ::
  "string \<Rightarrow> bool \<Rightarrow> bool \<Rightarrow> time \<Rightarrow> (string \<rightharpoonup> time) \<Rightarrow> bool \<times> (string \<rightharpoonup> time)" where
  "shouldPromoteAfterDebounce key failed canStart now pending =
     (if \<not> failed then (False, pending(key := None))
      else case pending key of
        None \<Rightarrow> if \<not> canStart then (False, pending) else (False, pending(key \<mapsto> now))
      | Some first \<Rightarrow> (now - first \<ge> failoverDebounceThreshold, pending))"

definition standaloneReplicaEnabled :: "PostgresCluster \<Rightarrow> bool" where
  "standaloneReplicaEnabled cluster = (case pc_Replica cluster of None \<Rightarrow> False | Some r \<Rightarrow> rc_Enabled r)"

fun first_failed :: "ShardStatus list \<Rightarrow> string \<times> Decision" where
  "first_failed [] = ([], no_failure)"
| "first_failed (s # ss) =
     (let d = DetectPrimaryFailure s in if d_Failed d then (ss_Name s, d) else first_failed ss)"

definition clusterFailoverDecision :: "PostgresCluster \<Rightarrow> ShardStatus list \<Rightarrow> string \<times> Decision" where
  "clusterFailoverDecision cluster shards =
     (if standaloneReplicaEnabled cluster then ([], no_failure) else first_failed shards)"

definition hasReadyReplica :: "ShardEndpoint list \<Rightarrow> bool" where
  "hasReadyReplica replicas = list_ex ep_Ready replicas"

definition fallbackPrimaryReady :: "bool \<Rightarrow> ShardEndpoint list \<Rightarrow> bool" where
  "fallbackPrimaryReady stsReadyProxy replicas = (stsReadyProxy \<and> \<not> hasReadyReplica replicas)"

text \<open>The fallback of \<open>Reconcile\<close> for an ordinal shard in which no pod reports as primary: the primary
  of the previous status, else member 0.\<close>

definition fallback_primary :: "PostgresCluster \<Rightarrow> bool \<Rightarrow> int \<Rightarrow> bool \<Rightarrow> ShardStatus \<Rightarrow> ShardStatus" where
  "fallback_primary cluster standaloneReplica ord stsReady s =
     (let missing = (case ss_Primary s of None \<Rightarrow> True | Some p \<Rightarrow> ep_Pod p = [])
      in if \<not> missing \<or> standaloneReplica then s
         else
           let stsName = ShardStatefulSetName (pc_Name cluster) ord;
               pod0 = stsName @ ''-0'';
               ep0 = pod0 @ ''.'' @ ShardServiceName (pc_Name cluster) ord @ ''.'' @ pc_Namespace cluster @
                     ''.svc.cluster.local:'' @ Itoa pgPort;
               prev = find (\<lambda>q. ss_Ordinal q = ord \<and>
                              (case ss_Primary q of None \<Rightarrow> False | Some p \<Rightarrow> ep_Pod p \<noteq> [])) (pc_Shards cluster);
               (fbPod, fbEndpoint) =
                 (case Option.bind prev ss_Primary of
                    None \<Rightarrow> (pod0, ep0)
                  | Some p \<Rightarrow> (ep_Pod p, if ep_Endpoint p \<noteq> [] then ep_Endpoint p else ep0))
           in s\<lparr>ss_Primary := Some \<lparr>ep_Pod = fbPod, ep_Endpoint = fbEndpoint,
                  ep_Ready = fallbackPrimaryReady stsReady (ss_Replicas s), ep_LagBytes = 0,
                  ep_Reason = [], ep_Message = []\<rparr>\<rparr>)"

text \<open>The failover block of \<open>Reconcile\<close>: decide, debounce, guard, promote. A failed guard check is
  logged and the promotion proceeds. The results are the promotion's error, which \<open>Reconcile\<close> appends to
  the decision's message, the decision, the debounce table and the world.\<close>

definition reconcile_failover ::
  "'w Client \<Rightarrow> 'w executor option \<Rightarrow> PostgresCluster \<Rightarrow> ShardStatus list \<Rightarrow> bool \<Rightarrow> time \<Rightarrow>
   (string \<rightharpoonup> time) \<Rightarrow> 'w \<Rightarrow> PromoterError option \<times> Decision \<times> (string \<rightharpoonup> time) \<times> 'w" where
  "reconcile_failover c executor cluster shardStatuses clusterWasReady now pending w =
     (let (shardName, decision) = clusterFailoverDecision cluster shardStatuses;
          key = pc_Namespace cluster @ ''/'' @ pc_Name cluster
      in case d_PromotionCandidate decision of
           None \<Rightarrow> (None, decision, snd (shouldPromoteAfterDebounce key False clusterWasReady now pending), w)
         | Some cand \<Rightarrow>
             (case shouldPromoteAfterDebounce key (d_Failed decision) clusterWasReady now pending of
                (False, pending') \<Rightarrow> (None, decision, pending', w)
              | (True, pending') \<Rightarrow>
                  (case shouldSkipFencedCandidate c (ep_Pod cand) w of
                     Inr True \<Rightarrow> (None, decision, pending', w)
                   | _ \<Rightarrow>
                       (case executeClusterPromotion c executor (cluster\<lparr>pc_Shards := shardStatuses\<rparr>) shardName
                               decision now w of
                          (None, w') \<Rightarrow> (None, decision, pending', w')
                        | (Some e, w') \<Rightarrow> (Some e, decision, pending', w')))))"

section \<open>Role labels\<close>

definition InstanceRoleLabelKey :: string where "InstanceRoleLabelKey = ''postgres.keiailab.io/instance-role''"
definition RwRoutingRoleLabelKey :: string where "RwRoutingRoleLabelKey = ''postgres.keiailab.io/role''"

definition primaryRoleLabelKeys :: "string list" where
  "primaryRoleLabelKeys = [InstanceRoleLabelKey, RwRoutingRoleLabelKey]"

definition setPrimaryRoleLabels :: "'w Client \<Rightarrow> string \<Rightarrow> string \<Rightarrow> 'w \<Rightarrow> ApiError option \<times> 'w" where
  "setPrimaryRoleLabels c podName role w =
     (case c_GetPod c w podName of
        Inl NotFound \<Rightarrow> (None, w)
      | Inl e \<Rightarrow> (Some e, w)
      | Inr pod \<Rightarrow>
          if \<not> list_ex (\<lambda>k. label_of (pod_Labels pod) k \<noteq> role) primaryRoleLabelKeys then (None, w)
          else c_PatchPod c pod (pod\<lparr>pod_Labels := foldl (\<lambda>m k. m(k \<mapsto> role)) (pod_Labels pod) primaryRoleLabelKeys\<rparr>) w)"

definition first_error :: "'e option \<Rightarrow> 'e option \<Rightarrow> 'e option" where
  "first_error a b = (case a of Some e \<Rightarrow> Some e | None \<Rightarrow> b)"

fun label_replicas :: "'w Client \<Rightarrow> ShardEndpoint list \<Rightarrow> ApiError option \<times> 'w \<Rightarrow> ApiError option \<times> 'w" where
  "label_replicas c [] s = s"
| "label_replicas c (rep # reps) (firstErr, w) =
     (if ep_Pod rep = [] then label_replicas c reps (firstErr, w)
      else case setPrimaryRoleLabels c (ep_Pod rep) ''replica'' w of
             (r, w') \<Rightarrow> label_replicas c reps (first_error firstErr r, w'))"

fun reconcilePrimaryRoleLabels ::
  "'w Client \<Rightarrow> ShardStatus list \<Rightarrow> bool \<times> ApiError option \<times> 'w \<Rightarrow> bool \<times> ApiError option \<times> 'w" where
  "reconcilePrimaryRoleLabels c [] s = s"
| "reconcilePrimaryRoleLabels c (ss # rest) (synced, firstErr, w) =
     (let (synced1, err1, w1) =
            (case ss_Primary ss of
               None \<Rightarrow> (synced, firstErr, w)
             | Some p \<Rightarrow>
                 if ep_Pod p = [] then (synced, firstErr, w)
                 else case setPrimaryRoleLabels c (ep_Pod p) ''primary'' w of
                        (r, w') \<Rightarrow> (synced \<and> \<not> (ep_Ready p \<and> r \<noteq> None), first_error firstErr r, w'));
          (err2, w2) = label_replicas c (ss_Replicas ss) (err1, w1)
      in reconcilePrimaryRoleLabels c rest (synced1, err2, w2))"

end
