(* ===== verification/Promoter_Correct.thy ===== *)
theory Promoter_Correct
  imports Promoter Sustained
begin

text \<open>
  What the failover operations of \<open>Promoter\<close> guarantee for every API client that meets the laws of
  \<open>kube_client\<close>, including failing calls: which volumes a promotion fences and when, what the script
  leaves behind, what the failback guard and the debouncer admit, and what re-seeding may destroy.
\<close>

section \<open>Names of members\<close>

lemma after_last_hyphen_split:
  "CHR ''-'' \<in> set s \<Longrightarrow> s = take (length s - length (after_last_hyphen s) - 1) s @ CHR ''-'' # after_last_hyphen s"
proof -
  assume "CHR ''-'' \<in> set s"
  then obtain a b where s: "s = a @ CHR ''-'' # b" and b: "CHR ''-'' \<notin> set b"
    by (metis split_list_last)
  then have "\<forall>ch\<in>set (rev b). ch \<noteq> CHR ''-''" by auto
  then have "takeWhile (\<lambda>ch. ch \<noteq> CHR ''-'') (rev b @ CHR ''-'' # rev a) = rev b"
    by (subst takeWhile_append2) auto
  then have "takeWhile (\<lambda>ch. ch \<noteq> CHR ''-'') (rev s) = rev b"
    by (simp add: s)
  then have "after_last_hyphen s = b" by (simp add: after_last_hyphen_def)
  with s show ?thesis by simp
qed

lemma statefulSetNameFromPod_prefix:
  assumes "statefulSetNameFromPod pod = sts" and "sts \<noteq> []"
  shows "HasPrefix (PVCName pod) (member_prefix sts)"
proof -
  have h: "CHR ''-'' \<in> set pod" and sts: "sts = take (length pod - length (after_last_hyphen pod) - 1) pod"
    using assms by (auto simp: statefulSetNameFromPod_def Let_def split: if_splits)
  then have "pod = sts @ CHR ''-'' # after_last_hyphen pod"
    using after_last_hyphen_split [OF h] by simp
  then have "PVCName pod = member_prefix sts @ after_last_hyphen pod"
    by (simp add: PVCName_def member_prefix_def)
  then show ?thesis unfolding HasPrefix_iff by blast
qed

section \<open>Fencing keeps to the members of the StatefulSet\<close>

text \<open>What a sequence of fencings may do to the volumes: nothing outside \<open>M\<close>, and inside only add the
  fence label.\<close>

definition only_fences :: "string set \<Rightarrow> (string \<rightharpoonup> PVC) \<Rightarrow> (string \<rightharpoonup> PVC) \<Rightarrow> bool" where
  "only_fences M vs vs' \<longleftrightarrow>
     (\<forall>n. vs' n = vs n \<or> n \<in> M \<and> (\<exists>v. vs n = Some v \<and> vs' n = Some (add_fence v)))"

lemma only_fences_refl [simp]: "only_fences M vs vs"
  by (simp add: only_fences_def)

lemma add_fence_idem [simp]: "add_fence (add_fence v) = add_fence v"
  by (simp add: add_fence_def)

lemma only_fences_trans:
  assumes "only_fences M a b" and "only_fences M b d"
  shows "only_fences M a d"
  unfolding only_fences_def
proof
  fix n
  from assms have "b n = a n \<or> n \<in> M \<and> (\<exists>v. a n = Some v \<and> b n = Some (add_fence v))"
    and "d n = b n \<or> n \<in> M \<and> (\<exists>v. b n = Some v \<and> d n = Some (add_fence v))"
    unfolding only_fences_def by blast+
  then show "d n = a n \<or> n \<in> M \<and> (\<exists>v. a n = Some v \<and> d n = Some (add_fence v))"
    by (cases "a n") auto
qed

lemma only_fences_update:
  "vs n = Some v \<Longrightarrow> n \<in> M \<Longrightarrow> only_fences M vs (vs(n \<mapsto> add_fence v))"
  by (auto simp: only_fences_def)

lemma only_fences_mono: "only_fences M vs vs' \<Longrightarrow> fenced_at vs n \<Longrightarrow> fenced_at vs' n"
  unfolding only_fences_def fenced_at_def by (drule spec [of _ n]) (auto split: option.splits)

lemma only_fences_outside: "only_fences M vs vs' \<Longrightarrow> n \<notin> M \<Longrightarrow> vs' n = vs n"
  unfolding only_fences_def by blast

definition members_but :: "string \<Rightarrow> string \<Rightarrow> string set" where
  "members_but target prefix = {n. n \<noteq> target \<and> HasPrefix n prefix}"

context kube_client
begin

lemma patch_add_fence:
  assumes "c_PatchPVC c v (add_fence v) w = (r, w')" and "pvcs w (pvc_Name v) = Some v"
    and "pvc_Name v \<in> M"
  shows "only_fences M (pvcs w) (pvcs w')" and "r = None \<Longrightarrow> fenced_at (pvcs w') (pvc_Name v)"
    and "pods w' = pods w"
  using patch_pvc [OF assms(1,2)] only_fences_update [of "pvcs w" "pvc_Name v" v M, OF assms(2,3)]
  by (auto simp: fenced_at_def)

lemma fence_loop_spec:
  assumes "fence_loop c target prefix vs w = (r, w')"
    and "\<forall>v\<in>set vs. pvcs w (pvc_Name v) = Some v" and "distinct (map pvc_Name vs)"
  shows "only_fences (members_but target prefix) (pvcs w) (pvcs w') \<and> pods w' = pods w \<and>
    (r = None \<longrightarrow> (\<forall>v\<in>set vs. pvc_Name v \<in> members_but target prefix \<longrightarrow> fenced_at (pvcs w') (pvc_Name v)))"
  using assms
proof (induction vs arbitrary: w)
  case (Cons v vs)
  let ?M = "members_but target prefix"
  consider (skip) "pvc_Name v \<notin> ?M" | (fenced) "pvc_Name v \<in> ?M" "isLabeledFenced v"
    | (patch) "pvc_Name v \<in> ?M" "\<not> isLabeledFenced v" by blast
  then show ?case
  proof cases
    case skip
    then have "fence_loop c target prefix vs w = (r, w')"
      using Cons.prems(1) by (auto simp: members_but_def)
    from Cons.IH [OF this] Cons.prems skip show ?thesis by simp
  next
    case fenced
    then have "fence_loop c target prefix vs w = (r, w')"
      using Cons.prems(1) by (auto simp: members_but_def)
    from Cons.IH [OF this] Cons.prems have
      IH: "only_fences ?M (pvcs w) (pvcs w')" "pods w' = pods w"
        "r = None \<longrightarrow> (\<forall>v\<in>set vs. pvc_Name v \<in> ?M \<longrightarrow> fenced_at (pvcs w') (pvc_Name v))"
      by simp_all
    have "fenced_at (pvcs w) (pvc_Name v)"
      using Cons.prems(2) fenced by (simp add: fenced_at_def)
    then have "fenced_at (pvcs w') (pvc_Name v)" by (rule only_fences_mono [OF IH(1)])
    with IH show ?thesis by simp
  next
    case patch
    obtain r1 w1 where p: "c_PatchPVC c v (add_fence v) w = (r1, w1)" by fastforce
    have v: "pvcs w (pvc_Name v) = Some v" using Cons.prems(2) by simp
    note step = patch_add_fence [OF p v patch(1)]
    show ?thesis
    proof (cases r1)
      case (Some e)
      then have "r \<noteq> None" "w' = w1" using Cons.prems(1) patch p by (auto simp: members_but_def)
      with step(1,3) show ?thesis by auto
    next
      case None
      then have rest: "fence_loop c target prefix vs w1 = (r, w')"
        using Cons.prems(1) patch p by (simp add: members_but_def)
      have other: "pvcs w1 (pvc_Name u) = pvcs w (pvc_Name u)" if "u \<in> set vs" for u
        using patch_pvc_other [OF p v] that Cons.prems(3) by (metis distinct.simps(2) image_eqI list.set_map list.simps(9) pvc_Name_fence(1))
      have IH: "only_fences ?M (pvcs w1) (pvcs w')" "pods w' = pods w1"
        "r = None \<longrightarrow> (\<forall>v\<in>set vs. pvc_Name v \<in> ?M \<longrightarrow> fenced_at (pvcs w') (pvc_Name v))"
        using Cons.IH [OF rest] Cons.prems(2,3) other by simp_all
      have "fenced_at (pvcs w') (pvc_Name v)"
        by (rule only_fences_mono [OF IH(1)]) (rule step(2) [OF None])
      with IH step only_fences_trans show ?thesis by auto
    qed
  qed
qed simp

lemma fenceNonTargetMembers_spec:
  assumes "fenceNonTargetMembers c pod w = (r, w')"
  defines "M \<equiv> members_but (PVCName pod) (member_prefix (statefulSetNameFromPod pod))"
  shows "only_fences M (pvcs w) (pvcs w') \<and> pods w' = pods w \<and>
    (r = None \<longrightarrow> statefulSetNameFromPod pod \<noteq> [] \<and>
       (\<forall>n v. pvcs w n = Some v \<longrightarrow> n \<in> M \<longrightarrow> fenced_at (pvcs w') n))"
proof (cases "statefulSetNameFromPod pod = [] \<or> (\<exists>e. c_ListPVCs c w = Inl e)")
  case True
  with assms(1) show ?thesis by (auto simp: fenceNonTargetMembers_def Let_def split: sum.splits if_splits)
next
  case False
  then obtain vs where l: "c_ListPVCs c w = Inr vs" by (cases "c_ListPVCs c w") auto
  with False assms(1) have loop: "fence_loop c (PVCName pod) (member_prefix (statefulSetNameFromPod pod)) vs w = (r, w')"
    by (simp add: fenceNonTargetMembers_def Let_def)
  have "\<forall>v\<in>set vs. pvcs w (pvc_Name v) = Some v" "distinct (map pvc_Name vs)"
    using list_pvcs [OF l] by blast+
  note spec = fence_loop_spec [OF loop this]
  have "fenced_at (pvcs w') n" if "r = None" "pvcs w n = Some v" "n \<in> M" for n v
  proof -
    have "pvc_Name v = n" using pvc_names that(2) by blast
    then have "v \<in> set vs" using list_pvcs_mem [OF l] that(2) by blast
    with spec that \<open>pvc_Name v = n\<close> show ?thesis unfolding M_def by blast
  qed
  with spec False show ?thesis unfolding M_def by blast
qed

end

section \<open>Promotion\<close>

text \<open>The promotion script runs inside a container: it does not touch the volume claims of the API.\<close>

locale promotion_env = kube_client c pods pvcs
  for c :: "'w Client" and pods :: "'w \<Rightarrow> string \<rightharpoonup> Pod" and pvcs :: "'w \<Rightarrow> string \<rightharpoonup> PVC" +
  fixes exec :: "'w executor"
  assumes exec_pvcs: "exec pod w = (r, w') \<Longrightarrow> pvcs w' = pvcs w"
begin

text \<open>Removing the fence of the promotion target touches that volume only.\<close>

lemma unfenceTargetPVC_spec:
  assumes "unfenceTargetPVC (Some c) pod w = (r, w')"
  shows "(\<forall>n. n \<noteq> PVCName pod \<longrightarrow> pvcs w' n = pvcs w n) \<and>
    (fenced_at (pvcs w') (PVCName pod) \<longrightarrow> fenced_at (pvcs w) (PVCName pod) \<and> r \<noteq> None) \<and>
    (pvcs w' (PVCName pod) = None \<longleftrightarrow> pvcs w (PVCName pod) = None)"
proof (cases "c_GetPVC c w (PVCName pod)")
  case (Inl e)
  show ?thesis
  proof (cases e)
    case NotFound
    then have "w' = w" "pvcs w (PVCName pod) = None"
      using assms Inl get_pvc_NotFound by (simp_all add: unfenceTargetPVC_def)
    then show ?thesis by (simp add: fenced_at_def)
  next
    case (ApiFailure m)
    then have "w' = w" "r \<noteq> None" using assms Inl by (auto simp: unfenceTargetPVC_def)
    then show ?thesis by simp
  qed
next
  case (Inr v)
  have v: "pvcs w (PVCName pod) = Some v" "pvc_Name v = PVCName pod"
    using get_pvc [OF Inr] get_pvc_name [OF Inr] by simp_all
  show ?thesis
  proof (cases "isLabeledFenced v")
    case False
    then have "w' = w" using assms Inr by (simp add: unfenceTargetPVC_def)
    with v False show ?thesis by (simp add: fenced_at_def)
  next
    case True
    obtain r1 w1 where p1: "c_PatchPVC c v (drop_fence v) w = (r1, w1)" by fastforce
    with assms Inr True have p: "c_PatchPVC c v (drop_fence v) w = (r1, w')" and r: "r1 \<noteq> None \<Longrightarrow> r \<noteq> None"
      by (auto simp: unfenceTargetPVC_def)
    from patch_pvc [OF p] v consider "pvcs w' = (pvcs w)(PVCName pod \<mapsto> drop_fence v)"
      | "r1 \<noteq> None" "pvcs w' = pvcs w" by auto
    then show ?thesis using v True r by cases (simp_all add: fenced_at_def)
  qed
qed

text \<open>Volumes of \<^const>\<open>Execute\<close>: up to the script's answer only the target changes; members are fenced
  after a reported promotion only.\<close>

lemma patchPromotedPodStatus_pvcs:
  assumes "patchPromotedPodStatus c now plan w = (r, w')"
  shows "pvcs w' = pvcs w"
    and "r = None \<Longrightarrow> \<exists>p st. pods w' (pt_Pod (pl_Target plan)) = Some p \<and> parsePodStatus p = Some st \<and>
           st_Role st = RolePrimary \<and> st_Ready st"
proof -
  have "pvcs w' = pvcs w \<and> (r = None \<longrightarrow> (\<exists>p st. pods w' (pt_Pod (pl_Target plan)) = Some p \<and>
      parsePodStatus p = Some st \<and> st_Role st = RolePrimary \<and> st_Ready st))"
  proof (cases "c_GetPod c w (pt_Pod (pl_Target plan))")
    case (Inl e)
    with assms show ?thesis by (auto simp: patchPromotedPodStatus_def)
  next
    case (Inr pod)
    let ?st = "promoted_status now plan"
    have st: "st_Role ?st = RolePrimary" "st_Ready ?st" by (simp_all add: promoted_status_def)
    obtain r1 w1 where p1: "c_PatchPod c pod (pod\<lparr>pod_InstanceStatus := Some ?st\<rparr>) w = (r1, w1)" by fastforce
    have p: "c_PatchPod c pod (pod\<lparr>pod_InstanceStatus := Some ?st\<rparr>) w = (r1, w')" and r: "r = None \<Longrightarrow> r1 = None"
      using assms Inr p1 by (simp_all add: patchPromotedPodStatus_def)
    have nm: "pods w (pod_Name pod) = Some pod" "pod_Name pod = pt_Pod (pl_Target plan)"
      using get_pod [OF Inr] pod_names by auto
    show ?thesis
      using patch_pod [OF p nm(1)] nm(2) r st by (auto simp: parsePodStatus_def)
  qed
  then show "pvcs w' = pvcs w"
    and "r = None \<Longrightarrow> \<exists>p st. pods w' (pt_Pod (pl_Target plan)) = Some p \<and> parsePodStatus p = Some st \<and>
           st_Role st = RolePrimary \<and> st_Ready st" by blast+
qed

lemma Execute_cases:
  assumes "Execute (Some c) (Some exec) ns now plan w = (r, w')"
  defines "pod \<equiv> pt_Pod (pl_Target plan)"
  obtains (early) e where "r = Some e" "w' = w"
  | (unfence) e where "r \<noteq> None" "unfenceTargetPVC (Some c) pod w = (Some e, w')"
  | (noop) w1 x where "unfenceTargetPVC (Some c) pod w = (None, w1)" "exec pod w1 = (x, w')"
      "\<forall>out. x = Inr out \<longrightarrow> \<not> promotionActuallyHappened out"
  | (fence) w1 out w2 e where "unfenceTargetPVC (Some c) pod w = (None, w1)" "exec pod w1 = (Inr out, w2)"
      "promotionActuallyHappened out" "fenceNonTargetMembers c pod w2 = (Some e, w')" "r \<noteq> None"
  | (promoted) w1 out w2 w3 where "unfenceTargetPVC (Some c) pod w = (None, w1)"
      "exec pod w1 = (Inr out, w2)" "promotionActuallyHappened out"
      "fenceNonTargetMembers c pod w2 = (None, w3)" "patchPromotedPodStatus c now plan w3 = (r, w')"
proof (cases "ns = [] \<or> pod = []")
  case True
  with assms(1) early show ?thesis by (auto simp: Execute_def Let_def pod_def)
next
  case False
  obtain r1 w1 where u: "unfenceTargetPVC (Some c) pod w = (r1, w1)" by fastforce
  obtain x w2 where x: "exec pod w1 = (x, w2)" by fastforce
  note run = assms(1) [unfolded Execute_def Let_def option.case, folded pod_def, unfolded if_not_P [OF False] u prod.case]
  show ?thesis
  proof (cases r1)
    case (Some e)
    with run u unfence show ?thesis by auto
  next
    case None
    show ?thesis
    proof (cases "\<exists>out. x = Inr out \<and> promotionActuallyHappened out")
      case False
      with run None x have "w' = w2" by (cases x) auto
      with noop [OF u [unfolded None], of x] x False show ?thesis by blast
    next
      case True
      then obtain out where out: "x = Inr out" "promotionActuallyHappened out" by blast
      obtain r3 w3 where f: "fenceNonTargetMembers c pod w2 = (r3, w3)" by fastforce
      show ?thesis
      proof (cases r3)
        case r3: (Some e)
        with run None x out f have "r \<noteq> None" "w' = w3" by auto
        with fence [OF u [unfolded None] x [unfolded out(1)] out(2)] f r3 show ?thesis by blast
      next
        case r3: None
        with run None x out f have "patchPromotedPodStatus c now plan w3 = (r, w')" by simp
        with promoted [OF u [unfolded None] x [unfolded out(1)] out(2)] f r3 show ?thesis by blast
      qed
    qed
  qed
qed

end

context promotion_env
begin

lemma Execute_volumes:
  assumes "Execute (Some c) (Some exec) ns now plan w = (r, w')"
  defines "pod \<equiv> pt_Pod (pl_Target plan)"
  defines "M \<equiv> members_but (PVCName pod) (member_prefix (statefulSetNameFromPod pod))"
  shows "\<exists>w1. (\<forall>n. n \<noteq> PVCName pod \<longrightarrow> pvcs w1 n = pvcs w n) \<and> only_fences M (pvcs w1) (pvcs w') \<and>
     (fenced_at (pvcs w1) (PVCName pod) \<longrightarrow> fenced_at (pvcs w) (PVCName pod)) \<and>
     (pvcs w' \<noteq> pvcs w1 \<longrightarrow> unfenceTargetPVC (Some c) pod w = (None, w1) \<and>
        (\<exists>out. fst (exec pod w1) = Inr out \<and> promotionActuallyHappened out))"
  using assms(1)
proof (cases rule: Execute_cases)
  case (early e)
  then show ?thesis by auto
next
  case (unfence e)
  then show ?thesis using unfenceTargetPVC_spec [of pod w "Some e" w'] unfolding pod_def by auto
next
  case (noop w1 x)
  moreover have "pvcs w' = pvcs w1" using exec_pvcs noop(2) .
  ultimately show ?thesis using unfenceTargetPVC_spec [of pod w None w1] unfolding pod_def by auto
next
  case (fence w1 out w2 e)
  have "pvcs w2 = pvcs w1" using exec_pvcs fence(2) .
  with fenceNonTargetMembers_spec [OF fence(4)] have "only_fences M (pvcs w1) (pvcs w')"
    unfolding M_def pod_def by simp
  with fence show ?thesis
    using unfenceTargetPVC_spec [OF fence(1)] unfolding pod_def by (intro exI [of _ w1]) auto
next
  case (promoted w1 out w2 w3)
  have "pvcs w2 = pvcs w1" using exec_pvcs promoted(2) .
  with fenceNonTargetMembers_spec [OF promoted(4)] have "only_fences M (pvcs w1) (pvcs w3)"
    unfolding M_def pod_def by simp
  with promoted show ?thesis
    using unfenceTargetPVC_spec [OF promoted(1)] patchPromotedPodStatus_pvcs(1) [OF promoted(5)]
    unfolding pod_def by (intro exI [of _ w1]) auto
qed

lemma Execute_promoted:
  assumes "Execute (Some c) (Some exec) ns now plan w = (None, w')"
    and "unfenceTargetPVC (Some c) (pt_Pod (pl_Target plan)) w = (None, w1)"
    and "exec (pt_Pod (pl_Target plan)) w1 = (Inr out, w2)" and "promotionActuallyHappened out"
  obtains w3 where "fenceNonTargetMembers c (pt_Pod (pl_Target plan)) w2 = (None, w3)"
    "patchPromotedPodStatus c now plan w3 = (None, w')"
  using assms(1)
  by (cases rule: Execute_cases) (use assms that in auto)

end

section \<open>The promotion script\<close>

lemma poll_primary_promoted:
  "poll_primary tick k i = (Inr out, i') \<Longrightarrow> is_primary i' \<and> out = ''PROMOTE_RESULT=promoted''"
  by (induction k arbitrary: i) (auto split: if_splits)

lemma poll_primary_files:
  assumes "\<And>i. pg_StandbySignal (tick i) = pg_StandbySignal i \<and> pg_PromotedMarker (tick i) = pg_PromotedMarker i"
  shows "poll_primary tick k i = (r, i') \<Longrightarrow>
    pg_StandbySignal i' = pg_StandbySignal i \<and> pg_PromotedMarker i' = pg_PromotedMarker i"
  by (induction k arbitrary: i) (auto simp: assms split: if_splits)

lemma script_outputs:
  "promotionActuallyHappened ''PROMOTE_RESULT=promoted''"
  "\<not> promotionActuallyHappened ''PROMOTE_RESULT=noop-already-primary''"
  by code_simp+

text \<open>A server that leaves the files of the data directory to the script.\<close>

definition server_spares_files ::
  "(PGInstance \<Rightarrow> string option \<times> PGInstance) \<Rightarrow> (PGInstance \<Rightarrow> PGInstance) \<Rightarrow> bool" where
  "server_spares_files promote tick \<longleftrightarrow>
     (\<forall>i. pg_StandbySignal (tick i) = pg_StandbySignal i \<and> pg_PromotedMarker (tick i) = pg_PromotedMarker i \<and>
          pg_StandbySignal (snd (promote i)) = pg_StandbySignal i \<and>
          pg_PromotedMarker (snd (promote i)) = pg_PromotedMarker i)"

text \<open>The instances behind the pods of a store, and the executor that runs the script in one of them.\<close>

record Env = Store +
  e_instance :: "string \<Rightarrow> PGInstance"

definition script_executor ::
  "(PGInstance \<Rightarrow> string option \<times> PGInstance) \<Rightarrow> (PGInstance \<Rightarrow> PGInstance) \<Rightarrow> Env executor" where
  "script_executor promote tick pod e =
     (if pod_in e pod = None then (Inl ''pod not found'', e)
      else case promotion_script promote tick (e_instance e pod) of
        (out, i) \<Rightarrow> (out, e\<lparr>e_instance := (e_instance e)(pod := i)\<rparr>))"

interpretation script: promotion_env mem_client pod_in pvc_in "script_executor promote tick" for promote tick
  by unfold_locales (auto simp: script_executor_def pvc_in_def split: if_splits prod.splits)

text \<open>C1: Completing a promotion leaves exactly one volume of the StatefulSet open for writing. When
  \<open>Execute\<close> succeeds and the script reported a real promotion, every volume claim with the member
  prefix of the target's StatefulSet is fenced except the target's own, which is not; claims without
  the prefix are untouched; and the promoted pod's annotation reports a ready primary.\<close>

theorem Execute_single_unfenced_member:
  assumes "promotion_env c pods pvcs exec"
    and "Execute (Some c) (Some exec) ns now plan w = (None, w')"
    and "unfenceTargetPVC (Some c) (pt_Pod (pl_Target plan)) w = (None, w1)"
    and "exec (pt_Pod (pl_Target plan)) w1 = (Inr out, w2)" and "promotionActuallyHappened out"
    and "sts = statefulSetNameFromPod (pt_Pod (pl_Target plan))"
  shows "(\<forall>n v. pvcs w' n = Some v \<longrightarrow> HasPrefix n (member_prefix sts) \<longrightarrow>
            (isLabeledFenced v \<longleftrightarrow> n \<noteq> PVCName (pt_Pod (pl_Target plan)))) \<and>
         (\<forall>n. \<not> HasPrefix n (member_prefix sts) \<longrightarrow> pvcs w' n = pvcs w n) \<and>
         (\<exists>p st. pods w' (pt_Pod (pl_Target plan)) = Some p \<and> parsePodStatus p = Some st \<and>
            st_Role st = RolePrimary \<and> st_Ready st)"
proof -
  let ?pod = "pt_Pod (pl_Target plan)" and ?M = "members_but (PVCName (pt_Pod (pl_Target plan))) (member_prefix sts)"
  note env = promotion_env.axioms(1) [OF assms(1)]
  obtain w3 where f: "fenceNonTargetMembers c ?pod w2 = (None, w3)"
    and p: "patchPromotedPodStatus c now plan w3 = (None, w')"
    using promotion_env.Execute_promoted [OF assms(1-5)] .
  have w2: "pvcs w2 = pvcs w1" using promotion_env.exec_pvcs [OF assms(1,4)] .
  note fenced = kube_client.fenceNonTargetMembers_spec [OF env f, folded assms(6), unfolded w2]
  note unf = promotion_env.unfenceTargetPVC_spec [OF assms(1,3)]
  have w': "pvcs w' = pvcs w3" using promotion_env.patchPromotedPodStatus_pvcs(1) [OF assms(1) p] .
  have out: "pvcs w' n = pvcs w1 n" if "n \<notin> ?M" for n
    using only_fences_outside [of ?M "pvcs w1" "pvcs w3" n] fenced that w' by simp
  have self: "HasPrefix (PVCName ?pod) (member_prefix sts)"
    using statefulSetNameFromPod_prefix [of ?pod sts] assms(6) fenced by simp
  have "isLabeledFenced v \<longleftrightarrow> n \<noteq> PVCName ?pod"
    if n: "pvcs w' n = Some v" "HasPrefix n (member_prefix sts)" for n v
  proof (cases "n = PVCName ?pod")
    case True
    then have "pvcs w1 n = Some v" using out [of n] n by (simp add: members_but_def)
    then show ?thesis using unf True by (auto simp: fenced_at_def)
  next
    case False
    then have M: "n \<in> ?M" using n by (simp add: members_but_def)
    then have "pvcs w1 n \<noteq> None"
      using fenced n(1) w' unfolding only_fences_def by (metis option.distinct(1))
    then have "fenced_at (pvcs w') n" using fenced M w' by auto
    with n False show ?thesis by (simp add: fenced_at_def)
  qed
  moreover have "pvcs w' n = pvcs w n" if "\<not> HasPrefix n (member_prefix sts)" for n
  proof -
    have "n \<noteq> PVCName ?pod" using self that by blast
    then show ?thesis using unf out [of n] that by (simp add: members_but_def)
  qed
  ultimately show ?thesis
    using promotion_env.patchPromotedPodStatus_pvcs(2) [OF assms(1) p refl] by blast
qed

definition demo_env :: Env where
  "demo_env =
     \<lparr>s_pods = [demo_pod ''demo-shard-0-0'' (Some (demo_status RolePrimary False)),
                demo_pod ''demo-shard-0-1'' (Some (demo_status RoleReplica False))],
      s_pvcs = [demo_pvc ''demo-shard-0-0'' False, demo_pvc ''demo-shard-0-1'' False, demo_pvc ''other-0'' False],
      s_nodes = [], s_annotations = Map.empty,
      e_instance = (\<lambda>_. \<lparr>pg_InRecovery = True, pg_StandbySignal = True, pg_RestartAsStandby = False,
                        pg_PromotedMarker = False\<rparr>)\<rparr>"

definition demo_plan :: PromotionPlan where
  "demo_plan = \<lparr>pl_Target = \<lparr>pt_ShardName = ''shard-0'', pt_Pod = ''demo-shard-0-1'', pt_Endpoint = ''ep''\<rparr>, pl_Steps = []\<rparr>"

abbreviation demo_promote :: "PGInstance \<Rightarrow> string option \<times> PGInstance" where
  "demo_promote \<equiv> (\<lambda>i. (Some ''t'', i\<lparr>pg_InRecovery := False\<rparr>))"

abbreviation demo_execute :: "PromoterError option \<times> Env" where
  "demo_execute \<equiv> Execute (Some mem_client) (Some (script_executor demo_promote id)) ''db'' 0 demo_plan demo_env"

theorem Execute_single_unfenced_member_witness:
  "\<exists>old new. pvc_in (snd demo_execute) ''data-demo-shard-0-0'' = Some old \<and> isLabeledFenced old \<and>
     pvc_in (snd demo_execute) ''data-demo-shard-0-1'' = Some new \<and> \<not> isLabeledFenced new"
proof -
  let ?exec = "script_executor demo_promote id"
  obtain r w' where ex: "demo_execute = (r, w')" by fastforce
  have ok: "fst demo_execute = None" by code_simp
  have unf: "unfenceTargetPVC (Some mem_client) ''demo-shard-0-1'' demo_env = (None, demo_env)"
  proof -
    have "c_GetPVC mem_client demo_env (PVCName ''demo-shard-0-1'') = Inr (demo_pvc ''demo-shard-0-1'' False)"
      by (simp add: mem_client_def demo_env_def pvc_in_def demo_pvc_def found_def)
    then show ?thesis by (simp add: unfenceTargetPVC_def demo_pvc_def isLabeledFenced_def label_of_def FenceLabelValue_def)
  qed
  have exec: "fst (?exec ''demo-shard-0-1'' demo_env) = Inr ''PROMOTE_RESULT=promoted''"
    by code_simp
  then obtain w2 where w2: "?exec ''demo-shard-0-1'' demo_env = (Inr ''PROMOTE_RESULT=promoted'', w2)"
    by (metis prod.collapse)
  have pod: "pt_Pod (pl_Target demo_plan) = ''demo-shard-0-1''" by (simp add: demo_plan_def)
  have sts: "''demo-shard-0'' = statefulSetNameFromPod (pt_Pod (pl_Target demo_plan))"
    unfolding pod by code_simp
  have prefix: "member_prefix ''demo-shard-0'' = ''data-demo-shard-0-''" and nm: "PVCName ''demo-shard-0-1'' = ''data-demo-shard-0-1''"
    by (simp_all add: member_prefix_def PVCName_def)
  have fences: "pvc_in (snd demo_execute) n = Some v \<Longrightarrow> HasPrefix n ''data-demo-shard-0-'' \<Longrightarrow>
      isLabeledFenced v \<longleftrightarrow> n \<noteq> ''data-demo-shard-0-1''" for n v
    using Execute_single_unfenced_member [OF script.promotion_env_axioms _ _ _ script_outputs(1) sts, unfolded pod prefix nm,
        OF _ unf w2, of "''db''" 0 w'] ok ex by simp
  have "map_option (\<lambda>_. ()) (pvc_in (snd demo_execute) ''data-demo-shard-0-0'') = Some ()"
    "map_option (\<lambda>_. ()) (pvc_in (snd demo_execute) ''data-demo-shard-0-1'') = Some ()"
    by code_simp+
  then obtain old new where v: "pvc_in (snd demo_execute) ''data-demo-shard-0-0'' = Some old"
    "pvc_in (snd demo_execute) ''data-demo-shard-0-1'' = Some new" by auto
  have "HasPrefix ''data-demo-shard-0-0'' ''data-demo-shard-0-''" "HasPrefix ''data-demo-shard-0-1'' ''data-demo-shard-0-''"
    by code_simp+
  with v fences show ?thesis by fastforce
qed

text \<open>C33: No volume is fenced before the promotion is known to have happened. Whatever the API calls
  and the script answer, \<open>Execute\<close> touches no claim outside the target's StatefulSet, never fences
  the target, and a claim it newly fences implies that the script ran after the target was unfenced
  and reported a real promotion.\<close>

theorem Execute_fences_only_after_promotion:
  assumes "promotion_env c pods pvcs exec" and "Execute (Some c) (Some exec) ns now plan w = (r, w')"
    and "pod = pt_Pod (pl_Target plan)" and "sts = statefulSetNameFromPod pod"
  shows "(\<forall>n. n \<noteq> PVCName pod \<longrightarrow> \<not> HasPrefix n (member_prefix sts) \<longrightarrow> pvcs w' n = pvcs w n) \<and>
         (fenced_at (pvcs w') (PVCName pod) \<longrightarrow> fenced_at (pvcs w) (PVCName pod)) \<and>
         (\<forall>n. fenced_at (pvcs w') n \<longrightarrow> \<not> fenced_at (pvcs w) n \<longrightarrow>
            (\<exists>w1 out. unfenceTargetPVC (Some c) pod w = (None, w1) \<and>
               fst (exec pod w1) = Inr out \<and> promotionActuallyHappened out))"
proof -
  let ?M = "members_but (PVCName pod) (member_prefix sts)"
  obtain w1 where same: "\<forall>n. n \<noteq> PVCName pod \<longrightarrow> pvcs w1 n = pvcs w n"
    and fences: "only_fences ?M (pvcs w1) (pvcs w')"
    and target: "fenced_at (pvcs w1) (PVCName pod) \<longrightarrow> fenced_at (pvcs w) (PVCName pod)"
    and after: "pvcs w' \<noteq> pvcs w1 \<longrightarrow> unfenceTargetPVC (Some c) pod w = (None, w1) \<and>
        (\<exists>out. fst (exec pod w1) = Inr out \<and> promotionActuallyHappened out)"
    using promotion_env.Execute_volumes [OF assms(1,2), folded assms(3), folded assms(4)]
    by (elim exE conjE) (rule that)
  have out: "n \<notin> ?M \<Longrightarrow> pvcs w' n = pvcs w1 n" for n
    using only_fences_outside [OF fences] by blast
  have tgt: "fenced_at (pvcs w') (PVCName pod) \<longleftrightarrow> fenced_at (pvcs w1) (PVCName pod)"
    using out [of "PVCName pod"] by (simp add: members_but_def fenced_at_def)
  have new: "pvcs w' \<noteq> pvcs w1" if "fenced_at (pvcs w') n" "\<not> fenced_at (pvcs w) n" for n
  proof
    assume eq: "pvcs w' = pvcs w1"
    show False
    proof (cases "n = PVCName pod")
      case True
      with that target eq show False by simp
    next
      case False
      with that same eq show False by (simp add: fenced_at_def)
    qed
  qed
  show ?thesis
  proof (intro conjI allI impI)
    fix n assume "n \<noteq> PVCName pod" and "\<not> HasPrefix n (member_prefix sts)"
    then show "pvcs w' n = pvcs w n" using out [of n] same by (simp add: members_but_def)
  next
    assume "fenced_at (pvcs w') (PVCName pod)"
    then show "fenced_at (pvcs w) (PVCName pod)" using tgt target by blast
  next
    fix n assume "fenced_at (pvcs w') n" and "\<not> fenced_at (pvcs w) n"
    with new after show "\<exists>w1 out. unfenceTargetPVC (Some c) pod w = (None, w1) \<and>
        fst (exec pod w1) = Inr out \<and> promotionActuallyHappened out" by blast
  qed
qed

theorem Execute_fences_only_after_promotion_witness:
  "pvc_in (snd demo_execute) ''data-other-0'' = pvc_in demo_env ''data-other-0''"
proof -
  obtain r w' where ex: "demo_execute = (r, w')" by fastforce
  have pod: "''demo-shard-0-1'' = pt_Pod (pl_Target demo_plan)" by (simp add: demo_plan_def)
  have sts: "''demo-shard-0'' = statefulSetNameFromPod ''demo-shard-0-1''" by code_simp
  show ?thesis
    using Execute_fences_only_after_promotion [OF script.promotion_env_axioms ex pod sts] ex
    by (simp add: member_prefix_def PVCName_def)
qed

text \<open>C33: The promotion script is honest and changes the data directory late. With a server that leaves
  the marker files alone, output \<open>PROMOTE_RESULT=promoted\<close> means that the instance is out of recovery
  with the promoted marker set and \<open>standby.signal\<close> gone; and when the script fails with the files
  changed, \<open>pg_promote\<close> had answered \<open>t\<close> or the server had left recovery.\<close>

theorem promotion_script_marker:
  assumes "server_spares_files promote tick" and "promotion_script promote tick i = (r, i')"
  shows "(\<forall>out. r = Inr out \<longrightarrow> promotionActuallyHappened out \<longrightarrow>
            is_primary i' \<and> pg_PromotedMarker i' \<and> \<not> pg_StandbySignal i') \<and>
         (\<forall>e. r = Inl e \<longrightarrow>
            (pg_StandbySignal i', pg_PromotedMarker i') \<noteq> (pg_StandbySignal i, pg_PromotedMarker i) \<longrightarrow>
            (\<exists>answer. fst (promote i) = Some answer \<and>
               (filter (\<lambda>ch. \<not> is_space ch) answer = ''t'' \<or> is_primary (snd (promote i)))))"
proof -
  have files: "pg_StandbySignal (tick j) = pg_StandbySignal j \<and> pg_PromotedMarker (tick j) = pg_PromotedMarker j"
    "pg_StandbySignal (snd (promote j)) = pg_StandbySignal j \<and> pg_PromotedMarker (snd (promote j)) = pg_PromotedMarker j"
    for j using assms(1) by (auto simp: server_spares_files_def)
  obtain a i1 where p: "promote i = (a, i1)" by fastforce
  let ?i2 = "i1\<lparr>pg_StandbySignal := False, pg_RestartAsStandby := False, pg_PromotedMarker := True\<rparr>"
  let ?bad = "\<lambda>answer. filter (\<lambda>ch. \<not> is_space ch) answer \<noteq> ''t'' \<and> \<not> is_primary i1"
  consider "is_primary i" | "\<not> is_primary i" "a = None" | answer where "\<not> is_primary i" "a = Some answer" "?bad answer"
    | answer where "\<not> is_primary i" "a = Some answer" "\<not> ?bad answer" by blast
  then show ?thesis
  proof cases
    case 1
    then have "r = Inr ''PROMOTE_RESULT=noop-already-primary''"
      using assms(2) unfolding promotion_script_def by simp
    then show ?thesis using script_outputs(2) by blast
  next
    case 2
    then have "\<exists>e. r = Inl e" "i' = i1" using assms(2) p unfolding promotion_script_def by auto
    then show ?thesis using files(2) [of i] p by auto
  next
    case 3
    have "promotion_script promote tick i = (Inl ''pg_promote did not reach primary state within 30s'', i1)"
      unfolding promotion_script_def if_not_P [OF 3(1)] p prod.case 3(2) option.case if_P [OF 3(3)] ..
    then have "\<exists>e. r = Inl e" "i' = i1" using assms(2) by auto
    then show ?thesis using files(2) [of i] p by auto
  next
    case 4
    have run: "poll_primary tick 30 ?i2 = (r, i')"
      using assms(2)
      unfolding promotion_script_def if_not_P [OF 4(1)] p prod.case 4(2) option.case if_not_P [OF 4(3)] .
    have "pg_StandbySignal i' = False \<and> pg_PromotedMarker i' = True"
      using poll_primary_files [of tick, OF files(1) run] by simp
    moreover have "r = Inr out \<Longrightarrow> is_primary i'" for out
      using poll_primary_promoted [of tick 30 ?i2 out i'] run by blast
    moreover have "fst (promote i) = Some answer" "snd (promote i) = i1" using p 4(2) by simp_all
    ultimately show ?thesis using 4(3) by blast
  qed
qed

theorem promotion_script_marker_witness:
  "pg_PromotedMarker (snd (promotion_script demo_promote id (e_instance demo_env ''demo-shard-0-1'')))"
proof -
  let ?i = "e_instance demo_env ''demo-shard-0-1''"
  obtain r i' where run: "promotion_script demo_promote id ?i = (r, i')" by fastforce
  have spares: "server_spares_files demo_promote id" by (simp add: server_spares_files_def)
  have "fst (promotion_script demo_promote id ?i) = Inr ''PROMOTE_RESULT=promoted''" by code_simp
  with run have "r = Inr ''PROMOTE_RESULT=promoted''" by simp
  with promotion_script_marker [OF spares run] script_outputs(1) run show ?thesis by simp
qed

text \<open>Membership is tested by the name prefix only. The volume of a StatefulSet whose name extends the
  target's name by a hyphen is fenced with it: promoting shard \<open>hot\<close> fences shard \<open>hot-a\<close>.\<close>

definition prefix_env :: Env where
  "prefix_env = demo_env
     \<lparr>s_pods := [demo_pod ''demo-rsd-hot-1'' (Some (demo_status RoleReplica False)),
                demo_pod ''demo-rsd-hot-a-0'' (Some (demo_status RolePrimary False))],
      s_pvcs := [demo_pvc ''demo-rsd-hot-1'' False, demo_pvc ''demo-rsd-hot-a-0'' False]\<rparr>"

definition prefix_plan :: PromotionPlan where
  "prefix_plan = \<lparr>pl_Target = \<lparr>pt_ShardName = ''hot'', pt_Pod = ''demo-rsd-hot-1'', pt_Endpoint = ''ep''\<rparr>, pl_Steps = []\<rparr>"

lemma promotion_fences_other_statefulset:
  "\<not> fenced_at (pvc_in prefix_env) (PVCName ''demo-rsd-hot-a-0'')"
  "statefulSetNameFromPod ''demo-rsd-hot-a-0'' \<noteq> statefulSetNameFromPod ''demo-rsd-hot-1''"
  "fenced_at (pvc_in (snd (Execute (Some mem_client) (Some (script_executor demo_promote id)) ''db'' 0 prefix_plan prefix_env)))
     (PVCName ''demo-rsd-hot-a-0'')"
  by code_simp+

section \<open>The failback guard\<close>

lemma foldl_last_named:
  "distinct (map nm vs) \<Longrightarrow>
   foldl (\<lambda>b v. if nm v = n then f v else b) b0 vs = (case find (\<lambda>v. nm v = n) vs of None \<Rightarrow> b0 | Some v \<Rightarrow> f v)"
proof (induction vs arbitrary: b0)
  case (Cons v vs)
  then show ?case
  proof (cases "nm v = n")
    case True
    then have "find (\<lambda>u. nm u = n) vs = None"
      using Cons.prems by (metis (mono_tags, lifting) distinct.simps(2) find_None_iff image_eqI list.set_map list.simps(9))
    with True Cons show ?thesis by simp
  qed simp
qed simp

lemma foldl_max_upper:
  fixes f :: "'a \<Rightarrow> int"
  defines "g \<equiv> (\<lambda>m x. let p = f x in if p > m then p else m)"
  shows "m \<le> foldl g m xs \<and> (\<forall>x\<in>set xs. f x \<le> foldl g m xs)"
proof (induction xs arbitrary: m)
  case (Cons x xs)
  have "m \<le> g m x" "f x \<le> g m x" by (simp_all add: g_def Let_def)
  with Cons [of "g m x"] show ?case by auto
qed simp

lemma TrimPrefix_PVCName [simp]: "TrimPrefix (PVCName pod) ''data-'' = pod"
  by (simp add: TrimPrefix_def PVCName_def)

context kube_client
begin

text \<open>The candidate's own fence, as the loop of the guard reads it.\<close>

lemma guard_candidateFenced:
  assumes "c_ListPVCs c w = Inr items" and "statefulSetNameFromPod pod \<noteq> []"
  defines "members \<equiv> filter (\<lambda>v. HasPrefix (pvc_Name v) (member_prefix (statefulSetNameFromPod pod))) items"
  shows "foldl (\<lambda>b v. if pvc_Name v = PVCName pod then isLabeledFenced v else b) False members \<longleftrightarrow>
    fenced_at (pvcs w) (PVCName pod)"
proof -
  have dist: "distinct (map pvc_Name members)"
    unfolding members_def using list_pvcs [OF assms(1)] by (intro distinct_map_filter_names) blast
  have mem: "v \<in> set members \<longleftrightarrow> pvcs w (PVCName pod) = Some v" if "pvc_Name v = PVCName pod" for v
    using that list_pvcs_mem [OF assms(1), of v] statefulSetNameFromPod_prefix [OF refl assms(2)]
    by (simp add: members_def)
  show ?thesis
  proof (cases "find (\<lambda>v. pvc_Name v = PVCName pod) members")
    case None
    then have "pvc_Name v \<noteq> PVCName pod" if "v \<in> set members" for v
      using that by (simp add: find_None_iff)
    then have "pvcs w (PVCName pod) = None"
      using mem pvc_names by (metis not_Some_eq)
    with None show ?thesis by (simp add: foldl_last_named [OF dist] fenced_at_def)
  next
    case (Some v)
    then have "v \<in> set members" "pvc_Name v = PVCName pod"
      by (auto simp: find_Some_iff)
    with mem Some show ?thesis by (simp add: foldl_last_named [OF dist] fenced_at_def)
  qed
qed

lemma guard_admits:
  assumes "shouldSkipFencedCandidate c pod w = Inr False" and "statefulSetNameFromPod pod \<noteq> []"
    and "fenced_at (pvcs w) (PVCName pod)"
    and "pvcs w (PVCName m) = Some v" and "\<not> isLabeledFenced v"
    and "HasPrefix (PVCName m) (member_prefix (statefulSetNameFromPod pod))"
  shows "reportedWALPosition c pod w - reportedWALPosition c m w \<ge> promotionFreshnessLeadBytes"
proof -
  let ?sts = "statefulSetNameFromPod pod"
  obtain items where l: "c_ListPVCs c w = Inr items"
    using assms(1,2) by (cases "c_ListPVCs c w") (simp_all add: shouldSkipFencedCandidate_def Let_def)
  let ?members = "filter (\<lambda>v. HasPrefix (pvc_Name v) (member_prefix ?sts)) items"
  let ?unf = "map (\<lambda>v. TrimPrefix (pvc_Name v) ''data-'') (filter (\<lambda>v. \<not> isLabeledFenced v) ?members)"
  let ?serving = "foldl (\<lambda>m pod. let p = reportedWALPosition c pod w in if p > m then p else m) (- 1) ?unf"
  let ?cand = "reportedWALPosition c pod w"
  have "pvc_Name v = PVCName m" using pvc_names assms(4) by blast
  then have "v \<in> set ?members" using list_pvcs_mem [OF l, of v] assms(4,6) by simp
  with \<open>pvc_Name v = PVCName m\<close> assms(5) have m: "m \<in> set ?unf" by force
  then have "?unf \<noteq> []" by (metis list.set(1) empty_iff)
  note skip = assms(1) [unfolded shouldSkipFencedCandidate_def Let_def if_not_P [OF assms(2)] l sum.case
      guard_candidateFenced [OF l assms(2)]]
  have "?cand - ?serving \<ge> promotionFreshnessLeadBytes"
    using skip assms(3) \<open>?unf \<noteq> []\<close> by (auto split: if_splits simp: Let_def)
  moreover have "reportedWALPosition c m w \<le> ?serving"
    using foldl_max_upper [where f = "\<lambda>pod. reportedWALPosition c pod w" and m = "- 1" and xs = ?unf] m by blast
  ultimately show ?thesis by simp
qed

lemma guard_unfenced:
  assumes "c_ListPVCs c w = Inr items" and "\<not> fenced_at (pvcs w) (PVCName pod)"
  shows "shouldSkipFencedCandidate c pod w = Inr False"
  using guard_candidateFenced [OF assms(1), of pod] assms
  by (simp add: shouldSkipFencedCandidate_def Let_def)

end


definition stale_serving_store :: Store where
  "stale_serving_store =
     \<lparr>s_pods = [demo_pod ''demo-shard-0-0'' (Some ((demo_status RoleReplica False)\<lparr>st_WALLSNBytes := 3 * 2 ^ 30\<rparr>)),
                demo_pod ''demo-shard-0-1'' (Some ((demo_status RolePrimary False)\<lparr>st_WALLSNBytes := 2 ^ 30\<rparr>))],
      s_pvcs = [demo_pvc ''demo-shard-0-0'' True, demo_pvc ''demo-shard-0-1'' False],
      s_nodes = [], s_annotations = Map.empty\<rparr>"


text \<open>A member with a fenced volume is never chosen for promotion by the reconcile loop. A candidate
  that detection takes from an aggregated shard status is not fenced, so the failback guard always
  lets it pass on the same state; and when every member of the shard is fenced there is no candidate
  at all, so a shard whose members are all fenced is not recovered by promotion.\<close>

theorem aggregated_candidate_unfenced:
  assumes "kube_client c pods pvcs" and "c_ListPVCs c w = Inr vs"
    and "ss_Replicas s = ss_Replicas (aggregateShardStatusMatching c sel cluster shardID ord svc matches now w)"
  shows "(\<forall>ep. d_PromotionCandidate (DetectPrimaryFailure s) = Some ep \<longrightarrow>
            \<not> fenced_at (pvcs w) (PVCName (ep_Pod ep)) \<and> shouldSkipFencedCandidate c (ep_Pod ep) w = Inr False) \<and>
         ((\<forall>n pod. pods w n = Some pod \<longrightarrow> matches pod \<longrightarrow> fenced_at (pvcs w) (PVCName n)) \<longrightarrow>
            d_PromotionCandidate (DetectPrimaryFailure s) = None)"
proof -
  have cand: "\<exists>pod. pods w (ep_Pod ep) = Some pod \<and> matches pod \<and> \<not> fenced_at (pvcs w) (PVCName (ep_Pod ep))"
    if "d_PromotionCandidate (DetectPrimaryFailure s) = Some ep" for ep
  proof -
    have "SelectPromotionCandidate (ss_Replicas s) = Some ep"
      using that by (simp add: DetectPrimaryFailure_candidate split: if_splits)
    then have "ep_Ready ep" "ep \<in> set (ss_Replicas s)" using SelectPromotionCandidate_Some by blast+
    then obtain pod st where "pods w (ep_Pod ep) = Some pod" "matches pod" "serves (fencedPVC c w) now pod st"
      using kube_client.aggregate_replica [OF assms(1)] assms(3) by metis
    moreover have "pod_Name pod = ep_Pod ep" using kube_client.pod_names [OF assms(1)] calculation(1) .
    ultimately show ?thesis
      using kube_client.fencedPVC_iff [OF assms(1,2)] by (simp add: serves_def)
  qed
  show ?thesis
  proof (intro conjI allI impI)
    fix ep assume "d_PromotionCandidate (DetectPrimaryFailure s) = Some ep"
    from cand [OF this] show "\<not> fenced_at (pvcs w) (PVCName (ep_Pod ep))" by blast
    then show "shouldSkipFencedCandidate c (ep_Pod ep) w = Inr False"
      by (rule kube_client.guard_unfenced [OF assms(1,2)])
  next
    assume all: "\<forall>n pod. pods w n = Some pod \<longrightarrow> matches pod \<longrightarrow> fenced_at (pvcs w) (PVCName n)"
    show "d_PromotionCandidate (DetectPrimaryFailure s) = None"
      using all cand by (cases "d_PromotionCandidate (DetectPrimaryFailure s)") blast+
  qed
qed

text \<open>Both members fenced, none serving.\<close>

definition all_fenced_store :: Store where
  "all_fenced_store = stale_serving_store
     \<lparr>s_pvcs := [demo_pvc ''demo-shard-0-0'' True, demo_pvc ''demo-shard-0-1'' True]\<rparr>"

theorem aggregated_candidate_unfenced_witness:
  "d_PromotionCandidate (DetectPrimaryFailure
     (aggregateShardStatusMatching mem_client [] demo_cluster ''shard-0'' 0 ''svc'' (\<lambda>_. True) 0 all_fenced_store)) = None"
proof -
  obtain vs where vs: "c_ListPVCs mem_client all_fenced_store = Inr vs" by (simp add: mem_client_def)
  have "fenced_at (pvc_in all_fenced_store) (PVCName n)" if "pod_in all_fenced_store n = Some pod" for n pod
  proof -
    have "n = ''demo-shard-0-0'' \<or> n = ''demo-shard-0-1''"
      using that by (auto simp: pod_in_def all_fenced_store_def stale_serving_store_def demo_pod_def split: if_splits)
    moreover have "fenced_at (pvc_in all_fenced_store) (PVCName ''demo-shard-0-0'')"
      "fenced_at (pvc_in all_fenced_store) (PVCName ''demo-shard-0-1'')" by code_simp+
    ultimately show ?thesis by auto
  qed
  with aggregated_candidate_unfenced [OF store.kube_client_axioms vs refl] show ?thesis by blast
qed

section \<open>Debounce\<close>

interpretation debounce: sustained_gate shouldPromoteAfterDebounce failoverDebounceThreshold "\<lambda>c. c"
  by unfold_locales (auto simp: shouldPromoteAfterDebounce_def split: option.splits)

text \<open>The table after a sequence of evaluations, of this and of other clusters.\<close>

definition debounce_run :: "(string \<times> observation) list \<Rightarrow> string \<rightharpoonup> time" where
  "debounce_run os = foldl (\<lambda>m (k, f, c, n). snd (shouldPromoteAfterDebounce k f c n m)) Map.empty os"

lemma debounce_run_evaluate: "debounce_run os = foldl debounce.evaluate Map.empty os"
  unfolding debounce_run_def by (rule foldl_cong) (auto simp: debounce.evaluate_def)



section \<open>One decision per cluster\<close>

text \<open>C38: Only the first failed shard is considered. When the first shard whose primary has failed has
  no ready replica, the reconcile promotes nothing and resets the debounce window, whatever the state
  of the shards after it: their failover waits for the first one.\<close>

theorem first_failed_shard_blocks_failover:
  assumes "\<forall>s\<in>set before. \<not> d_Failed (DetectPrimaryFailure s)" and "d_Failed (DetectPrimaryFailure s)"
    and "\<forall>r\<in>set (ss_Replicas s). \<not> ep_Ready r"
  shows "\<exists>d. reconcile_failover c executor cluster (before @ s # rest) wasReady now pending w =
    (None, d, pending(pc_Namespace cluster @ ''/'' @ pc_Name cluster := None), w)"
proof -
  have "first_failed (before @ s # rest) = (ss_Name s, DetectPrimaryFailure s)"
    using assms(1,2) by (induction before) (simp_all add: Let_def)
  then obtain n d where dec: "clusterFailoverDecision cluster (before @ s # rest) = (n, d)"
    and d: "d = no_failure \<or> d = DetectPrimaryFailure s"
    by (cases "standaloneReplicaEnabled cluster") (auto simp: clusterFailoverDecision_def)
  have "SelectPromotionCandidate (ss_Replicas s) = None" using assms(3) SelectPromotionCandidate_None by blast
  with d have "d_PromotionCandidate d = None"
    by (auto simp: DetectPrimaryFailure_candidate no_failure_def)
  then show ?thesis by (simp add: reconcile_failover_def dec Let_def shouldPromoteAfterDebounce_def)
qed

definition demo_shard :: "string \<Rightarrow> string \<Rightarrow> bool \<Rightarrow> ShardEndpoint list \<Rightarrow> ShardStatus" where
  "demo_shard n pod ready reps =
     \<lparr>ss_Name = n, ss_Ordinal = 0, ss_Primary = Some (demo_replica pod ready 0), ss_Replicas = reps,
      ss_SizeBytes = 0, ss_LastSplit = None\<rparr>"

theorem first_failed_shard_blocks_failover_witness:
  "snd (snd (snd (reconcile_failover mem_client (Some (script_executor demo_promote id)) demo_cluster
     ([] @ demo_shard ''shard-0'' ''demo-shard-0-0'' False [] #
      [demo_shard ''shard-1'' ''demo-shard-1-0'' False [demo_replica ''demo-shard-1-1'' True 0]])
     True (9 * second) [''db/demo'' \<mapsto> 0] demo_env))) = demo_env"
proof -
  have "d_Failed (DetectPrimaryFailure (demo_shard ''shard-0'' ''demo-shard-0-0'' False []))"
    by (simp add: DetectPrimaryFailure_Failed demo_shard_def demo_replica_def)
  from first_failed_shard_blocks_failover [OF _ this, of "[]" mem_client
      "Some (script_executor demo_promote id)" demo_cluster
      "[demo_shard ''shard-1'' ''demo-shard-1-0'' False [demo_replica ''demo-shard-1-1'' True 0]]"
      True "9 * second" "[''db/demo'' \<mapsto> 0]" demo_env]
  show ?thesis by (auto simp: demo_shard_def)
qed

text \<open>The debounce window is kept per cluster, not per shard: a shard that fails for the first time in
  the reconcile in which another one recovers inherits its window and is promoted at once.\<close>

definition two_shard_env :: Env where
  "two_shard_env = demo_env
     \<lparr>s_pods := [demo_pod ''demo-shard-1-1'' (Some (demo_status RoleReplica False))],
      s_pvcs := [demo_pvc ''demo-shard-1-0'' False, demo_pvc ''demo-shard-1-1'' False]\<rparr>"

definition shard0 :: "bool \<Rightarrow> ShardStatus" where
  "shard0 ready = demo_shard ''shard-0'' ''demo-shard-0-0'' ready [demo_replica ''demo-shard-0-1'' True 0]"

definition shard1 :: "bool \<Rightarrow> ShardStatus" where
  "shard1 ready = demo_shard ''shard-1'' ''demo-shard-1-0'' ready [demo_replica ''demo-shard-1-1'' True 0]"

definition two_shard_reconcile where
  "two_shard_reconcile ss wasReady now pending e =
     reconcile_failover mem_client (Some (script_executor demo_promote id)) demo_cluster ss wasReady now pending e"

lemma debounce_window_shared_between_shards:
  "case two_shard_reconcile [shard0 False, shard1 True] True 0 Map.empty two_shard_env of
     (_, _, pending, e1) \<Rightarrow>
       \<not> fenced_at (pvc_in e1) (PVCName ''demo-shard-1-0'') \<and>
       (case two_shard_reconcile [shard0 True, shard1 False] False (8 * second) pending e1 of
          (err, _, _, e2) \<Rightarrow> err = None \<and> pvc_in e2 (PVCName ''demo-shard-1-0'') = None \<and>
             pg_PromotedMarker (e_instance e2 ''demo-shard-1-1''))"
  by code_simp

section \<open>Re-seeding spares the serving members\<close>

text \<open>What an operation on a set of pods may change: their pod objects and their volumes.\<close>

definition touches_only ::
  "string set \<Rightarrow> (string \<rightharpoonup> Pod) \<Rightarrow> (string \<rightharpoonup> PVC) \<Rightarrow> (string \<rightharpoonup> Pod) \<Rightarrow> (string \<rightharpoonup> PVC) \<Rightarrow> bool" where
  "touches_only N ps vs ps' vs' \<longleftrightarrow>
     (\<forall>n. n \<notin> N \<longrightarrow> ps' n = ps n) \<and> (\<forall>m. m \<notin> PVCName ` N \<longrightarrow> vs' m = vs m)"

lemma touches_only_refl [simp]: "touches_only N ps vs ps vs"
  by (simp add: touches_only_def)

lemma touches_only_trans:
  "touches_only A ps vs ps1 vs1 \<Longrightarrow> touches_only B ps1 vs1 ps2 vs2 \<Longrightarrow> touches_only (A \<union> B) ps vs ps2 vs2"
  by (simp add: touches_only_def image_Un)

lemma touches_only_mono: "touches_only A ps vs ps' vs' \<Longrightarrow> A \<subseteq> B \<Longrightarrow> touches_only B ps vs ps' vs'"
  unfolding touches_only_def by blast

context kube_client
begin

abbreviation touched :: "string set \<Rightarrow> 'w \<Rightarrow> 'w \<Rightarrow> bool" where
  "touched N w w' \<equiv> touches_only N (pods w) (pvcs w) (pods w') (pvcs w')"

lemma forceDeleteStuckPod_touches:
  assumes "forceDeleteStuckPod c pod w = (r, w')" and "pods w (pod_Name pod) = Some pod"
  shows "touched {pod_Name pod} w w'"
proof (cases "pod_Finalizers pod = []")
  case True
  then obtain r1 where "c_DeletePod c (pod_Name pod) (Some 0) w = (r1, w')"
    using assms(1) by (cases "c_DeletePod c (pod_Name pod) (Some 0) w") (auto simp: forceDeleteStuckPod_def Let_def)
  from delete_pod [OF this] show ?thesis by (simp add: touches_only_def)
next
  case False
  obtain r1 w1 where p: "c_PatchPod c pod (pod\<lparr>pod_Finalizers := []\<rparr>) w = (r1, w1)" by fastforce
  have t1: "touched {pod_Name pod} w w1"
    using patch_pod [OF p assms(2)] by (auto simp: touches_only_def)
  show ?thesis
  proof (cases r1)
    case (Some e)
    with assms(1) False p have "w' = w1" by (simp add: forceDeleteStuckPod_def Let_def)
    with t1 show ?thesis by simp
  next
    case None
    obtain r2 where "c_DeletePod c (pod_Name pod) (Some 0) w1 = (r2, w')"
      using assms(1) False p None
      by (cases "c_DeletePod c (pod_Name pod) (Some 0) w1") (auto simp: forceDeleteStuckPod_def Let_def)
    from delete_pod [OF this] have "touched {pod_Name pod} w1 w'" by (simp add: touches_only_def)
    from touches_only_trans [OF t1 this] show ?thesis by simp
  qed
qed

lemma reseed_pod_touches:
  assumes "reseed_pod c n now w = (r, w')"
  shows "touched {n} w w'"
proof (cases "c_GetPod c w n")
  case (Inl e)
  with assms show ?thesis by (cases e) (auto simp: reseed_pod_def)
next
  case (Inr pod)
  have pod: "pods w (pod_Name pod) = Some pod" "pod_Name pod = n"
    using get_pod [OF Inr] pod_names by auto
  show ?thesis
  proof (cases "stuckTerminatingOnDeadNode c pod now w \<and> podAbsentOrNotReady c n w")
    case True
    with assms Inr have "forceDeleteStuckPod c pod w = (r, w')" by (simp add: reseed_pod_def)
    from forceDeleteStuckPod_touches [OF this pod(1)] show ?thesis unfolding pod(2) .
  next
    case False
    obtain r1 w1 where d: "c_DeletePod c n None w = (r1, w1)" by fastforce
    have "reseed_pod c n now w = (ignore_NotFound ''delete stale standby pod'' r1, w1)"
      unfolding reseed_pod_def Inr sum.case if_not_P [OF False] d by simp
    with assms delete_pod [OF d] show ?thesis by (simp add: touches_only_def)
  qed
qed

lemma reseedStandby_touches:
  assumes "reseedStandby c n now w = (r, w')"
  shows "touched {n} w w'"
proof (cases "c_GetPVC c w (PVCName n)")
  case (Inl e)
  with assms show ?thesis by (cases e) (auto simp: reseedStandby_def intro: reseed_pod_touches)
next
  case (Inr v)
  obtain r1 w1 where d: "c_DeletePVC c (PVCName n) w = (r1, w1)" by fastforce
  have t1: "touched {n} w w1" using delete_pvc [OF d] by (auto simp: touches_only_def)
  show ?thesis
  proof (cases "ignore_NotFound ''delete stale standby pvc'' r1")
    case (Some e)
    with assms Inr d get_pvc_name [OF Inr] have "w' = w1" by (simp add: reseedStandby_def)
    with t1 show ?thesis by simp
  next
    case None
    with assms Inr d get_pvc_name [OF Inr] have "reseed_pod c n now w1 = (r, w')"
      by (simp add: reseedStandby_def)
    from touches_only_trans [OF t1 reseed_pod_touches [OF this]] show ?thesis by simp
  qed
qed

lemma record_reseed_touches:
  "record_reseed fmt c n now cl w = (r, cl', w') \<Longrightarrow> pods w' = pods w \<and> pvcs w' = pvcs w"
  by (cases "c_PatchAnnotations c ((pc_Annotations cl)(reseedAnnotationPrefix @ n \<mapsto> fmt now)) w")
    (auto simp: record_reseed_def Let_def dest: patch_annotations)

lemma reseed_loop_touches:
  assumes "reseed_loop due fmt c now reps cl w = (r, cl', w')"
    and "\<And>cl rep w. due cl rep w \<Longrightarrow> P rep"
  shows "touched {ep_Pod rep |rep. rep \<in> set reps \<and> P rep} w w'"
  using assms(1)
proof (induction reps arbitrary: cl w)
  case (Cons rep reps)
  let ?N = "{ep_Pod q |q. q \<in> set (rep # reps) \<and> P q}"
  have sub: "{ep_Pod q |q. q \<in> set reps \<and> P q} \<subseteq> ?N" by auto
  show ?case
  proof (cases "due cl rep w")
    case False
    with Cons.prems have "reseed_loop due fmt c now reps cl w = (r, cl', w')" by simp
    from touches_only_mono [OF Cons.IH [OF this] sub] show ?thesis .
  next
    case True
    obtain r1 w1 where s: "reseedStandby c (ep_Pod rep) now w = (r1, w1)" by fastforce
    have "{ep_Pod rep} \<subseteq> ?N" using assms(2) [OF True] by auto
    with reseedStandby_touches [OF s] have t1: "touched ?N w w1" by (rule touches_only_mono)
    show ?thesis
    proof (cases r1)
      case (Some e)
      with Cons.prems True s have "w' = w1" by simp
      with t1 show ?thesis by simp
    next
      case None
      obtain r2 cl2 w2 where q: "record_reseed fmt c (ep_Pod rep) now cl w1 = (r2, cl2, w2)"
        by (cases "record_reseed fmt c (ep_Pod rep) now cl w1")
      note same = record_reseed_touches [OF q]
      show ?thesis
      proof (cases r2)
        case r2: (Some e)
        with Cons.prems True s None q have "w' = w2" by simp
        with t1 same show ?thesis by simp
      next
        case r2: None
        with Cons.prems True s None q have "reseed_loop due fmt c now reps cl2 w2 = (r, cl', w')" by simp
        note rest = touches_only_mono [OF Cons.IH [OF this] sub]
        from touches_only_trans [OF t1, of ?N] rest same show ?thesis by simp
      qed
    qed
  qed
qed simp

lemma reseed_shards_touches:
  assumes "reseed_shards due fmt c now shards cl w = (r, cl', w')"
    and "\<And>p cl rep w. due p cl rep w \<Longrightarrow> P p rep"
  shows "touched {ep_Pod rep |ss p rep. ss \<in> set shards \<and> ss_Primary ss = Some p \<and> ep_Ready p \<and>
           rep \<in> set (ss_Replicas ss) \<and> P p rep} w w'"
  using assms(1)
proof (induction shards arbitrary: cl w)
  case (Cons ss shards)
  let ?N = "\<lambda>S. {ep_Pod rep |ss p rep. ss \<in> S \<and> ss_Primary ss = Some p \<and> ep_Ready p \<and>
           rep \<in> set (ss_Replicas ss) \<and> P p rep}"
  have sub: "?N (set shards) \<subseteq> ?N (set (ss # shards))" by auto
  show ?case
  proof (cases "\<exists>p. ss_Primary ss = Some p \<and> ep_Ready p")
    case False
    with Cons.prems have "reseed_shards due fmt c now shards cl w = (r, cl', w')"
      by (auto split: option.splits)
    from touches_only_mono [OF Cons.IH [OF this] sub] show ?thesis .
  next
    case True
    then obtain p where p: "ss_Primary ss = Some p" "ep_Ready p" by blast
    obtain r1 cl1 w1 where l: "reseed_loop (due p) fmt c now (ss_Replicas ss) cl w = (r1, cl1, w1)"
      by (cases "reseed_loop (due p) fmt c now (ss_Replicas ss) cl w")
    have "{ep_Pod rep |rep. rep \<in> set (ss_Replicas ss) \<and> P p rep} \<subseteq> ?N (set (ss # shards))"
      using p by auto
    with reseed_loop_touches [OF l assms(2)] have t1: "touched (?N (set (ss # shards))) w w1"
      by (rule touches_only_mono)
    show ?thesis
    proof (cases r1)
      case (Some e)
      with Cons.prems p l have "w' = w1" by simp
      with t1 show ?thesis by simp
    next
      case None
      with Cons.prems p l have "reseed_shards due fmt c now shards cl1 w1 = (r, cl', w')" by simp
      note rest = touches_only_mono [OF Cons.IH [OF this] sub]
      from touches_only_trans [OF t1 rest] show ?thesis by simp
    qed
  qed
qed simp

end

text \<open>A pod whose cooldown runs is left alone, and its cooldown stays recorded.\<close>

lemma in_cooldown_other:
  "m \<noteq> n \<Longrightarrow> in_cooldown parse (cl\<lparr>pc_Annotations := (pc_Annotations cl)(reseedAnnotationPrefix @ m \<mapsto> x)\<rparr>) n now
     = in_cooldown parse cl n now"
  by (simp add: in_cooldown_def label_of_def)

lemma record_reseed_cluster:
  "record_reseed fmt c m now cl w = (r, cl', w') \<Longrightarrow>
   cl' = cl\<lparr>pc_Annotations := (pc_Annotations cl)(reseedAnnotationPrefix @ m \<mapsto> fmt now)\<rparr>"
  by (auto simp: record_reseed_def Let_def split: prod.splits)

context kube_client
begin

lemma reseed_loop_cooldown:
  assumes "reseed_loop due fmt c now reps cl w = (r, cl', w')" and "in_cooldown parse cl n now"
    and due: "\<And>cl rep w. due cl rep w \<Longrightarrow> \<not> in_cooldown parse cl (ep_Pod rep) now"
  shows "pods w' n = pods w n \<and> pvcs w' (PVCName n) = pvcs w (PVCName n) \<and> in_cooldown parse cl' n now"
  using assms(1,2)
proof (induction reps arbitrary: cl w)
  case (Cons rep reps)
  show ?case
  proof (cases "due cl rep w")
    case False
    with Cons show ?thesis by simp
  next
    case True
    with due Cons.prems(2) have m: "ep_Pod rep \<noteq> n" by blast
    obtain r1 w1 where s: "reseedStandby c (ep_Pod rep) now w = (r1, w1)" by fastforce
    have t: "pods w1 n = pods w n" "pvcs w1 (PVCName n) = pvcs w (PVCName n)"
      using reseedStandby_touches [OF s] m by (auto simp: touches_only_def)
    obtain r2 cl2 w2 where q: "record_reseed fmt c (ep_Pod rep) now cl w1 = (r2, cl2, w2)"
      by (cases "record_reseed fmt c (ep_Pod rep) now cl w1")
    note same = record_reseed_touches [OF q]
    have cd: "in_cooldown parse cl2 n now"
      using Cons.prems(2) in_cooldown_other [OF m] record_reseed_cluster [OF q] by metis
    consider "r1 \<noteq> None" "w' = w1" "cl' = cl" | "r1 = None" "r2 \<noteq> None" "w' = w2" "cl' = cl2"
      | "r1 = None" "r2 = None" "reseed_loop due fmt c now reps cl2 w2 = (r, cl', w')"
      using Cons.prems(1) True s q by (cases r1; cases r2) simp_all
    then show ?thesis
    proof cases
      case 3
      from Cons.IH [OF this(3) cd] t same show ?thesis by simp
    qed (use t same cd Cons.prems(2) in simp_all)
  qed
qed simp

lemma reseed_shards_cooldown:
  assumes "reseed_shards due fmt c now shards cl w = (r, cl', w')" and "in_cooldown parse cl n now"
    and due: "\<And>p cl rep w. due p cl rep w \<Longrightarrow> \<not> in_cooldown parse cl (ep_Pod rep) now"
  shows "pods w' n = pods w n \<and> pvcs w' (PVCName n) = pvcs w (PVCName n) \<and> in_cooldown parse cl' n now"
  using assms(1,2)
proof (induction shards arbitrary: cl w)
  case (Cons ss shards)
  show ?case
  proof (cases "\<exists>p. ss_Primary ss = Some p \<and> ep_Ready p")
    case False
    with Cons show ?thesis by (auto split: option.splits)
  next
    case True
    then obtain p where p: "ss_Primary ss = Some p" "ep_Ready p" by blast
    obtain r1 cl1 w1 where l: "reseed_loop (due p) fmt c now (ss_Replicas ss) cl w = (r1, cl1, w1)"
      by (cases "reseed_loop (due p) fmt c now (ss_Replicas ss) cl w")
    note step = reseed_loop_cooldown [OF l Cons.prems(2) due]
    consider "w' = w1" "cl' = cl1" | "reseed_shards due fmt c now shards cl1 w1 = (r, cl', w')"
      using Cons.prems(1) p l by (cases r1) simp_all
    then show ?thesis
      by cases (use step Cons.IH [of cl1 w1] in simp_all)
  qed
qed simp

end

lemma stale_replica_due:
  "stale_replica parse c now cl rep w \<Longrightarrow> \<not> ep_Ready rep \<and> \<not> in_cooldown parse cl (ep_Pod rep) now"
  by (auto simp: stale_replica_def split: if_splits sum.splits)

lemma rogue_replica_due:
  "rogue_replica parse now p cl rep w \<Longrightarrow>
   ep_Reason rep = roguePrimaryReason \<and> ep_Pod rep \<noteq> ep_Pod p \<and> \<not> in_cooldown parse cl (ep_Pod rep) now"
  by (auto simp: rogue_replica_def split: if_splits)

text \<open>C22: Re-seeding destroys nothing that serves. A reconcile runs the stale-standby pass and then the
  rogue-primary pass. Whatever the API answers, a pod object or a volume that is different afterwards
  belongs to a replica, in a shard whose primary is ready, that is not ready or is flagged as a rogue
  primary other than that primary; and its ten-minute cooldown was not running.\<close>

theorem reseed_spares_serving_members:
  assumes "kube_client c pods pvcs"
    and "reconcileStaleReplicas parse fmt c cl shards now w = (r1, cl1, w1)"
    and "reconcileRoguePrimaries parse fmt c cl1 shards now w1 = (r2, cl2, w2)"
    and "pods w2 n \<noteq> pods w n \<or> pvcs w2 (PVCName n) \<noteq> pvcs w (PVCName n)"
  shows "\<not> in_cooldown parse cl n now \<and>
    (\<exists>ss p rep. ss \<in> set shards \<and> ss_Primary ss = Some p \<and> ep_Ready p \<and> rep \<in> set (ss_Replicas ss) \<and>
       ep_Pod rep = n \<and> (\<not> ep_Ready rep \<or> ep_Reason rep = roguePrimaryReason \<and> ep_Pod rep \<noteq> ep_Pod p))"
proof -
  note run1 = assms(2) [unfolded reconcileStaleReplicas_def]
    and run2 = assms(3) [unfolded reconcileRoguePrimaries_def]
  note t1 = kube_client.reseed_shards_touches [OF assms(1) run1, where P = "\<lambda>p rep. \<not> ep_Ready rep"]
  note t2 = kube_client.reseed_shards_touches [OF assms(1) run2,
      where P = "\<lambda>p rep. ep_Reason rep = roguePrimaryReason \<and> ep_Pod rep \<noteq> ep_Pod p"]
  have t1': "touches_only {ep_Pod rep |ss p rep. ss \<in> set shards \<and> ss_Primary ss = Some p \<and> ep_Ready p \<and>
      rep \<in> set (ss_Replicas ss) \<and> \<not> ep_Ready rep} (pods w) (pvcs w) (pods w1) (pvcs w1)"
    by (rule t1) (blast dest: stale_replica_due)
  have t2': "touches_only {ep_Pod rep |ss p rep. ss \<in> set shards \<and> ss_Primary ss = Some p \<and> ep_Ready p \<and>
      rep \<in> set (ss_Replicas ss) \<and> ep_Reason rep = roguePrimaryReason \<and> ep_Pod rep \<noteq> ep_Pod p}
      (pods w1) (pvcs w1) (pods w2) (pvcs w2)"
    by (rule t2) (blast dest: rogue_replica_due)
  have changed: "n \<in> N" if "touches_only N (pods w) (pvcs w) (pods w2) (pvcs w2)" for N
    using that assms(4) unfolding touches_only_def by (metis PVCName_inject imageE)
  from changed [OF touches_only_trans [OF t1' t2']]
  have "\<exists>ss p rep. ss \<in> set shards \<and> ss_Primary ss = Some p \<and> ep_Ready p \<and> rep \<in> set (ss_Replicas ss) \<and>
      ep_Pod rep = n \<and> (\<not> ep_Ready rep \<or> ep_Reason rep = roguePrimaryReason \<and> ep_Pod rep \<noteq> ep_Pod p)"
    by blast
  moreover have "\<not> in_cooldown parse cl n now"
  proof
    assume "in_cooldown parse cl n now"
    then have s1: "pods w1 n = pods w n \<and> pvcs w1 (PVCName n) = pvcs w (PVCName n) \<and> in_cooldown parse cl1 n now"
      by (rule kube_client.reseed_shards_cooldown [OF assms(1) run1]) (blast dest: stale_replica_due)
    then have "in_cooldown parse cl1 n now" by blast
    then have "pods w2 n = pods w1 n \<and> pvcs w2 (PVCName n) = pvcs w1 (PVCName n) \<and> in_cooldown parse cl2 n now"
      by (rule kube_client.reseed_shards_cooldown [OF assms(1) run2]) (blast dest: rogue_replica_due)
    with s1 assms(4) show False by simp
  qed
  ultimately show ?thesis by blast
qed

text \<open>A replica stuck for nine minutes behind a ready primary loses pod and volume.\<close>

definition stuck_store :: Store where
  "stuck_store =
     \<lparr>s_pods = [demo_pod ''demo-shard-0-0'' None, demo_pod ''demo-shard-0-1'' None],
      s_pvcs = [demo_pvc ''demo-shard-0-0'' False, demo_pvc ''demo-shard-0-1'' False],
      s_nodes = [], s_annotations = Map.empty\<rparr>"

definition stuck_shards :: "ShardStatus list" where
  "stuck_shards = [demo_shard ''shard-0'' ''demo-shard-0-0'' True [demo_replica ''demo-shard-0-1'' False 0]]"

abbreviation stuck_run1 where
  "stuck_run1 \<equiv> reconcileStaleReplicas (\<lambda>_. None) (\<lambda>_. ''t'') mem_client demo_cluster stuck_shards (9 * minute) stuck_store"

theorem reseed_spares_serving_members_witness:
  "\<exists>p (rep :: ShardEndpoint).
     ss_Primary (hd stuck_shards) = Some p \<and> ep_Ready p \<and> ep_Pod rep = ''demo-shard-0-1'' \<and> \<not> ep_Ready rep"
proof -
  obtain r1 cl1 w1 where run1: "stuck_run1 = (r1, cl1, w1)" by (cases stuck_run1)
  obtain r2 cl2 w2 where run2:
    "reconcileRoguePrimaries (\<lambda>_. None) (\<lambda>_. ''t'') mem_client cl1 stuck_shards (9 * minute) w1 = (r2, cl2, w2)"
    by (cases "reconcileRoguePrimaries (\<lambda>_. None) (\<lambda>_. ''t'') mem_client cl1 stuck_shards (9 * minute) w1")
  have "(case stuck_run1 of (_, cl1, w1) \<Rightarrow>
      case reconcileRoguePrimaries (\<lambda>_. None) (\<lambda>_. ''t'') mem_client cl1 stuck_shards (9 * minute) w1 of
        (_, _, w2) \<Rightarrow> Option.is_none (pod_in w2 ''demo-shard-0-1''))" by code_simp
  then have gone: "pod_in w2 ''demo-shard-0-1'' = None" using run1 run2 by (simp add: Option.is_none_def)
  have "\<not> Option.is_none (pod_in stuck_store ''demo-shard-0-1'')" by code_simp
  with gone have "pod_in w2 ''demo-shard-0-1'' \<noteq> pod_in stuck_store ''demo-shard-0-1''"
    by (auto simp: Option.is_none_def)
  with reseed_spares_serving_members [OF store.kube_client_axioms run1 run2, of "''demo-shard-0-1''"]
  obtain ss p rep where "ss \<in> set stuck_shards" "ss_Primary ss = Some p" "ep_Ready p" "rep \<in> set (ss_Replicas ss)"
    "ep_Pod rep = ''demo-shard-0-1''" "\<not> ep_Ready rep \<or> ep_Reason rep = roguePrimaryReason" by blast
  then have "ss_Primary (hd stuck_shards) = Some p" "ep_Ready p" "ep_Pod rep = ''demo-shard-0-1''" "\<not> ep_Ready rep"
    by (auto simp: stuck_shards_def demo_shard_def demo_replica_def roguePrimaryReason_def)
  then show ?thesis by blast
qed

end
