(* ===== verification/Cluster_Conditions.thy ===== *)
theory Cluster_Conditions
  imports Promoter
begin

text \<open>
  The status a reconcile publishes: \<open>setCondition\<close> of \<open>status.go\<close>, \<open>applyClusterConditions\<close> and the
  annotation readers of \<open>postgrescluster_controller.go\<close>, \<open>reconcileReplicationHealth\<close>
  (\<open>replication_health.go\<close>), the bootstrap check of \<open>replica_cluster.go\<close> and
  \<open>primaryEndpointForShard\<close>. The setters of the commons and apimachinery libraries are a parameter, a
  record \<open>CondLib\<close>; the locale \<open>condition_lib\<close> states what they promise.
\<close>

section \<open>Setting conditions\<close>

record CondLib =
  cl_TypeReady :: string
  cl_TypeProgressing :: string
  cl_SetReady :: "ConditionStatus \<Rightarrow> string \<Rightarrow> string \<Rightarrow> int \<Rightarrow> Condition list \<Rightarrow> Condition list"
  cl_SetProgressing :: "string \<Rightarrow> string \<Rightarrow> int \<Rightarrow> Condition list \<Rightarrow> Condition list"
  cl_SetStatusCondition :: "Condition \<Rightarrow> Condition list \<Rightarrow> Condition list"

definition mk_cond :: "string \<Rightarrow> ConditionStatus \<Rightarrow> string \<Rightarrow> string \<Rightarrow> int \<Rightarrow> Condition" where
  "mk_cond ty st reason message gen =
     \<lparr>cond_Type = ty, cond_Status = st, cond_Reason = reason, cond_Message = message,
      cond_ObservedGeneration = gen\<rparr>"

definition setCondition ::
  "CondLib \<Rightarrow> string \<Rightarrow> ConditionStatus \<Rightarrow> string \<Rightarrow> string \<Rightarrow> int \<Rightarrow> Condition list \<Rightarrow> Condition list" where
  "setCondition L condType status reason message observedGeneration conds =
     (if condType = cl_TypeReady L then cl_SetReady L status reason message observedGeneration conds
      else if condType = cl_TypeProgressing L \<and> status = ConditionTrue
        then cl_SetProgressing L reason message observedGeneration conds
      else cl_SetStatusCondition L (mk_cond condType status reason message observedGeneration) conds)"

definition cond_at :: "string \<Rightarrow> Condition list \<Rightarrow> Condition option" where
  "cond_at ty conds = find (\<lambda>x. cond_Type x = ty) conds"

locale condition_lib =
  fixes L :: CondLib
  assumes SetReady: "cond_at ty (cl_SetReady L st reason msg gen cs) =
      (if ty = cl_TypeReady L then Some (mk_cond ty st reason msg gen) else cond_at ty cs)"
    and SetProgressing: "cond_at ty (cl_SetProgressing L reason msg gen cs) =
      (if ty = cl_TypeProgressing L then Some (mk_cond ty ConditionTrue reason msg gen) else cond_at ty cs)"
    and SetStatusCondition: "cond_at ty (cl_SetStatusCondition L x cs) =
      (if ty = cond_Type x then Some x else cond_at ty cs)"
begin

lemma setCondition_at:
  "cond_at ty (setCondition L condType st reason msg gen cs) =
     (if ty = condType then Some (mk_cond ty st reason msg gen) else cond_at ty cs)"
  by (simp add: setCondition_def SetReady SetProgressing SetStatusCondition mk_cond_def)

end

text \<open>The replace-or-append list that \<open>meta.SetStatusCondition\<close> documents.\<close>

fun upsert_condition :: "Condition \<Rightarrow> Condition list \<Rightarrow> Condition list" where
  "upsert_condition x [] = [x]"
| "upsert_condition x (y # ys) = (if cond_Type y = cond_Type x then x # ys else y # upsert_condition x ys)"

definition list_conditions :: CondLib where
  "list_conditions =
     \<lparr>cl_TypeReady = ''Ready'', cl_TypeProgressing = ''Progressing'',
      cl_SetReady = (\<lambda>st r m g. upsert_condition (mk_cond ''Ready'' st r m g)),
      cl_SetProgressing = (\<lambda>r m g. upsert_condition (mk_cond ''Progressing'' ConditionTrue r m g)),
      cl_SetStatusCondition = upsert_condition\<rparr>"

lemma cond_at_upsert: "cond_at ty (upsert_condition x cs) = (if ty = cond_Type x then Some x else cond_at ty cs)"
  by (induction cs) (auto simp: cond_at_def)

interpretation conds: condition_lib list_conditions
  by unfold_locales (simp_all add: list_conditions_def cond_at_upsert mk_cond_def)

section \<open>Annotations and endpoints\<close>

definition AnnotationHibernation :: string where "AnnotationHibernation = ''cnpg.io/hibernation''"
definition AnnotationRestoreInProgress :: string where
  "AnnotationRestoreInProgress = ''postgres.keiailab.io/restore-in-progress''"

definition hibernationRequested :: "PostgresCluster \<Rightarrow> bool" where
  "hibernationRequested cluster =
     EqualFold (TrimSpace (label_of (pc_Annotations cluster) AnnotationHibernation)) ''on''"

definition restoreInProgress :: "PostgresCluster \<Rightarrow> bool" where
  "restoreInProgress cluster = (TrimSpace (label_of (pc_Annotations cluster) AnnotationRestoreInProgress) \<noteq> [])"

record replicaBootstrapConfig =
  rb_Endpoint :: string
  rb_User :: string
  rb_DBName :: string
  rb_SSLMode :: string
  rb_Password :: "SecretKeySelector option"
  rb_SSLKey :: "SecretKeySelector option"
  rb_SSLCert :: "SecretKeySelector option"
  rb_SSLRootCert :: "SecretKeySelector option"

datatype ReplicaError =
    SourceRequired
  | BootstrapRequired
  | SourceMismatch string string
  | UnknownSource string
  | HostRequired string
  | SecretNameRequired string
  | SecretKeyRequired string

definition externalClusterByName :: "ExternalClusterSpec list \<Rightarrow> string \<Rightarrow> ExternalClusterSpec option" where
  "externalClusterByName items name = find (\<lambda>i. ec_Name i = name) items"

definition validateSecretKeySelector :: "string \<Rightarrow> SecretKeySelector option \<Rightarrow> ReplicaError option" where
  "validateSecretKeySelector label ref =
     (case ref of
        None \<Rightarrow> None
      | Some s \<Rightarrow>
          if TrimSpace (sk_Name s) = [] then Some (SecretNameRequired label)
          else if TrimSpace (sk_Key s) = [] then Some (SecretKeyRequired label)
          else None)"

text \<open>The loop over the four secrets iterates over a Go map: any of its errors may be the one returned.
  The model returns the first in the order of the literal.\<close>

fun first_secret_error :: "(string \<times> SecretKeySelector option) list \<Rightarrow> ReplicaError option" where
  "first_secret_error [] = None"
| "first_secret_error ((label, ref) # rest) =
     (case validateSecretKeySelector label ref of Some e \<Rightarrow> Some e | None \<Rightarrow> first_secret_error rest)"

definition param_or :: "ExternalClusterSpec \<Rightarrow> string \<Rightarrow> string \<Rightarrow> string" where
  "param_or src key dflt =
     (let v = TrimSpace (label_of (ec_ConnectionParameters src) key) in if v = [] then dflt else v)"

definition replicaBootstrapConfigForCluster ::
  "PostgresCluster \<Rightarrow> (ReplicaError, replicaBootstrapConfig option) result" where
  "replicaBootstrapConfigForCluster cluster =
     (case pc_Replica cluster of
        None \<Rightarrow> Inr None
      | Some r \<Rightarrow>
          if \<not> rc_Enabled r then Inr None
          else if rc_Source r = [] then Inl SourceRequired
          else case pc_BootstrapSource cluster of
            None \<Rightarrow> Inl BootstrapRequired
          | Some src \<Rightarrow>
              if src \<noteq> rc_Source r then Inl (SourceMismatch src (rc_Source r))
              else case externalClusterByName (pc_ExternalClusters cluster) (rc_Source r) of
                None \<Rightarrow> Inl (UnknownSource (rc_Source r))
              | Some ec \<Rightarrow>
                  if param_or ec ''host'' [] = [] then Inl (HostRequired (ec_Name ec))
                  else case first_secret_error [(''password'', ec_Password ec), (''sslKey'', ec_SSLKey ec),
                              (''sslCert'', ec_SSLCert ec), (''sslRootCert'', ec_SSLRootCert ec)] of
                    Some e \<Rightarrow> Inl e
                  | None \<Rightarrow>
                      Inr (Some \<lparr>rb_Endpoint = param_or ec ''host'' [] @ '':'' @ param_or ec ''port'' ''5432'',
                        rb_User = param_or ec ''user'' ''postgres'', rb_DBName = param_or ec ''dbname'' ''postgres'',
                        rb_SSLMode = param_or ec ''sslmode'' ''prefer'', rb_Password = ec_Password ec,
                        rb_SSLKey = ec_SSLKey ec, rb_SSLCert = ec_SSLCert ec,
                        rb_SSLRootCert = ec_SSLRootCert ec\<rparr>))"

definition primaryEndpointForShard ::
  "PostgresCluster \<Rightarrow> int \<Rightarrow> string \<Rightarrow> replicaBootstrapConfig option \<Rightarrow> bool \<Rightarrow> string" where
  "primaryEndpointForShard cluster shardOrdinal svcName replicaBootstrap hibernating =
     (let dns = (\<lambda>pod. pod @ ''.'' @ svcName @ ''.'' @ pc_Namespace cluster @ ''.svc.cluster.local:'' @ Itoa pgPort);
          known = find (\<lambda>s. ss_Ordinal s = shardOrdinal \<and>
                     (case ss_Primary s of None \<Rightarrow> False | Some p \<Rightarrow> ep_Endpoint p \<noteq> [] \<or> ep_Pod p \<noteq> []))
                    (pc_Shards cluster)
      in case replicaBootstrap of
           Some b \<Rightarrow> rb_Endpoint b
         | None \<Rightarrow>
             if hibernating then []
             else case Option.bind known ss_Primary of
               Some p \<Rightarrow> if ep_Endpoint p \<noteq> [] then ep_Endpoint p else dns (ep_Pod p)
             | None \<Rightarrow>
                 if 0 < pc_Replicas cluster
                 then dns (ShardStatefulSetName (pc_Name cluster) shardOrdinal @ ''-0'')
                 else [])"

definition primaryEndpointForNamedShard :: "PostgresCluster \<Rightarrow> string \<Rightarrow> string \<Rightarrow> bool \<Rightarrow> string" where
  "primaryEndpointForNamedShard cluster shardID svcName databasePodsStopped =
     (if databasePodsStopped then []
      else case Option.bind (find (\<lambda>s. ss_Name s = shardID \<and>
                     (case ss_Primary s of None \<Rightarrow> False | Some p \<Rightarrow> ep_Endpoint p \<noteq> [])) (pc_Shards cluster))
                  ss_Primary of
        Some p \<Rightarrow> ep_Endpoint p
      | None \<Rightarrow> TargetShardStatefulSetName (pc_Name cluster) shardID @ ''-0'' @ ''.'' @ svcName @ ''.'' @
                pc_Namespace cluster @ ''.svc.cluster.local:'' @ Itoa pgPort)"

section \<open>Cluster conditions\<close>

definition ConditionReady :: string where "ConditionReady = ''Ready''"
definition ConditionProgressing :: string where "ConditionProgressing = ''Progressing''"
definition ConditionShardsReady :: string where "ConditionShardsReady = ''ShardsReady''"
definition ConditionRouterReady :: string where "ConditionRouterReady = ''RouterReady''"
definition ConditionFailoverReady :: string where "ConditionFailoverReady = ''FailoverReady''"
definition ConditionPrimaryRoleSynced :: string where "ConditionPrimaryRoleSynced = ''PrimaryRoleSynced''"
definition ConditionHibernation :: string where "ConditionHibernation = ''cnpg.io/hibernation''"
definition ConditionReplicationHealthy :: string where "ConditionReplicationHealthy = ''ReplicationHealthy''"

lemmas condition_types = ConditionReady_def ConditionProgressing_def ConditionShardsReady_def
  ConditionRouterReady_def ConditionFailoverReady_def ConditionPrimaryRoleSynced_def
  ConditionHibernation_def ConditionReplicationHealthy_def

definition count_msg :: "int \<Rightarrow> int \<Rightarrow> string \<Rightarrow> string" where
  "count_msg a b what = Itoa a @ ''/'' @ Itoa b @ what"

text \<open>\<open>cluster.Spec.Router.Replicas\<close>; a nil router is active only by a caller's mistake and would panic.\<close>

definition router_replicas :: "PostgresCluster \<Rightarrow> int" where
  "router_replicas cluster = (case pc_Router cluster of None \<Rightarrow> 0 | Some r \<Rightarrow> rt_Replicas r)"

definition router_ready :: "PostgresCluster \<Rightarrow> bool \<Rightarrow> ClusterRouterStatus option \<Rightarrow> bool" where
  "router_ready cluster routerActive routerStatus =
     (\<not> routerActive \<or>
      (case routerStatus of
         None \<Rightarrow> False
       | Some rs \<Rightarrow> 0 < rs_Replicas rs \<and> rs_ReadyReplicas rs = router_replicas cluster))"

definition router_condition ::
  "CondLib \<Rightarrow> PostgresCluster \<Rightarrow> bool \<Rightarrow> ClusterRouterStatus option \<Rightarrow> Condition list \<Rightarrow> Condition list" where
  "router_condition L cluster routerActive routerStatus =
     (if \<not> routerActive then
        setCondition L ConditionRouterReady ConditionTrue ''NotApplicable''
          ''router disabled (shardingMode=none or router.enabled=false)'' (pc_Generation cluster)
      else if router_ready cluster routerActive routerStatus then
        setCondition L ConditionRouterReady ConditionTrue ''Available''
          (case routerStatus of None \<Rightarrow> []
           | Some rs \<Rightarrow> count_msg (rs_ReadyReplicas rs) (rs_Replicas rs) '' router replicas ready'') (pc_Generation cluster)
      else
        setCondition L ConditionRouterReady ConditionFalse ''Progressing'' ''waiting for router readiness''
          (pc_Generation cluster))"

definition hibernated_conditions :: "CondLib \<Rightarrow> PostgresCluster \<Rightarrow> bool \<Rightarrow> Condition list \<Rightarrow> Condition list" where
  "hibernated_conditions L cluster routerActive cs =
     (let gen = pc_Generation cluster;
          cs1 = setCondition L ConditionHibernation ConditionTrue ''Hibernated'' ''Cluster has been hibernated'' gen cs;
          cs2 = setCondition L ConditionShardsReady ConditionFalse ''Hibernated''
                  ''database pods intentionally stopped; PVCs retained'' gen cs1;
          cs3 = (if routerActive
                 then setCondition L ConditionRouterReady ConditionFalse ''Hibernated''
                        ''router replicas intentionally scaled to zero during hibernation'' gen cs2
                 else setCondition L ConditionRouterReady ConditionTrue ''NotApplicable''
                        ''router disabled (shardingMode=none or router.enabled=false)'' gen cs2);
          cs4 = setCondition L ConditionFailoverReady ConditionFalse ''Hibernated''
                  ''failover suspended while cluster is hibernated'' gen cs3;
          cs5 = setCondition L ConditionPrimaryRoleSynced ConditionTrue ''NotApplicable''
                  ''cluster hibernated; no primary Pod to label'' gen cs4;
          cs6 = setCondition L ConditionReady ConditionFalse ''Hibernated''
                  ''cluster hibernated; database pods intentionally stopped'' gen cs5
      in setCondition L ConditionProgressing ConditionFalse ''Hibernated'' ''hibernate steady state reached'' gen cs6)"

definition role_condition :: "CondLib \<Rightarrow> int \<Rightarrow> bool \<Rightarrow> Condition list \<Rightarrow> Condition list" where
  "role_condition L gen synced =
     (if synced
      then setCondition L ConditionPrimaryRoleSynced ConditionTrue ''Available''
             ''primary Pod(s) carry the current instance-role=primary label'' gen
      else setCondition L ConditionPrimaryRoleSynced ConditionFalse ''RoleLabelPending''
             ''a Ready primary Pod does not yet carry instance-role=primary; rw-routing may still target a demoted pod'' gen)"

definition shards_condition :: "CondLib \<Rightarrow> int \<Rightarrow> int \<Rightarrow> bool \<Rightarrow> bool \<Rightarrow> Condition list \<Rightarrow> Condition list" where
  "shards_condition L gen shardCount allShardPrimaryReady standaloneReplica =
     (if allShardPrimaryReady \<and> 0 < shardCount
      then setCondition L ConditionShardsReady ConditionTrue ''Available''
             (count_msg shardCount shardCount
                (if standaloneReplica then '' replica shard ready'' else '' shard primary ready'')) gen
      else setCondition L ConditionShardsReady ConditionFalse ''Progressing'' ''waiting for shard primary readiness'' gen)"

definition failover_condition :: "CondLib \<Rightarrow> int \<Rightarrow> bool \<Rightarrow> bool \<Rightarrow> Decision \<Rightarrow> Condition list \<Rightarrow> Condition list" where
  "failover_condition L gen failoverDegraded standaloneReplica decision =
     (if failoverDegraded
      then setCondition L ConditionFailoverReady ConditionFalse (reason_string (d_Reason decision))
             (case d_PromotionCandidate decision of
                None \<Rightarrow> d_Message decision
              | Some ep \<Rightarrow> d_Message decision @ ''; promotion candidate='' @ ep_Pod ep) gen
      else setCondition L ConditionFailoverReady ConditionTrue ''Available''
             (if standaloneReplica then ''local failover disabled for standalone replica cluster''
              else ''no failover action required'') gen)"

definition applyClusterConditions ::
  "CondLib \<Rightarrow> int \<Rightarrow> bool \<Rightarrow> bool \<Rightarrow> ClusterRouterStatus option \<Rightarrow> bool \<Rightarrow> bool \<Rightarrow> bool \<Rightarrow> Decision \<Rightarrow> bool \<Rightarrow>
   PostgresCluster \<Rightarrow> PostgresCluster" where
  "applyClusterConditions L shardCount allShardPrimaryReady routerActive routerStatus hibernating
     standaloneReplica wasReady decision primaryRoleLabelsSynced cluster =
     (let gen = pc_Generation cluster; cs = pc_Conditions cluster in
      if hibernating then
        cluster\<lparr>pc_Phase := Some ClusterPhaseHibernated,
                pc_Conditions := hibernated_conditions L cluster routerActive cs\<rparr>
      else
        let failoverDegraded = wasReady \<and> d_Failed decision;
            cs1 = setCondition L ConditionHibernation ConditionFalse ''NotHibernated'' ''Cluster is not hibernated'' gen cs;
            cs2 = role_condition L gen primaryRoleLabelsSynced cs1;
            cs3 = shards_condition L gen shardCount allShardPrimaryReady standaloneReplica cs2;
            cs4 = router_condition L cluster routerActive routerStatus cs3;
            cs5 = failover_condition L gen failoverDegraded standaloneReplica decision cs4;
            clusterReady = allShardPrimaryReady \<and> 0 < shardCount \<and> router_ready cluster routerActive routerStatus
        in if failoverDegraded then
             cluster\<lparr>pc_Phase := Some ClusterPhaseDegraded,
               pc_Conditions :=
                 setCondition L ConditionProgressing ConditionFalse ''Available'' ''primary failure detected after Ready'' gen
                  (setCondition L ConditionReady ConditionFalse (reason_string (d_Reason decision)) (d_Message decision) gen cs5)\<rparr>
           else if clusterReady then
             cluster\<lparr>pc_Phase := Some ClusterPhaseReady,
               pc_Conditions :=
                 setCondition L ConditionProgressing ConditionFalse ''Available'' ''reconcile reached steady state'' gen
                  (setCondition L ConditionReady ConditionTrue ''Available'' ''all subsystems ready'' gen cs5)\<rparr>
           else
             cluster\<lparr>pc_Phase := Some ClusterPhaseProvisioning,
               pc_Conditions :=
                 setCondition L ConditionProgressing ConditionTrue ''Reconciling'' ''creating or waiting for subresources'' gen
                  (setCondition L ConditionReady ConditionFalse ''Progressing'' ''reconcile in progress'' gen cs5)\<rparr>)"

section \<open>Replication health\<close>

definition replicationLagUnhealthyBytes :: int where "replicationLagUnhealthyBytes = 2 ^ 30"

text \<open>The issue a replica raises, if any.\<close>

definition replica_issue ::
  "'w Client \<Rightarrow> 'w \<Rightarrow> string \<Rightarrow> int \<Rightarrow> ShardEndpoint \<Rightarrow> string option" where
  "replica_issue c w shardName primaryWAL rep =
     (if \<not> ep_Ready rep then
        Some (shardName @ ''/'' @ ep_Pod rep @ '': '' @ or_default (ep_Reason rep) ''not-ready'')
      else if primaryWAL < 0 then None
      else
        let repWAL = reportedWALPosition c (ep_Pod rep) w in
        if repWAL \<ge> 0 \<and> primaryWAL - repWAL \<ge> replicationLagUnhealthyBytes
        then Some (shardName @ ''/'' @ ep_Pod rep @ '': '' @ Itoa (primaryWAL - repWAL) @ '' bytes behind primary'')
        else None)"

text \<open>The replicas the health check looks at: those of a shard with a ready primary, other than it.\<close>

definition watched_replicas :: "ShardStatus \<Rightarrow> (ShardEndpoint \<times> ShardEndpoint) list" where
  "watched_replicas shard =
     (case ss_Primary shard of
        None \<Rightarrow> []
      | Some p \<Rightarrow>
          if \<not> ep_Ready p then []
          else map (Pair p) (filter (\<lambda>rep. ep_Pod rep \<noteq> [] \<and> ep_Pod rep \<noteq> ep_Pod p) (ss_Replicas shard)))"

definition shard_issues :: "'w Client \<Rightarrow> 'w \<Rightarrow> ShardStatus \<Rightarrow> string list" where
  "shard_issues c w shard =
     List.map_filter (\<lambda>(p, rep). replica_issue c w (ss_Name shard) (reportedWALPosition c (ep_Pod p) w) rep)
       (watched_replicas shard)"

text \<open>The result carries whether the warning event \<open>ReplicationDegraded\<close> is emitted.\<close>

definition reconcileReplicationHealth ::
  "CondLib \<Rightarrow> 'w Client \<Rightarrow> ShardStatus list \<Rightarrow> 'w \<Rightarrow> PostgresCluster \<Rightarrow> PostgresCluster \<times> bool" where
  "reconcileReplicationHealth L c shards w cluster =
     (let gen = pc_Generation cluster;
          sawReplica = list_ex (\<lambda>s. watched_replicas s \<noteq> []) shards;
          issues = concat (map (shard_issues c w) shards);
          setc = (\<lambda>st r m. cluster\<lparr>pc_Conditions := setCondition L ConditionReplicationHealthy st r m gen (pc_Conditions cluster)\<rparr>);
          prev = cond_at ConditionReplicationHealthy (pc_Conditions cluster)
      in if \<not> sawReplica then (setc ConditionTrue ''NoReplicas'' ''no replicas configured'', False)
         else if issues = [] then
           (setc ConditionTrue ''ReplicasHealthy'' ''all replicas connected and following the primary'', False)
         else (setc ConditionFalse ''ReplicaDisconnected'' (''replication degraded: '' @ str_Join ''; '' issues),
               case prev of None \<Rightarrow> True | Some x \<Rightarrow> cond_Status x \<noteq> ConditionFalse))"

section \<open>Properties\<close>

definition cond_status :: "string \<Rightarrow> PostgresCluster \<Rightarrow> ConditionStatus option" where
  "cond_status ty cluster = map_option cond_Status (cond_at ty (pc_Conditions cluster))"

definition cluster_condition_types :: "string set" where
  "cluster_condition_types = {ConditionReady, ConditionProgressing, ConditionShardsReady, ConditionRouterReady,
     ConditionFailoverReady, ConditionPrimaryRoleSynced, ConditionHibernation}"

context condition_lib
begin

lemmas block_defs = hibernated_conditions_def role_condition_def shards_condition_def router_condition_def
  failover_condition_def Let_def

lemma apply_Ready:
  "cond_status ConditionReady (applyClusterConditions L n allReady ra rst hib sa was d syn cl) =
     Some (if pc_Phase (applyClusterConditions L n allReady ra rst hib sa was d syn cl) = Some ClusterPhaseReady
           then ConditionTrue else ConditionFalse)"
  by (simp add: applyClusterConditions_def cond_status_def setCondition_at block_defs condition_types mk_cond_def)

lemma apply_Progressing:
  "cond_status ConditionProgressing (applyClusterConditions L n allReady ra rst hib sa was d syn cl) =
     Some (if pc_Phase (applyClusterConditions L n allReady ra rst hib sa was d syn cl) = Some ClusterPhaseProvisioning
           then ConditionTrue else ConditionFalse)"
  by (simp add: applyClusterConditions_def cond_status_def setCondition_at block_defs condition_types mk_cond_def)

lemma apply_FailoverReady:
  "cond_status ConditionFailoverReady (applyClusterConditions L n allReady ra rst hib sa was d syn cl) =
     Some (if hib \<or> was \<and> d_Failed d then ConditionFalse else ConditionTrue)"
  by (simp add: applyClusterConditions_def cond_status_def setCondition_at block_defs condition_types mk_cond_def)

lemma apply_other:
  "ty \<notin> cluster_condition_types \<Longrightarrow>
   cond_at ty (pc_Conditions (applyClusterConditions L n allReady ra rst hib sa was d syn cl)) = cond_at ty (pc_Conditions cl)"
  by (simp add: applyClusterConditions_def setCondition_at block_defs cluster_condition_types_def)

end

lemma apply_router_ready:
  "router_ready (applyClusterConditions L n allReady ra rst hib sa was d syn cl) ra' rst' = router_ready cl ra' rst'"
proof -
  have "pc_Router (applyClusterConditions L n allReady ra rst hib sa was d syn cl) = pc_Router cl"
    by (simp add: applyClusterConditions_def Let_def)
  then have "router_replicas (applyClusterConditions L n allReady ra rst hib sa was d syn cl) = router_replicas cl"
    by (simp add: router_replicas_def)
  then show ?thesis by (cases rst') (simp_all add: router_ready_def)
qed

lemma apply_phase:
  "pc_Phase (applyClusterConditions L n allReady ra rst hib sa was d syn cl) =
     Some (if hib then ClusterPhaseHibernated
           else if was \<and> d_Failed d then ClusterPhaseDegraded
           else if allReady \<and> 0 < n \<and> router_ready cl ra rst then ClusterPhaseReady
           else ClusterPhaseProvisioning)"
  by (simp add: applyClusterConditions_def Let_def)

text \<open>C31: The published conditions agree with the phase. After \<open>applyClusterConditions\<close> the condition
  \<open>Ready\<close> is true exactly when the phase is \<open>Ready\<close>, which holds exactly when the cluster is neither
  hibernating nor just degraded by a failover and all shard primaries and the router are ready;
  \<open>Progressing\<close> is true exactly in phase \<open>Provisioning\<close>; conditions of other types keep their value.\<close>

theorem applyClusterConditions_consistent:
  assumes "condition_lib L"
    and "cl' = applyClusterConditions L n allReady ra rst hib sa was d syn cl"
  shows "(cond_status ConditionReady cl' = Some ConditionTrue \<longleftrightarrow> pc_Phase cl' = Some ClusterPhaseReady) \<and>
    (pc_Phase cl' = Some ClusterPhaseReady \<longleftrightarrow>
       \<not> hib \<and> \<not> (was \<and> d_Failed d) \<and> allReady \<and> 0 < n \<and> router_ready cl ra rst) \<and>
    (cond_status ConditionProgressing cl' = Some ConditionTrue \<longleftrightarrow> pc_Phase cl' = Some ClusterPhaseProvisioning) \<and>
    (\<forall>ty. ty \<notin> cluster_condition_types \<longrightarrow>
       cond_at ty (pc_Conditions cl') = cond_at ty (pc_Conditions cl))"
  using condition_lib.apply_Ready [OF assms(1)] condition_lib.apply_Progressing [OF assms(1)]
    condition_lib.apply_other [OF assms(1)]
  unfolding assms(2) apply_phase by auto

abbreviation demo_ready_cluster :: PostgresCluster where
  "demo_ready_cluster \<equiv> applyClusterConditions list_conditions 1 True False None False False True no_failure True demo_cluster"

theorem applyClusterConditions_consistent_witness:
  "pc_Phase demo_ready_cluster = Some ClusterPhaseReady \<and>
   cond_status ConditionReady demo_ready_cluster = Some ConditionTrue"
  using applyClusterConditions_consistent [OF conds.condition_lib_axioms refl,
      of 1 True False None False False True no_failure True demo_cluster]
  by (simp add: router_ready_def no_failure_def)

text \<open>C38: A lasting primary failure makes the phase oscillate. The previous phase decides whether a
  failure degrades the cluster, so while the failure lasts and the pods keep the StatefulSets and the
  router ready, consecutive reconciles publish \<open>Degraded\<close> and \<open>Ready\<close> in turn, and in every second
  one the conditions \<open>Ready\<close> and \<open>FailoverReady\<close> are true although the primary is down.\<close>

theorem failed_primary_phase_oscillates:
  assumes "condition_lib L" and "d_Failed d" and "0 < n" and "router_ready cl ra rst"
    and "pc_Phase cl = Some ClusterPhaseReady"
    and "reconcile = (\<lambda>cl. applyClusterConditions L n True ra rst False sa
           (pc_Phase cl = Some ClusterPhaseReady) d syn cl)"
  shows "pc_Phase (reconcile cl) = Some ClusterPhaseDegraded \<and>
         pc_Phase (reconcile (reconcile cl)) = Some ClusterPhaseReady \<and>
         cond_status ConditionReady (reconcile (reconcile cl)) = Some ConditionTrue \<and>
         cond_status ConditionFailoverReady (reconcile (reconcile cl)) = Some ConditionTrue"
proof -
  have one: "pc_Phase (reconcile cl) = Some ClusterPhaseDegraded"
    using assms by (simp add: apply_phase)
  have spec: "router_ready (reconcile cl) ra rst"
    using assms(4) unfolding assms(6) apply_router_ready .
  have two: "pc_Phase (reconcile (reconcile cl)) = Some ClusterPhaseReady"
    using assms(3,6) one spec by (simp add: apply_phase)
  moreover have "cond_status ConditionReady (reconcile (reconcile cl)) = Some ConditionTrue"
    using condition_lib.apply_Ready [OF assms(1)] two unfolding assms(6) by simp
  moreover have "cond_status ConditionFailoverReady (reconcile (reconcile cl)) = Some ConditionTrue"
    using condition_lib.apply_FailoverReady [OF assms(1)] one unfolding assms(6) by simp
  ultimately show ?thesis using one by simp
qed

abbreviation demo_failed :: Decision where
  "demo_failed \<equiv> \<lparr>d_Failed = True, d_Reason = ReasonPrimaryNotReady, d_Message = ''down'', d_PromotionCandidate = None\<rparr>"

theorem failed_primary_phase_oscillates_witness:
  "let reconcile = (\<lambda>cl. applyClusterConditions list_conditions 1 True False None False False
         (pc_Phase cl = Some ClusterPhaseReady) demo_failed True cl)
   in pc_Phase (reconcile demo_cluster) = Some ClusterPhaseDegraded \<and>
      pc_Phase (reconcile (reconcile demo_cluster)) = Some ClusterPhaseReady"
proof -
  have hyps: "d_Failed demo_failed" "0 < (1 :: int)" "router_ready demo_cluster False None"
    "pc_Phase demo_cluster = Some ClusterPhaseReady"
    by (simp_all add: router_ready_def demo_cluster_def)
  show ?thesis
    using failed_primary_phase_oscillates [OF conds.condition_lib_axioms hyps refl] unfolding Let_def by blast
qed

text \<open>A healthy verdict is earned: when the health check finds replicas and publishes a true condition,
  every watched replica is ready and, where both positions are known, less than 1 GiB behind.\<close>

lemma map_filter_Nil: "List.map_filter f xs = [] \<longleftrightarrow> (\<forall>x\<in>set xs. f x = None)"
  by (induction xs) (auto simp: List.map_filter_def)

lemma replica_issue_None:
  "replica_issue c w n pw rep = None \<Longrightarrow>
   ep_Ready rep \<and> (pw \<ge> 0 \<longrightarrow> reportedWALPosition c (ep_Pod rep) w \<ge> 0 \<longrightarrow>
     pw - reportedWALPosition c (ep_Pod rep) w < 2 ^ 30)"
  by (auto simp: replica_issue_def replicationLagUnhealthyBytes_def Let_def split: if_splits)


definition demo_health_shard :: ShardStatus where
  "demo_health_shard =
     \<lparr>ss_Name = ''shard-0'', ss_Ordinal = 0, ss_Primary = Some (demo_replica ''demo-shard-0-1'' True 0),
      ss_Replicas = [demo_replica ''demo-shard-0-2'' True 0], ss_SizeBytes = 0, ss_LastSplit = None\<rparr>"


end
