(* ===== verification/Shard_Split.thy ===== *)
theory Shard_Split
  imports Cluster_Conditions Resharding
begin

text \<open>
  Online resharding: the \<open>ShardSplitJob\<close> controller (\<open>shardsplitjob_controller.go\<close>,
  \<open>shardsplitjob_copy.go\<close>, \<open>shardsplitjob_abort.go\<close>). One reconcile reads the job from the world,
  performs the effects of its phase (bootstrap the target shards, run the data movement jobs, block
  writes, switch the routing, promote) and stores the next phase. The API is a parameter, the record
  \<open>SplitClient\<close>; the locale \<open>split_client\<close> of \<open>Shard_Split_Correct\<close> states its laws.
\<close>

section \<open>The resource\<close>

datatype ShardSplitJobPhase =
    PhaseNone
  | ShardSplitPhasePending
  | ShardSplitPhaseSnapshotWAL
  | ShardSplitPhaseBootstrap
  | ShardSplitPhaseInitialCopy
  | ShardSplitPhaseCDCCatchup
  | ShardSplitPhaseCutover
  | ShardSplitPhaseRoutingUpdate
  | ShardSplitPhaseCleanup
  | ShardSplitPhasePromote
  | ShardSplitPhaseCompleted
  | ShardSplitPhaseFailed
  | ShardSplitPhaseAborted

datatype ShardSplitDirection = ShardSplitDirectionSplit | ShardSplitDirectionMerge

record ShardSplitTarget =
  tg_ShardID :: string
  tg_Ranges :: "ShardRangeEntry list"

record ShardSplitJob =
  sj_Name :: string
  sj_Namespace :: string
  sj_Generation :: int
  sj_Annotations :: labels
  sj_Cluster :: string
  sj_Keyspace :: string
  sj_Direction :: ShardSplitDirection
  sj_Sources :: "string list"
  sj_Targets :: "ShardSplitTarget list"
  sj_CDCMaxLag :: int
  sj_AllowForwardOnly :: bool
  sj_Online :: bool
  sj_Phase :: ShardSplitJobPhase
  sj_ObservedGeneration :: int
  sj_StartedAt :: "time option"
  sj_CompletedAt :: "time option"
  sj_CutoverStartedAt :: "time option"
  sj_FailureReason :: string
  sj_Conditions :: "Condition list"

section \<open>Jobs that move the data\<close>

record ReshardJob =
  rj_Name :: string
  rj_TargetShard :: string
  rj_Env :: "(string \<times> string) list"

record JobStatus =
  js_Succeeded :: int
  js_Conditions :: "(string \<times> string) list"

definition jobFailed :: "JobStatus \<Rightarrow> bool" where
  "jobFailed job = list_ex (\<lambda>(ty, st). ty = ''Failed'' \<and> st = ''True'') (js_Conditions job)"

datatype ReshardMode = ModeCopy | ModeDelete | ModeCDCSetup | ModeCDCFinalize | ModeCDCAbort

fun reshardModeVerb :: "ReshardMode \<Rightarrow> string" where
  "reshardModeVerb ModeCopy = ''copy''"
| "reshardModeVerb ModeDelete = ''del''"
| "reshardModeVerb ModeCDCSetup = ''cdcset''"
| "reshardModeVerb ModeCDCFinalize = ''cdcfin''"
| "reshardModeVerb ModeCDCAbort = ''cdcabort''"

fun mode_string :: "ReshardMode \<Rightarrow> string" where
  "mode_string ModeCopy = ''copy''"
| "mode_string ModeDelete = ''delete''"
| "mode_string ModeCDCSetup = ''cdc-setup''"
| "mode_string ModeCDCFinalize = ''cdc-finalize''"
| "mode_string ModeCDCAbort = ''cdc-abort''"

definition reshardJobName :: "string \<Rightarrow> string \<Rightarrow> ReshardMode \<Rightarrow> string" where
  "reshardJobName cluster shardID mode = cluster @ ''-rsd-'' @ reshardModeVerb mode @ ''-'' @ shardID"

definition internalShardDSN :: "string \<Rightarrow> string" where
  "internalShardDSN podDNS =
     ''host='' @ podDNS @ '' port='' @ Itoa pgPort @ '' user=postgres dbname=postgres sslmode=disable''"

text \<open>\<open>strconv.ParseInt(s, 10, 32)\<close>.\<close>

definition ParseInt32 :: "string \<Rightarrow> int option" where
  "ParseInt32 s =
     (let neg = HasPrefix s ''-''; ds = (if neg \<or> HasPrefix s ''+'' then drop 1 s else s)
      in case ParseUint ds 10 64 of
           None \<Rightarrow> None
         | Some n \<Rightarrow>
             if neg then (if n \<le> 2 ^ 31 then Some (- int n) else None)
             else (if n < 2 ^ 31 then Some (int n) else None))"

definition sourceShardPodDNS :: "string \<Rightarrow> string \<Rightarrow> string \<Rightarrow> string option" where
  "sourceShardPodDNS cluster ns shardID =
     (if \<not> HasPrefix shardID ''shard-'' then None
      else case ParseInt32 (TrimPrefix shardID ''shard-'') of
        None \<Rightarrow> None
      | Some ord \<Rightarrow> Some (ShardStatefulSetName cluster ord @ ''-0'' @ ''.'' @ ShardServiceName cluster ord @ ''.'' @ ns @
                         ''.svc.cluster.local''))"

definition targetShardPodDNS :: "string \<Rightarrow> string \<Rightarrow> string \<Rightarrow> string" where
  "targetShardPodDNS cluster ns shardID =
     TargetShardStatefulSetName cluster shardID @ ''-0'' @ ''.'' @ TargetShardServiceName cluster shardID @ ''.'' @ ns @
     ''.svc.cluster.local''"

definition rangesEnvValue :: "ShardSplitTarget list \<Rightarrow> string" where
  "rangesEnvValue targets =
     str_Join '','' (concat (map (\<lambda>t. map (\<lambda>r. entry_Shard r @ '':'' @ entry_Lo r @ '':'' @ entry_Hi r) (tg_Ranges t)) targets))"

fun vindex_type_string :: "VindexType \<Rightarrow> string" where
  "vindex_type_string VindexTypeHash = ''hash''"
| "vindex_type_string VindexTypeRange = ''range''"
| "vindex_type_string VindexTypeConsistentHash = ''consistent-hash''"
| "vindex_type_string VindexTypeLookup = ''lookup''"
| "vindex_type_string (VindexTypeUnknown s) = s"

fun vindex_function_string :: "VindexHashFunction \<Rightarrow> string" where
  "vindex_function_string VindexHashMurmur3 = ''murmur3''"
| "vindex_function_string VindexHashFNV = ''fnv''"
| "vindex_function_string VindexHashCRC32 = ''crc32''"
| "vindex_function_string (VindexHashUnknown s) = s"

record reshardParams =
  rp_sourceDSN :: string
  rp_targetDSN :: string
  rp_targetShard :: string
  rp_vindex :: VindexSpec
  rp_ranges :: string
  rp_refTables :: "string list"
  rp_maxLag :: int
  rp_mode :: ReshardMode

text \<open>\<open>copyTimeout\<close> is the operator's environment variable \<open>RESHARD_COPY_TIMEOUT\<close>.\<close>

definition buildReshardJob :: "string \<Rightarrow> ShardSplitJob \<Rightarrow> reshardParams \<Rightarrow> ReshardJob" where
  "buildReshardJob copyTimeout ssj p =
     \<lparr>rj_Name = reshardJobName (sj_Cluster ssj) (rp_targetShard p) (rp_mode p),
      rj_TargetShard = rp_targetShard p,
      rj_Env =
        [(''PGROUTER_SOURCE_DSN'', rp_sourceDSN p),
         (''PGROUTER_RESHARD_TARGET_SHARD'', rp_targetShard p),
         (''PGROUTER_VINDEX_TYPE'', vindex_type_string (vindex_Type (rp_vindex p))),
         (''PGROUTER_VINDEX_COLUMN'', vindex_Column (rp_vindex p)),
         (''PGROUTER_VINDEX_FUNCTION'', vindex_function_string (vindex_Function (rp_vindex p))),
         (''PGROUTER_RANGES'', rp_ranges p),
         (''PGROUTER_REFERENCE_TABLES'', str_Join '','' (rp_refTables p))] @
        (if copyTimeout \<noteq> [] then [(''RESHARD_COPY_TIMEOUT'', copyTimeout)] else []) @
        (case rp_mode p of
           ModeDelete \<Rightarrow> [(''PGROUTER_RESHARD_DELETE_ONLY'', ''1'')]
         | ModeCDCAbort \<Rightarrow>
             [(''PGROUTER_TARGET_DSN'', rp_targetDSN p), (''PGROUTER_RESHARD_MODE'', mode_string (rp_mode p))]
         | ModeCopy \<Rightarrow> [(''PGROUTER_TARGET_DSN'', rp_targetDSN p)]
         | _ \<Rightarrow>
             [(''PGROUTER_TARGET_DSN'', rp_targetDSN p), (''PGROUTER_RESHARD_MODE'', mode_string (rp_mode p)),
              (''PGROUTER_CDC_MAX_LAG'', Itoa (rp_maxLag p))])\<rparr>"

section \<open>The API\<close>

text \<open>The calls of the controller in the job's namespace. \<open>sc_CreateJob\<close> is the owner reference and the
  creation, \<open>sc_SourceImage\<close> the image of the postgres container of a StatefulSet (empty when it has
  none), \<open>sc_Upsert\<close> the creation of one of the three target objects.\<close>

datatype TargetObject = TargetConfigMap | TargetService | TargetStatefulSet

record 'w SplitClient =
  sc_GetSSJ :: "'w \<Rightarrow> (ApiError, ShardSplitJob) result"
  sc_UpdateStatus :: "ShardSplitJob \<Rightarrow> 'w \<Rightarrow> ApiError option \<times> 'w"
  sc_ListShardRanges :: "'w \<Rightarrow> (ApiError, (string \<times> ShardRangeSpec) list) result"
  sc_UpdateShardRange :: "string \<Rightarrow> ShardRangeSpec \<Rightarrow> 'w \<Rightarrow> ApiError option \<times> 'w"
  sc_GetJob :: "'w \<Rightarrow> string \<Rightarrow> (ApiError, JobStatus) result"
  sc_CreateJob :: "ReshardJob \<Rightarrow> 'w \<Rightarrow> ApiError option \<times> 'w"
  sc_GetCluster :: "'w \<Rightarrow> string \<Rightarrow> (ApiError, PostgresCluster) result"
  sc_SourceImage :: "'w \<Rightarrow> string \<Rightarrow> (ApiError, string) result"
  sc_Upsert :: "TargetObject \<Rightarrow> string \<Rightarrow> string \<Rightarrow> 'w \<Rightarrow> ApiError option \<times> 'w"
  sc_GetSTS :: "'w \<Rightarrow> string \<Rightarrow> (ApiError, labels \<times> labels) result"
  sc_PatchSTS :: "string \<Rightarrow> labels \<times> labels \<Rightarrow> 'w \<Rightarrow> ApiError option \<times> 'w"
  sc_ListTargetPods :: "'w \<Rightarrow> string \<Rightarrow> string \<Rightarrow> (ApiError, Pod list) result"
  sc_PatchPod :: "Pod \<Rightarrow> Pod \<Rightarrow> 'w \<Rightarrow> ApiError option \<times> 'w"

text \<open>Errors of the controller; \<open>error_text\<close> is what goes into \<open>failureReason\<close>.\<close>

datatype SplitError =
    SplitApi string ApiError
  | NoShardRange string string
  | NoSourceImage string

fun error_text :: "SplitError \<Rightarrow> string" where
  "error_text (SplitApi what e) = what"
| "error_text (NoShardRange cluster keyspace) = ''no ShardRange for cluster='' @ cluster @ '' keyspace='' @ keyspace"
| "error_text (NoSourceImage sts) = ''source shard StatefulSet '' @ sts @ '' image missing''"

section \<open>Routing\<close>

definition flattenTargetRanges :: "ShardSplitTarget list \<Rightarrow> ShardRangeEntry list" where
  "flattenTargetRanges targets = concat (map tg_Ranges targets)"

definition mergeSplitRanges ::
  "ShardRangeEntry list \<Rightarrow> string list \<Rightarrow> ShardSplitTarget list \<Rightarrow> ShardRangeEntry list" where
  "mergeSplitRanges existing sources targets =
     filter (\<lambda>e. entry_Shard e \<notin> set sources) existing @ flattenTargetRanges targets"

definition keyspace_range :: "ShardSplitJob \<Rightarrow> (string \<times> ShardRangeSpec) list \<Rightarrow> (string \<times> ShardRangeSpec) option" where
  "keyspace_range ssj items =
     find (\<lambda>(n, sr). sr_Cluster sr = sj_Cluster ssj \<and> sr_Keyspace sr = sj_Keyspace ssj) items"

definition applyRouting :: "'w SplitClient \<Rightarrow> ShardSplitJob \<Rightarrow> 'w \<Rightarrow> SplitError option \<times> 'w" where
  "applyRouting c ssj w =
     (case sc_ListShardRanges c w of
        Inl e \<Rightarrow> (Some (SplitApi ''list ShardRange'' e), w)
      | Inr items \<Rightarrow>
          (case keyspace_range ssj items of
             None \<Rightarrow> (Some (NoShardRange (sj_Cluster ssj) (sj_Keyspace ssj)), w)
           | Some (n, sr) \<Rightarrow>
               (case sc_UpdateShardRange c n
                       (sr\<lparr>sr_Ranges := mergeSplitRanges (sr_Ranges sr) (sj_Sources ssj) (sj_Targets ssj),
                           sr_WriteBlocked := False\<rparr>) w of
                  (r, w') \<Rightarrow> (map_option (SplitApi ''update ShardRange'') r, w'))))"

definition setWriteBlock :: "'w SplitClient \<Rightarrow> ShardSplitJob \<Rightarrow> bool \<Rightarrow> 'w \<Rightarrow> SplitError option \<times> 'w" where
  "setWriteBlock c ssj blocked w =
     (case sc_ListShardRanges c w of
        Inl e \<Rightarrow> (Some (SplitApi ''list ShardRange'' e), w)
      | Inr items \<Rightarrow>
          (case keyspace_range ssj items of
             None \<Rightarrow> (Some (NoShardRange (sj_Cluster ssj) (sj_Keyspace ssj)), w)
           | Some (n, sr) \<Rightarrow>
               if sr_WriteBlocked sr = blocked then (None, w)
               else (case sc_UpdateShardRange c n (sr\<lparr>sr_WriteBlocked := blocked\<rparr>) w of
                       (r, w') \<Rightarrow> (map_option (SplitApi ''update ShardRange write-block'') r, w'))))"

section \<open>Running the data movement\<close>

text \<open>The answer \<open>(done, failure, err)\<close> of the job reconcilers.\<close>

datatype JobsResult = JobsDone | JobsWaiting | JobsFailed string | JobsError SplitError

definition keyspaceVindex :: "'w SplitClient \<Rightarrow> ShardSplitJob \<Rightarrow> 'w \<Rightarrow> (SplitError, VindexSpec \<times> string list) result" where
  "keyspaceVindex c ssj w =
     (case sc_ListShardRanges c w of
        Inl e \<Rightarrow> Inl (SplitApi ''list ShardRange'' e)
      | Inr items \<Rightarrow>
          (case keyspace_range ssj items of
             None \<Rightarrow> Inl (NoShardRange (sj_Cluster ssj) (sj_Keyspace ssj))
           | Some (n, sr) \<Rightarrow> Inr (sr_Vindex sr, sr_ReferenceTables sr)))"

fun mode_jobs_loop ::
  "'w SplitClient \<Rightarrow> string \<Rightarrow> ShardSplitJob \<Rightarrow> ReshardMode \<Rightarrow> string \<Rightarrow> VindexSpec \<times> string list \<Rightarrow>
   ShardSplitTarget list \<Rightarrow> bool \<Rightarrow> 'w \<Rightarrow> JobsResult \<times> 'w" where
  "mode_jobs_loop c copyTimeout ssj mode srcDNS v [] allDone w = (if allDone then JobsDone else JobsWaiting, w)"
| "mode_jobs_loop c copyTimeout ssj mode srcDNS v (t # ts) allDone w =
     (let name = reshardJobName (sj_Cluster ssj) (tg_ShardID t) mode in
      case sc_GetJob c w name of
        Inl NotFound \<Rightarrow>
          (let targetDSN = (if mode = ModeDelete then []
                 else internalShardDSN (targetShardPodDNS (sj_Cluster ssj) (sj_Namespace ssj) (tg_ShardID t)));
               j = buildReshardJob copyTimeout ssj
                     \<lparr>rp_sourceDSN = internalShardDSN srcDNS, rp_targetDSN = targetDSN,
                      rp_targetShard = tg_ShardID t, rp_vindex = fst v, rp_ranges = rangesEnvValue (sj_Targets ssj),
                      rp_refTables = snd v, rp_maxLag = sj_CDCMaxLag ssj, rp_mode = mode\<rparr>
           in case sc_CreateJob c j w of
                (Some e, w') \<Rightarrow> (JobsError (SplitApi ''create job'' e), w')
              | (None, w') \<Rightarrow> mode_jobs_loop c copyTimeout ssj mode srcDNS v ts False w')
      | Inl e \<Rightarrow> (JobsError (SplitApi ''get job'' e), w)
      | Inr job \<Rightarrow>
          if 0 < js_Succeeded job then mode_jobs_loop c copyTimeout ssj mode srcDNS v ts allDone w
          else if jobFailed job then (JobsFailed (mode_string mode @ '': job '' @ name @ '' failed''), w)
          else mode_jobs_loop c copyTimeout ssj mode srcDNS v ts False w)"

definition reconcileModeJobs ::
  "'w SplitClient \<Rightarrow> string \<Rightarrow> ShardSplitJob \<Rightarrow> ReshardMode \<Rightarrow> 'w \<Rightarrow> JobsResult \<times> 'w" where
  "reconcileModeJobs c copyTimeout ssj mode w =
     (case sj_Sources ssj of
        [] \<Rightarrow> (JobsFailed (mode_string mode @ '': no source shard''), w)
      | source # _ \<Rightarrow>
          (case keyspaceVindex c ssj w of
             Inl e \<Rightarrow> (JobsError e, w)
           | Inr v \<Rightarrow>
               (case sourceShardPodDNS (sj_Cluster ssj) (sj_Namespace ssj) source of
                  None \<Rightarrow> (JobsFailed (mode_string mode @ '': source shard '' @ fmt_q source @ '' is not ordinal (want shard-N)''), w)
                | Some srcDNS \<Rightarrow> mode_jobs_loop c copyTimeout ssj mode srcDNS v (sj_Targets ssj) True w)))"

definition reconcileInitialCopy :: "'w SplitClient \<Rightarrow> string \<Rightarrow> ShardSplitJob \<Rightarrow> 'w \<Rightarrow> JobsResult \<times> 'w" where
  "reconcileInitialCopy c copyTimeout ssj w =
     (if sj_Online ssj then (JobsDone, w) else reconcileModeJobs c copyTimeout ssj ModeCopy w)"

definition reconcileCleanup :: "'w SplitClient \<Rightarrow> string \<Rightarrow> ShardSplitJob \<Rightarrow> 'w \<Rightarrow> JobsResult \<times> 'w" where
  "reconcileCleanup c copyTimeout ssj w = reconcileModeJobs c copyTimeout ssj ModeDelete w"

definition reconcileCDC :: "'w SplitClient \<Rightarrow> string \<Rightarrow> ShardSplitJob \<Rightarrow> 'w \<Rightarrow> JobsResult \<times> 'w" where
  "reconcileCDC c copyTimeout ssj w =
     (case reconcileModeJobs c copyTimeout ssj ModeCDCSetup w of
        (JobsDone, w1) \<Rightarrow>
          (case setWriteBlock c ssj True w1 of
             (Some e, w2) \<Rightarrow> (JobsError e, w2)
           | (None, w2) \<Rightarrow> reconcileModeJobs c copyTimeout ssj ModeCDCFinalize w2)
      | (r, w1) \<Rightarrow> (r, w1))"

section \<open>Bootstrap and promotion of the targets\<close>

fun bootstrap_loop :: "'w SplitClient \<Rightarrow> string \<Rightarrow> ShardSplitTarget list \<Rightarrow> 'w \<Rightarrow> SplitError option \<times> 'w" where
  "bootstrap_loop c img [] w = (None, w)"
| "bootstrap_loop c img (t # ts) w =
     (case sc_Upsert c TargetConfigMap (tg_ShardID t) img w of
        (Some e, w1) \<Rightarrow> (Some (SplitApi ''upsert target ConfigMap'' e), w1)
      | (None, w1) \<Rightarrow>
          (case sc_Upsert c TargetService (tg_ShardID t) img w1 of
             (Some e, w2) \<Rightarrow> (Some (SplitApi ''upsert target Service'' e), w2)
           | (None, w2) \<Rightarrow>
               (case sc_Upsert c TargetStatefulSet (tg_ShardID t) img w2 of
                  (Some e, w3) \<Rightarrow> (Some (SplitApi ''upsert target StatefulSet'' e), w3)
                | (None, w3) \<Rightarrow> bootstrap_loop c img ts w3)))"

definition reconcileBootstrapTargets :: "'w SplitClient \<Rightarrow> ShardSplitJob \<Rightarrow> 'w \<Rightarrow> SplitError option \<times> 'w" where
  "reconcileBootstrapTargets c ssj w =
     (case sc_GetCluster c w (sj_Cluster ssj) of
        Inl e \<Rightarrow> (Some (SplitApi ''get cluster'' e), w)
      | Inr cluster \<Rightarrow>
          (let sts = ShardStatefulSetName (pc_Name cluster) 0 in
           case sc_SourceImage c w sts of
             Inl e \<Rightarrow> (Some (SplitApi ''get source shard StatefulSet for image'' e), w)
           | Inr img \<Rightarrow>
               if img = [] then (Some (NoSourceImage sts), w)
               else bootstrap_loop c img (sj_Targets ssj) w))"

definition podReadyForPromote :: "Pod \<Rightarrow> bool" where
  "podReadyForPromote pod =
     (if pod_DeletionTimestamp pod \<noteq> None \<or> pod_Phase pod \<noteq> ''Running'' then False
      else case condition_status (pod_Conditions pod) ''Ready'' of
        Some st \<Rightarrow> st = ''True''
      | None \<Rightarrow> False)"

definition targetShardReadyForPromote ::
  "'w SplitClient \<Rightarrow> string \<Rightarrow> string \<Rightarrow> 'w \<Rightarrow> (SplitError, bool) result" where
  "targetShardReadyForPromote c cluster shardID w =
     (case sc_ListTargetPods c w cluster shardID of
        Inl e \<Rightarrow> Inl (SplitApi ''list target pods for promote precondition'' e)
      | Inr pods \<Rightarrow> Inr (list_ex podReadyForPromote pods))"

fun targets_ready :: "'w SplitClient \<Rightarrow> string \<Rightarrow> ShardSplitTarget list \<Rightarrow> 'w \<Rightarrow> (SplitError, bool) result" where
  "targets_ready c cluster [] w = Inr True"
| "targets_ready c cluster (t # ts) w =
     (case targetShardReadyForPromote c cluster (tg_ShardID t) w of
        Inl e \<Rightarrow> Inl e
      | Inr ready \<Rightarrow> if \<not> ready then Inr False else targets_ready c cluster ts w)"

definition bootstrapTargetsReady :: "'w SplitClient \<Rightarrow> ShardSplitJob \<Rightarrow> 'w \<Rightarrow> (SplitError, bool) result" where
  "bootstrapTargetsReady c ssj w = targets_ready c (sj_Cluster ssj) (sj_Targets ssj) w"

definition activeShardRangeIDs :: "'w SplitClient \<Rightarrow> ShardSplitJob \<Rightarrow> 'w \<Rightarrow> (SplitError, string set) result" where
  "activeShardRangeIDs c ssj w =
     (case sc_ListShardRanges c w of
        Inl e \<Rightarrow> Inl (SplitApi ''list ShardRange for promote precondition'' e)
      | Inr items \<Rightarrow>
          (let matched = filter (\<lambda>(n, sr). sr_Cluster sr = sj_Cluster ssj \<and> sr_Keyspace sr = sj_Keyspace ssj) items
           in if matched = [] then Inl (NoShardRange (sj_Cluster ssj) (sj_Keyspace ssj))
              else Inr (set (filter (\<lambda>id. id \<noteq> []) (concat (map (\<lambda>(n, sr). map entry_Shard (sr_Ranges sr)) matched))))))"

definition sourceObservationExcluded :: "'w SplitClient \<Rightarrow> ShardSplitJob \<Rightarrow> 'w \<Rightarrow> (SplitError, bool) result" where
  "sourceObservationExcluded c ssj w =
     (case sc_GetCluster c w (sj_Cluster ssj) of
        Inl NotFound \<Rightarrow> Inr True
      | Inl e \<Rightarrow> Inl (SplitApi ''get cluster for promote fence'' e)
      | Inr cluster \<Rightarrow>
          Inr (\<not> list_ex (\<lambda>source. list_ex (\<lambda>s. ss_Name s = source \<and>
                 (case ss_Primary s of None \<Rightarrow> False | Some p \<Rightarrow> ep_Ready p)) (pc_Shards cluster)) (sj_Sources ssj)))"

fun promote_targets ::
  "'w SplitClient \<Rightarrow> string \<Rightarrow> string set \<Rightarrow> ShardSplitTarget list \<Rightarrow> 'w \<Rightarrow> (SplitError, bool) result" where
  "promote_targets c cluster active [] w = Inr True"
| "promote_targets c cluster active (t # ts) w =
     (if tg_ShardID t \<notin> active then Inr False
      else case targetShardReadyForPromote c cluster (tg_ShardID t) w of
        Inl e \<Rightarrow> Inl e
      | Inr ready \<Rightarrow> if \<not> ready then Inr False else promote_targets c cluster active ts w)"

definition promotePreconditionsMet :: "'w SplitClient \<Rightarrow> ShardSplitJob \<Rightarrow> 'w \<Rightarrow> (SplitError, bool) result" where
  "promotePreconditionsMet c ssj w =
     (case activeShardRangeIDs c ssj w of
        Inl e \<Rightarrow> Inl e
      | Inr active \<Rightarrow>
          if list_ex (\<lambda>source. source \<in> active) (sj_Sources ssj) then Inr False
          else case sourceObservationExcluded c ssj w of
            Inl e \<Rightarrow> Inl e
          | Inr fenced \<Rightarrow>
              if \<not> fenced then Inr False
              else promote_targets c (sj_Cluster ssj) active (sj_Targets ssj) w)"

definition ensureLabel :: "string \<Rightarrow> string \<Rightarrow> labels \<Rightarrow> labels" where
  "ensureLabel key value m = m(key \<mapsto> value)"

fun adopt_pods :: "'w SplitClient \<Rightarrow> string \<Rightarrow> Pod list \<Rightarrow> 'w \<Rightarrow> SplitError option \<times> 'w" where
  "adopt_pods c shardID [] w = (None, w)"
| "adopt_pods c shardID (pod # rest) w =
     (if label_of (pod_Labels pod) ShardIDLabelKey = shardID then adopt_pods c shardID rest w
      else case sc_PatchPod c pod (pod\<lparr>pod_Labels := ensureLabel ShardIDLabelKey shardID (pod_Labels pod)\<rparr>) w of
        (Some e, w') \<Rightarrow> (Some (SplitApi ''patch target pod'' e), w')
      | (None, w') \<Rightarrow> adopt_pods c shardID rest w')"

definition adoptTargetShardIdentity :: "'w SplitClient \<Rightarrow> string \<Rightarrow> string \<Rightarrow> 'w \<Rightarrow> SplitError option \<times> 'w" where
  "adoptTargetShardIdentity c cluster shardID w =
     (let name = TargetShardStatefulSetName cluster shardID in
      case sc_GetSTS c w name of
        Inl e \<Rightarrow> (Some (SplitApi ''get target StatefulSet'' e), w)
      | Inr (ls, template) \<Rightarrow>
          (case sc_PatchSTS c name (ensureLabel ShardIDLabelKey shardID ls, ensureLabel ShardIDLabelKey shardID template) w of
             (Some e, w1) \<Rightarrow> (Some (SplitApi ''patch target StatefulSet'' e), w1)
           | (None, w1) \<Rightarrow>
               (case sc_ListTargetPods c w1 cluster shardID of
                  Inl e \<Rightarrow> (Some (SplitApi ''list target pods'' e), w1)
                | Inr pods \<Rightarrow> adopt_pods c shardID pods w1)))"

fun promote_loop :: "'w SplitClient \<Rightarrow> string \<Rightarrow> ShardSplitTarget list \<Rightarrow> 'w \<Rightarrow> SplitError option \<times> 'w" where
  "promote_loop c cluster [] w = (None, w)"
| "promote_loop c cluster (t # ts) w =
     (case adoptTargetShardIdentity c cluster (tg_ShardID t) w of
        (Some e, w') \<Rightarrow> (Some e, w')
      | (None, w') \<Rightarrow> promote_loop c cluster ts w')"

definition reconcilePromote :: "'w SplitClient \<Rightarrow> ShardSplitJob \<Rightarrow> 'w \<Rightarrow> SplitError option \<times> 'w" where
  "reconcilePromote c ssj w = promote_loop c (sj_Cluster ssj) (sj_Targets ssj) w"

section \<open>Phases\<close>

definition AnnotationAutoSplit :: string where "AnnotationAutoSplit = ''postgres.keiailab.io/autosplit''"
definition AnnotationAutoSplitApproval :: string where
  "AnnotationAutoSplitApproval = ''postgres.keiailab.io/autosplit-approval''"
definition AnnotationAutoSplitApproved :: string where
  "AnnotationAutoSplitApproved = ''postgres.keiailab.io/autosplit-approved''"

definition autoSplitHoldForApproval :: "ShardSplitJob \<Rightarrow> bool" where
  "autoSplitHoldForApproval ssj =
     (if label_of (sj_Annotations ssj) AnnotationAutoSplit \<noteq> ''true'' then False
      else if label_of (sj_Annotations ssj) AnnotationAutoSplitApproval \<noteq> ''required'' then False
      else label_of (sj_Annotations ssj) AnnotationAutoSplitApproved \<noteq> ''true'')"

definition unsupportedSplitSpecReason :: "ShardSplitJob \<Rightarrow> string" where
  "unsupportedSplitSpecReason ssj =
     (if sj_Direction ssj = ShardSplitDirectionMerge then ''merge direction is not implemented''
      else if length (sj_Sources ssj) \<noteq> 1 then ''split requires exactly one source''
      else [])"

text \<open>The text of a plan error, without the ranges that the wrapping error adds; these are the errors
  of \<open>ValidateSplitPlan\<close>.\<close>

fun plan_error_text :: "router_error \<Rightarrow> string" where
  "plan_error_text ErrSplitPlanGap = ''router: split plan has a gap between ranges''"
| "plan_error_text ErrSplitPlanOverlap = ''router: split plan has overlapping ranges''"
| "plan_error_text ErrSplitPlanCoverage = ''router: source and target key coverage differ''"
| "plan_error_text ErrEmptyRangeList = ''router: empty range list''"
| "plan_error_text (ErrRangeLoAboveHi lo hi) = ''lo > hi ('' @ lo @ '' > '' @ hi @ '')''"
| "plan_error_text _ = []"

definition nextPhase :: "ShardSplitJob \<Rightarrow> ShardSplitJobPhase \<times> string" where
  "nextPhase ssj =
     (let start =
        (if sj_Direction ssj = ShardSplitDirectionMerge
         then (ShardSplitPhaseFailed, ''merge direction is not implemented'')
         else if length (sj_Sources ssj) \<noteq> 1 then (ShardSplitPhaseFailed, ''split requires exactly one source'')
         else
           let targets = flattenTargetRanges (sj_Targets ssj) in
           case ValidateSplitPlan targets targets of
             Inl e \<Rightarrow> (ShardSplitPhaseFailed, plan_error_text e)
           | Inr _ \<Rightarrow> (ShardSplitPhaseSnapshotWAL, []))
      in case sj_Phase ssj of
           PhaseNone \<Rightarrow> start
         | ShardSplitPhasePending \<Rightarrow> start
         | ShardSplitPhaseSnapshotWAL \<Rightarrow> (ShardSplitPhaseBootstrap, [])
         | ShardSplitPhaseBootstrap \<Rightarrow> (ShardSplitPhaseInitialCopy, [])
         | ShardSplitPhaseInitialCopy \<Rightarrow> (ShardSplitPhaseCDCCatchup, [])
         | ShardSplitPhaseCDCCatchup \<Rightarrow> (ShardSplitPhaseCutover, [])
         | ShardSplitPhaseCutover \<Rightarrow>
             if sj_AllowForwardOnly ssj
             then (ShardSplitPhaseFailed, ''allowForwardOnly=true is not implemented'')
             else (ShardSplitPhaseRoutingUpdate, [])
         | ShardSplitPhaseRoutingUpdate \<Rightarrow> (ShardSplitPhaseCleanup, [])
         | ShardSplitPhaseCleanup \<Rightarrow> (ShardSplitPhasePromote, [])
         | ShardSplitPhasePromote \<Rightarrow> (ShardSplitPhaseCompleted, [])
         | p \<Rightarrow> (p, []))"

section \<open>Cleanup after a failed online split\<close>

datatype Requeue = NoRequeue | RequeueNow | RequeueAfter time

type_synonym 'w reconciled = "(SplitError, Requeue) result \<times> 'w"

definition abortCleanupCompleted :: "ShardSplitJob \<Rightarrow> bool" where
  "abortCleanupCompleted ssj =
     (case cond_at ''AbortCleanup'' (sj_Conditions ssj) of
        None \<Rightarrow> False
      | Some x \<Rightarrow> cond_Status x = ConditionTrue \<and> cond_Reason x = ''AbortCleanupComplete'')"

definition setAbortCleanupCondition ::
  "CondLib \<Rightarrow> ConditionStatus \<Rightarrow> string \<Rightarrow> string \<Rightarrow> ShardSplitJob \<Rightarrow> ShardSplitJob" where
  "setAbortCleanupCondition L status reason message ssj =
     ssj\<lparr>sj_Conditions :=
           cl_SetStatusCondition L (mk_cond ''AbortCleanup'' status reason message (sj_Generation ssj)) (sj_Conditions ssj)\<rparr>"

fun cdc_started :: "'w SplitClient \<Rightarrow> string list \<Rightarrow> 'w \<Rightarrow> (SplitError, bool) result" where
  "cdc_started c [] w = Inr False"
| "cdc_started c (name # names) w =
     (case sc_GetJob c w name of
        Inr _ \<Rightarrow> Inr True
      | Inl NotFound \<Rightarrow> cdc_started c names w
      | Inl e \<Rightarrow> Inl (SplitApi ''get job'' e))"

definition cdcJobsStarted :: "'w SplitClient \<Rightarrow> ShardSplitJob \<Rightarrow> 'w \<Rightarrow> (SplitError, bool) result" where
  "cdcJobsStarted c ssj w =
     cdc_started c (concat (map (\<lambda>mode. map (\<lambda>t. reshardJobName (sj_Cluster ssj) (tg_ShardID t) mode) (sj_Targets ssj))
                            [ModeCDCSetup, ModeCDCFinalize, ModeCDCAbort])) w"

definition reconcileAbortCleanup :: "'w SplitClient \<Rightarrow> string \<Rightarrow> ShardSplitJob \<Rightarrow> 'w \<Rightarrow> JobsResult \<times> 'w" where
  "reconcileAbortCleanup c copyTimeout ssj w =
     (if \<not> sj_Online ssj then (JobsDone, w)
      else case cdcJobsStarted c ssj w of
        Inl e \<Rightarrow> (JobsError e, w)
      | Inr started \<Rightarrow>
          if \<not> started then (JobsDone, w)
          else (case reconcileModeJobs c copyTimeout ssj ModeCDCAbort w of
                  (JobsDone, w1) \<Rightarrow>
                    (case setWriteBlock c ssj False w1 of
                       (Some e, w2) \<Rightarrow> (JobsFailed (''release write-block: '' @ error_text e), w2)
                     | (None, w2) \<Rightarrow> (JobsDone, w2))
                | (r, w1) \<Rightarrow> (r, w1)))"

text \<open>Storing the status: an error of the update is the error of the reconcile.\<close>

definition store_status :: "'w SplitClient \<Rightarrow> ShardSplitJob \<Rightarrow> Requeue \<Rightarrow> 'w \<Rightarrow> 'w reconciled" where
  "store_status c ssj rq w =
     (case sc_UpdateStatus c ssj w of
        (Some e, w') \<Rightarrow> (Inl (SplitApi ''update status'' e), w')
      | (None, w') \<Rightarrow> (Inr rq, w'))"

definition reconcileTerminalAbortCleanup ::
  "CondLib \<Rightarrow> 'w SplitClient \<Rightarrow> string \<Rightarrow> ShardSplitJob \<Rightarrow> 'w \<Rightarrow> 'w reconciled" where
  "reconcileTerminalAbortCleanup L c copyTimeout ssj w =
     (if abortCleanupCompleted ssj then (Inr NoRequeue, w)
      else case reconcileAbortCleanup c copyTimeout ssj w of
        (JobsError e, w1) \<Rightarrow> (Inl e, w1)
      | (JobsFailed f, w1) \<Rightarrow>
          store_status c (setAbortCleanupCondition L ConditionFalse ''AbortCleanupFailed'' f ssj) NoRequeue w1
      | (JobsWaiting, w1) \<Rightarrow>
          store_status c (setAbortCleanupCondition L ConditionFalse ''AbortCleanupRunning''
            ''waiting for cdc-abort cleanup jobs'' ssj) (RequeueAfter (3 * second)) w1
      | (JobsDone, w1) \<Rightarrow>
          store_status c (setAbortCleanupCondition L ConditionTrue ''AbortCleanupComplete''
            ''online resharding CDC artifacts are cleaned up'' ssj) NoRequeue w1)"

section \<open>Reconcile\<close>

definition fail_job :: "time \<Rightarrow> string \<Rightarrow> ShardSplitJob \<Rightarrow> ShardSplitJob" where
  "fail_job now reason ssj =
     ssj\<lparr>sj_Phase := ShardSplitPhaseFailed, sj_FailureReason := reason, sj_CompletedAt := Some now,
         sj_ObservedGeneration := sj_Generation ssj\<rparr>"

text \<open>The error of the update that records a failure is ignored.\<close>

definition store_failure :: "'w SplitClient \<Rightarrow> time \<Rightarrow> string \<Rightarrow> ShardSplitJob \<Rightarrow> 'w \<Rightarrow> 'w reconciled" where
  "store_failure c now reason ssj w = (Inr NoRequeue, snd (sc_UpdateStatus c (fail_job now reason ssj) w))"

text \<open>The transition at the end of \<open>Reconcile\<close>.\<close>

definition advance :: "'w SplitClient \<Rightarrow> time \<Rightarrow> ShardSplitJob \<Rightarrow> 'w \<Rightarrow> 'w reconciled" where
  "advance c now ssj w =
     (let (next, failure) = nextPhase ssj in
      if next = sj_Phase ssj then (Inr NoRequeue, w)
      else
        let s1 = (if sj_Phase ssj = PhaseNone \<and> sj_StartedAt ssj = None then ssj\<lparr>sj_StartedAt := Some now\<rparr> else ssj);
            s2 = (if next = ShardSplitPhaseCutover then s1\<lparr>sj_CutoverStartedAt := Some now\<rparr> else s1);
            s3 = (if next = ShardSplitPhaseFailed then s2\<lparr>sj_FailureReason := failure\<rparr> else s2);
            s4 = (if next = ShardSplitPhaseCompleted \<or> next = ShardSplitPhaseFailed
                  then s3\<lparr>sj_CompletedAt := Some now\<rparr> else s3);
            s5 = s4\<lparr>sj_Phase := next, sj_ObservedGeneration := sj_Generation ssj\<rparr>
        in store_status c s5
             (if next = ShardSplitPhaseCompleted \<or> next = ShardSplitPhaseFailed then NoRequeue else RequeueNow) w)"

text \<open>Waiting for the data movement jobs of a phase.\<close>

definition await_jobs ::
  "'w SplitClient \<Rightarrow> time \<Rightarrow> ShardSplitJob \<Rightarrow> JobsResult \<times> 'w \<Rightarrow> 'w reconciled" where
  "await_jobs c now ssj r =
     (case r of
        (JobsError e, w1) \<Rightarrow> (Inl e, w1)
      | (JobsFailed f, w1) \<Rightarrow> store_failure c now f ssj w1
      | (JobsWaiting, w1) \<Rightarrow> (Inr (RequeueAfter (3 * second)), w1)
      | (JobsDone, w1) \<Rightarrow> advance c now ssj w1)"

text \<open>The phase-specific part of \<open>Reconcile\<close>; a job is in one phase, so one of its blocks applies.\<close>

definition run_phase :: "'w SplitClient \<Rightarrow> string \<Rightarrow> time \<Rightarrow> ShardSplitJob \<Rightarrow> 'w \<Rightarrow> 'w reconciled" where
  "run_phase c copyTimeout now ssj w =
     (case sj_Phase ssj of
        ShardSplitPhaseBootstrap \<Rightarrow>
          (case reconcileBootstrapTargets c ssj w of
             (Some e, w1) \<Rightarrow> store_failure c now (error_text e) ssj w1
           | (None, w1) \<Rightarrow>
               (case bootstrapTargetsReady c ssj w1 of
                  Inl e \<Rightarrow> (Inl e, w1)
                | Inr ready \<Rightarrow> if \<not> ready then (Inr (RequeueAfter (5 * second)), w1) else advance c now ssj w1))
      | ShardSplitPhaseInitialCopy \<Rightarrow> await_jobs c now ssj (reconcileInitialCopy c copyTimeout ssj w)
      | ShardSplitPhaseCDCCatchup \<Rightarrow>
          if sj_Online ssj then await_jobs c now ssj (reconcileCDC c copyTimeout ssj w) else advance c now ssj w
      | ShardSplitPhaseCutover \<Rightarrow>
          if \<not> sj_AllowForwardOnly ssj
          then (case setWriteBlock c ssj True w of
                  (Some e, w1) \<Rightarrow> (Inl e, w1)
                | (None, w1) \<Rightarrow> advance c now ssj w1)
          else advance c now ssj w
      | ShardSplitPhaseRoutingUpdate \<Rightarrow>
          (case applyRouting c ssj w of
             (Some e, w1) \<Rightarrow> store_failure c now (error_text e) ssj w1
           | (None, w1) \<Rightarrow> advance c now ssj w1)
      | ShardSplitPhaseCleanup \<Rightarrow> await_jobs c now ssj (reconcileCleanup c copyTimeout ssj w)
      | ShardSplitPhasePromote \<Rightarrow>
          (case promotePreconditionsMet c ssj w of
             Inl e \<Rightarrow> (Inl e, w)
           | Inr ready \<Rightarrow>
               if \<not> ready then (Inr (RequeueAfter (3 * second)), w)
               else (case reconcilePromote c ssj w of
                       (Some e, w1) \<Rightarrow> store_failure c now (error_text e) ssj w1
                     | (None, w1) \<Rightarrow> advance c now ssj w1))
      | _ \<Rightarrow> advance c now ssj w)"

definition Reconcile_SSJ :: "CondLib \<Rightarrow> 'w SplitClient \<Rightarrow> string \<Rightarrow> time \<Rightarrow> 'w \<Rightarrow> 'w reconciled" where
  "Reconcile_SSJ L c copyTimeout now w =
     (case sc_GetSSJ c w of
        Inl NotFound \<Rightarrow> (Inr NoRequeue, w)
      | Inl e \<Rightarrow> (Inl (SplitApi ''get ShardSplitJob'' e), w)
      | Inr ssj \<Rightarrow>
          if sj_Phase ssj = ShardSplitPhaseCompleted then (Inr NoRequeue, w)
          else if sj_Phase ssj = ShardSplitPhaseFailed \<or> sj_Phase ssj = ShardSplitPhaseAborted then
            (if sj_Online ssj then reconcileTerminalAbortCleanup L c copyTimeout ssj w else (Inr NoRequeue, w))
          else if unsupportedSplitSpecReason ssj \<noteq> [] then
            store_status c (fail_job now (unsupportedSplitSpecReason ssj) ssj) NoRequeue w
          else if (sj_Phase ssj = PhaseNone \<or> sj_Phase ssj = ShardSplitPhasePending) \<and> autoSplitHoldForApproval ssj then
            (if sj_Phase ssj = PhaseNone
             then store_status c (ssj\<lparr>sj_Phase := ShardSplitPhasePending, sj_ObservedGeneration := sj_Generation ssj\<rparr>) NoRequeue w
             else (Inr NoRequeue, w))
          else run_phase c copyTimeout now ssj w)"

end
