(* ===== verification/Shard_Split_Correct.thy ===== *)
theory Shard_Split_Correct
  imports Shard_Split
begin

text \<open>
  What the split controller of \<open>Shard_Split\<close> guarantees for every API that meets the laws of
  \<open>split_client\<close>: the order of the phases, the only places where routing changes, the gates between
  the phases, and what a failure leaves behind.
\<close>

section \<open>The API's laws\<close>

text \<open>\<open>job_of\<close> and \<open>ranges_of\<close> are the stored job and the stored \<open>ShardRange\<close> resources of a world.
  A failed write either took effect or did not.\<close>

locale split_client =
  fixes c :: "'w SplitClient" and job_of :: "'w \<Rightarrow> ShardSplitJob option"
    and ranges_of :: "'w \<Rightarrow> string \<rightharpoonup> ShardRangeSpec"
  assumes get_ssj: "sc_GetSSJ c w = Inr j \<Longrightarrow> job_of w = Some j"
    and update_status: "sc_UpdateStatus c j w = (r, w') \<Longrightarrow>
          (job_of w' = Some j \<or> r \<noteq> None \<and> job_of w' = job_of w) \<and> ranges_of w' = ranges_of w \<and>
          sc_GetJob c w' = sc_GetJob c w"
    and list_ranges: "sc_ListShardRanges c w = Inr items \<Longrightarrow> (n, sr) \<in> set items \<Longrightarrow> ranges_of w n = Some sr"
    and update_range: "sc_UpdateShardRange c n sr w = (r, w') \<Longrightarrow> ranges_of w n \<noteq> None \<Longrightarrow>
          (ranges_of w' = (ranges_of w)(n \<mapsto> sr) \<or> r \<noteq> None \<and> ranges_of w' = ranges_of w) \<and>
          job_of w' = job_of w \<and> sc_GetJob c w' = sc_GetJob c w"
    and create_job: "sc_CreateJob c jb w = (r, w') \<Longrightarrow> job_of w' = job_of w \<and> ranges_of w' = ranges_of w \<and>
          (\<forall>m. m \<noteq> rj_Name jb \<longrightarrow> sc_GetJob c w' m = sc_GetJob c w m)"
    and upsert: "sc_Upsert c ob s i w = (r, w') \<Longrightarrow>
          job_of w' = job_of w \<and> ranges_of w' = ranges_of w \<and> sc_GetJob c w' = sc_GetJob c w"
    and patch_sts: "sc_PatchSTS c s lb w = (r, w') \<Longrightarrow>
          job_of w' = job_of w \<and> ranges_of w' = ranges_of w \<and> sc_GetJob c w' = sc_GetJob c w"
    and patch_pod: "sc_PatchPod c p q w = (r, w') \<Longrightarrow>
          job_of w' = job_of w \<and> ranges_of w' = ranges_of w \<and> sc_GetJob c w' = sc_GetJob c w"
begin

abbreviation same :: "'w \<Rightarrow> 'w \<Rightarrow> bool" where
  "same w w' \<equiv> job_of w' = job_of w \<and> ranges_of w' = ranges_of w"

abbreviation quiet :: "'w \<Rightarrow> 'w \<Rightarrow> bool" where
  "quiet w w' \<equiv> same w w' \<and> sc_GetJob c w' = sc_GetJob c w"

lemma mode_jobs_loop_same:
  "mode_jobs_loop c ct ssj mode src v ts b w = (r, w') \<Longrightarrow> same w w'"
proof (induction ts arbitrary: b w)
  case (Cons t ts)
  let ?name = "reshardJobName (sj_Cluster ssj) (tg_ShardID t) mode"
  show ?case
  proof (cases "sc_GetJob c w ?name")
    case (Inr job)
    with Cons show ?thesis by (auto simp: Let_def split: if_splits)
  next
    case (Inl e)
    show ?thesis
    proof (cases e)
      case (ApiFailure m)
      with Cons.prems Inl show ?thesis by (simp add: Let_def)
    next
      case NotFound
      with Cons.prems Inl obtain j r1 w1 where j: "sc_CreateJob c j w = (r1, w1)"
        and rest: "(case r1 of Some e \<Rightarrow> (JobsError (SplitApi ''create job'' e), w1)
          | None \<Rightarrow> mode_jobs_loop c ct ssj mode src v ts False w1) = (r, w')"
        by (auto simp: Let_def split: prod.splits option.splits)
      have "same w w1" using create_job [OF j] by blast
      with rest Cons.IH [of False w1] show ?thesis by (cases r1) auto
    qed
  qed
qed simp

lemma reconcileModeJobs_same: "reconcileModeJobs c ct ssj mode w = (r, w') \<Longrightarrow> same w w'"
  by (auto simp: reconcileModeJobs_def split: list.splits sum.splits option.splits dest: mode_jobs_loop_same)

lemma bootstrap_loop_quiet: "bootstrap_loop c im ts w = (r, w') \<Longrightarrow> quiet w w'"
proof (induction ts arbitrary: w)
  case (Cons t ts)
  obtain r1 w1 where u1: "sc_Upsert c TargetConfigMap (tg_ShardID t) im w = (r1, w1)" by fastforce
  obtain r2 w2 where u2: "sc_Upsert c TargetService (tg_ShardID t) im w1 = (r2, w2)" by fastforce
  obtain r3 w3 where u3: "sc_Upsert c TargetStatefulSet (tg_ShardID t) im w2 = (r3, w3)" by fastforce
  note s = upsert [OF u1] upsert [OF u2] upsert [OF u3]
  from Cons.prems u1 u2 u3 consider "w' = w1" | "w' = w2" | "w' = w3" | "bootstrap_loop c im ts w3 = (r, w')"
    by (cases r1; cases r2; cases r3) simp_all
  then show ?case using s Cons.IH by cases simp_all
qed simp

lemma reconcileBootstrapTargets_quiet: "reconcileBootstrapTargets c ssj w = (r, w') \<Longrightarrow> quiet w w'"
  by (auto simp: reconcileBootstrapTargets_def Let_def split: sum.splits if_splits dest: bootstrap_loop_quiet)

lemma adopt_pods_quiet: "adopt_pods c sid ps w = (r, w') \<Longrightarrow> quiet w w'"
proof (induction ps arbitrary: w)
  case (Cons p ps)
  let ?p = "p\<lparr>pod_Labels := ensureLabel ShardIDLabelKey sid (pod_Labels p)\<rparr>"
  obtain r1 w1 where u: "sc_PatchPod c p ?p w = (r1, w1)" by fastforce
  from Cons.prems u consider "adopt_pods c sid ps w = (r, w')" | "w' = w1" | "adopt_pods c sid ps w1 = (r, w')"
    by (cases r1) (auto split: if_splits)
  then show ?case using patch_pod [OF u] Cons.IH by cases simp_all
qed simp

lemma adoptTargetShardIdentity_quiet: "adoptTargetShardIdentity c cl sid w = (r, w') \<Longrightarrow> quiet w w'"
proof (cases "sc_GetSTS c w (TargetShardStatefulSetName cl sid)")
  case (Inr lt)
  assume run: "adoptTargetShardIdentity c cl sid w = (r, w')"
  obtain ls tm where lt: "lt = (ls, tm)" by fastforce
  obtain r1 w1 where u: "sc_PatchSTS c (TargetShardStatefulSetName cl sid)
      (ensureLabel ShardIDLabelKey sid ls, ensureLabel ShardIDLabelKey sid tm) w = (r1, w1)" by fastforce
  from run Inr lt u consider "w' = w1" | ps where "adopt_pods c sid ps w1 = (r, w')"
    by (cases r1; cases "sc_ListTargetPods c w1 cl sid") (auto simp: adoptTargetShardIdentity_def Let_def)
  then show ?thesis using patch_sts [OF u] adopt_pods_quiet by cases auto
qed (simp add: adoptTargetShardIdentity_def Let_def)

lemma promote_loop_quiet: "promote_loop c cl ts w = (r, w') \<Longrightarrow> quiet w w'"
proof (induction ts arbitrary: w)
  case (Cons t ts)
  obtain r1 w1 where u: "adoptTargetShardIdentity c cl (tg_ShardID t) w = (r1, w1)" by fastforce
  from Cons.prems u consider "w' = w1" | "promote_loop c cl ts w1 = (r, w')" by (cases r1) simp_all
  then show ?case using adoptTargetShardIdentity_quiet [OF u] Cons.IH by cases auto
qed simp

end

section \<open>Phase order\<close>

inductive phase_step :: "ShardSplitJobPhase \<Rightarrow> ShardSplitJobPhase \<Rightarrow> bool" where
  hold: "phase_step PhaseNone ShardSplitPhasePending"
| start: "phase_step PhaseNone ShardSplitPhaseSnapshotWAL"
| approve: "phase_step ShardSplitPhasePending ShardSplitPhaseSnapshotWAL"
| snapshot: "phase_step ShardSplitPhaseSnapshotWAL ShardSplitPhaseBootstrap"
| bootstrap: "phase_step ShardSplitPhaseBootstrap ShardSplitPhaseInitialCopy"
| copy: "phase_step ShardSplitPhaseInitialCopy ShardSplitPhaseCDCCatchup"
| cdc: "phase_step ShardSplitPhaseCDCCatchup ShardSplitPhaseCutover"
| cutover: "phase_step ShardSplitPhaseCutover ShardSplitPhaseRoutingUpdate"
| routing: "phase_step ShardSplitPhaseRoutingUpdate ShardSplitPhaseCleanup"
| cleanup: "phase_step ShardSplitPhaseCleanup ShardSplitPhasePromote"
| promote: "phase_step ShardSplitPhasePromote ShardSplitPhaseCompleted"
| fail: "p \<noteq> ShardSplitPhaseCompleted \<Longrightarrow> p \<noteq> ShardSplitPhaseFailed \<Longrightarrow> p \<noteq> ShardSplitPhaseAborted \<Longrightarrow>
    phase_step p ShardSplitPhaseFailed"

inductive_cases phase_step_from_terminal:
  "phase_step ShardSplitPhaseCompleted q" "phase_step ShardSplitPhaseFailed q" "phase_step ShardSplitPhaseAborted q"

inductive_cases phase_step_to: "phase_step p ShardSplitPhaseCDCCatchup" "phase_step p ShardSplitPhaseCleanup"

definition terminal :: "ShardSplitJobPhase \<Rightarrow> bool" where
  "terminal p \<longleftrightarrow> p = ShardSplitPhaseCompleted \<or> p = ShardSplitPhaseFailed \<or> p = ShardSplitPhaseAborted"

fun phase_rank :: "ShardSplitJobPhase \<Rightarrow> nat" where
  "phase_rank PhaseNone = 0"
| "phase_rank ShardSplitPhasePending = 1"
| "phase_rank ShardSplitPhaseSnapshotWAL = 2"
| "phase_rank ShardSplitPhaseBootstrap = 3"
| "phase_rank ShardSplitPhaseInitialCopy = 4"
| "phase_rank ShardSplitPhaseCDCCatchup = 5"
| "phase_rank ShardSplitPhaseCutover = 6"
| "phase_rank ShardSplitPhaseRoutingUpdate = 7"
| "phase_rank ShardSplitPhaseCleanup = 8"
| "phase_rank ShardSplitPhasePromote = 9"
| "phase_rank ShardSplitPhaseCompleted = 10"
| "phase_rank ShardSplitPhaseFailed = 10"
| "phase_rank ShardSplitPhaseAborted = 10"

lemma phase_step_rank: "phase_step p q \<Longrightarrow> phase_rank p < phase_rank q"
proof (induction rule: phase_step.induct)
  case (fail p)
  then show ?case by (cases p) simp_all
qed simp_all

lemma phase_rank_le: "phase_rank p \<le> 10"
  by (cases p) simp_all

lemma phase_step_terminal: "phase_step p q \<Longrightarrow> \<not> terminal p"
  by (auto simp: terminal_def elim: phase_step_from_terminal)

lemma nextPhase_step:
  assumes "\<not> terminal (sj_Phase j)"
  shows "phase_step (sj_Phase j) (fst (nextPhase j))"
proof (cases "sj_Phase j")
  case ShardSplitPhaseCutover
  then show ?thesis
    by (cases "sj_AllowForwardOnly j") (simp_all add: nextPhase_def Let_def phase_step.intros)
qed (use assms in \<open>auto simp: nextPhase_def terminal_def Let_def split: sum.splits intro: phase_step.intros\<close>)

lemma nextPhase_terminal: "terminal (sj_Phase j) \<Longrightarrow> fst (nextPhase j) = sj_Phase j"
  by (auto simp: nextPhase_def terminal_def Let_def)

section \<open>Effects of a reconcile\<close>

definition owns :: "ShardSplitJob \<Rightarrow> ShardRangeSpec \<Rightarrow> bool" where
  "owns j sr \<longleftrightarrow> sr_Cluster sr = sj_Cluster j \<and> sr_Keyspace sr = sj_Keyspace j"

definition routed :: "ShardSplitJob \<Rightarrow> ShardRangeSpec \<Rightarrow> ShardRangeSpec" where
  "routed j sr = sr\<lparr>sr_Ranges := mergeSplitRanges (sr_Ranges sr) (sj_Sources j) (sj_Targets j), sr_WriteBlocked := False\<rparr>"

definition block_effect ::
  "ShardSplitJob \<Rightarrow> bool \<Rightarrow> (string \<rightharpoonup> ShardRangeSpec) \<Rightarrow> (string \<rightharpoonup> ShardRangeSpec) \<Rightarrow> bool" where
  "block_effect j b vs vs' \<longleftrightarrow>
     vs' = vs \<or> (\<exists>n sr. vs n = Some sr \<and> owns j sr \<and> vs' = vs(n \<mapsto> sr\<lparr>sr_WriteBlocked := b\<rparr>))"

definition route_effect ::
  "ShardSplitJob \<Rightarrow> (string \<rightharpoonup> ShardRangeSpec) \<Rightarrow> (string \<rightharpoonup> ShardRangeSpec) \<Rightarrow> bool" where
  "route_effect j vs vs' \<longleftrightarrow>
     vs' = vs \<or> (\<exists>n sr. vs n = Some sr \<and> owns j sr \<and> vs' = vs(n \<mapsto> routed j sr))"

lemma keyspace_range_Some:
  "keyspace_range j items = Some (n, sr) \<Longrightarrow> (n, sr) \<in> set items \<and> owns j sr"
  unfolding keyspace_range_def owns_def by (auto simp: find_Some_iff) (metis nth_mem)

context split_client
begin

lemma setWriteBlock_spec:
  assumes "setWriteBlock c j b w = (r, w')"
  shows "job_of w' = job_of w \<and> block_effect j b (ranges_of w) (ranges_of w') \<and> sc_GetJob c w' = sc_GetJob c w \<and>
    (r = None \<longrightarrow> (\<exists>n sr. ranges_of w' n = Some sr \<and> owns j sr \<and> sr_WriteBlocked sr = b))"
proof (cases "sc_ListShardRanges c w")
  case (Inl e)
  with assms show ?thesis by (auto simp: setWriteBlock_def block_effect_def)
next
  case (Inr items)
  show ?thesis
  proof (cases "keyspace_range j items")
    case None
    with assms Inr show ?thesis by (auto simp: setWriteBlock_def block_effect_def)
  next
    case (Some p)
    obtain n sr where p: "p = (n, sr)" by fastforce
    have sr: "ranges_of w n = Some sr" "owns j sr"
      using keyspace_range_Some [of j items n sr] list_ranges [OF Inr] Some p by auto
    obtain r1 w1 where u: "sc_UpdateShardRange c n (sr\<lparr>sr_WriteBlocked := b\<rparr>) w = (r1, w1)" by fastforce
    have eff: "block_effect j b (ranges_of w) (ranges_of w1)" "job_of w1 = job_of w" "sc_GetJob c w1 = sc_GetJob c w"
      and upd: "r1 = None \<Longrightarrow> ranges_of w1 = (ranges_of w)(n \<mapsto> sr\<lparr>sr_WriteBlocked := b\<rparr>)"
      using update_range [OF u] sr unfolding block_effect_def by auto
    from assms Inr Some p u consider
        "w' = w" "sr_WriteBlocked sr = b"
      | "w' = w1" "r = None \<longleftrightarrow> r1 = None"
      by (auto simp: setWriteBlock_def split: if_splits)
    then show ?thesis
    proof cases
      case 1
      with sr show ?thesis by (auto simp: block_effect_def)
    next
      case 2
      have "r1 = None \<Longrightarrow> ranges_of w1 n = Some (sr\<lparr>sr_WriteBlocked := b\<rparr>) \<and> owns j (sr\<lparr>sr_WriteBlocked := b\<rparr>)"
        using upd sr by (simp add: owns_def)
      with 2 eff show ?thesis by fastforce
    qed
  qed
qed

lemma applyRouting_spec:
  assumes "applyRouting c j w = (r, w')"
  shows "job_of w' = job_of w \<and> route_effect j (ranges_of w) (ranges_of w') \<and>
    (r = None \<longrightarrow> (\<exists>n sr. ranges_of w n = Some sr \<and> owns j sr \<and> ranges_of w' = (ranges_of w)(n \<mapsto> routed j sr)))"
proof (cases "sc_ListShardRanges c w")
  case (Inl e)
  with assms show ?thesis by (auto simp: applyRouting_def route_effect_def)
next
  case (Inr items)
  show ?thesis
  proof (cases "keyspace_range j items")
    case None
    with assms Inr show ?thesis by (auto simp: applyRouting_def route_effect_def)
  next
    case (Some p)
    obtain n sr where p: "p = (n, sr)" by fastforce
    have sr: "ranges_of w n = Some sr" "owns j sr"
      using keyspace_range_Some [of j items n sr] list_ranges [OF Inr] Some p by auto
    obtain r1 w1 where u: "sc_UpdateShardRange c n (routed j sr) w = (r1, w1)" by fastforce
    from assms Inr Some p u have r: "w' = w1" "r = None \<longleftrightarrow> r1 = None"
      by (auto simp: applyRouting_def routed_def)
    show ?thesis
      using update_range [OF u] sr r unfolding route_effect_def by blast
  qed
qed

end

text \<open>The part of a job that the controller never writes.\<close>

definition spec_of :: "ShardSplitJob \<Rightarrow> string \<times> string \<times> string list \<times> ShardSplitTarget list \<times> bool \<times> bool" where
  "spec_of j = (sj_Cluster j, sj_Keyspace j, sj_Sources j, sj_Targets j, sj_Online j, sj_AllowForwardOnly j)"

lemma spec_of_updates [simp]:
  "spec_of (j\<lparr>sj_Phase := p\<rparr>) = spec_of j" "spec_of (j\<lparr>sj_ObservedGeneration := g\<rparr>) = spec_of j"
  "spec_of (j\<lparr>sj_StartedAt := t\<rparr>) = spec_of j" "spec_of (j\<lparr>sj_CompletedAt := t\<rparr>) = spec_of j"
  "spec_of (j\<lparr>sj_CutoverStartedAt := t\<rparr>) = spec_of j" "spec_of (j\<lparr>sj_FailureReason := m\<rparr>) = spec_of j"
  "spec_of (j\<lparr>sj_Conditions := cs\<rparr>) = spec_of j"
  by (simp_all add: spec_of_def)

context split_client
begin

definition stored :: "ShardSplitJob \<Rightarrow> ShardSplitJobPhase \<Rightarrow> 'w \<Rightarrow> bool" where
  "stored j q w \<longleftrightarrow> (\<exists>j'. job_of w = Some j' \<and> spec_of j' = spec_of j \<and> sj_Phase j' = q)"

lemma store_status_spec:
  assumes "store_status c s rq w = (r, w')" "job_of w = Some j" "spec_of s = spec_of j"
  shows "ranges_of w' = ranges_of w \<and> (stored j (sj_Phase j) w' \<or> stored j (sj_Phase s) w')"
proof -
  obtain r1 w1 where u: "sc_UpdateStatus c s w = (r1, w1)" by fastforce
  with assms(1) have "w' = w1" by (cases r1) (simp_all add: store_status_def)
  with update_status [OF u] assms(2,3) show ?thesis unfolding stored_def by auto
qed

lemma store_failure_spec:
  assumes "store_failure c now m j w = (r, w')" "job_of w = Some j"
  shows "ranges_of w' = ranges_of w \<and> (stored j (sj_Phase j) w' \<or> stored j ShardSplitPhaseFailed w')"
proof -
  obtain r1 w1 where u: "sc_UpdateStatus c (fail_job now m j) w = (r1, w1)" by fastforce
  with assms(1) have "w' = w1" by (simp add: store_failure_def)
  with update_status [OF u] assms(2) show ?thesis unfolding stored_def by (auto simp: fail_job_def)
qed

lemma advance_spec:
  assumes "advance c now j w = (r, w')" "job_of w = Some j"
  shows "ranges_of w' = ranges_of w \<and> (stored j (sj_Phase j) w' \<or> stored j (fst (nextPhase j)) w')"
proof -
  obtain q m where q: "nextPhase j = (q, m)" by fastforce
  show ?thesis
  proof (cases "q = sj_Phase j")
    case True
    with assms q show ?thesis by (simp add: advance_def stored_def)
  next
    case False
    obtain s rq where s: "advance c now j w = store_status c s rq w" "spec_of s = spec_of j" "sj_Phase s = q"
      using False q by (simp add: advance_def Let_def)
    from store_status_spec [OF _ assms(2) s(2)] assms(1) s q show ?thesis by fastforce
  qed
qed

lemma await_jobs_spec:
  assumes "await_jobs c now j (jr, w1) = (r, w')" "job_of w1 = Some j"
  shows "ranges_of w' = ranges_of w1 \<and>
    (stored j (sj_Phase j) w' \<or> stored j ShardSplitPhaseFailed w' \<or> jr = JobsDone \<and> stored j (fst (nextPhase j)) w')"
proof (cases jr)
  case JobsDone
  with assms advance_spec show ?thesis by (fastforce simp: await_jobs_def)
next
  case (JobsFailed f)
  with assms store_failure_spec show ?thesis by (fastforce simp: await_jobs_def)
qed (use assms in \<open>auto simp: await_jobs_def stored_def\<close>)

end

section \<open>Refinement\<close>

text \<open>What a split promises: the phases in order, the write-block only in \<open>CDCCatchup\<close> and \<open>Cutover\<close>, the
  routing change only in \<open>RoutingUpdate\<close> and only after the write-block, and no other change of a
  \<open>ShardRange\<close>, apart from the release of the block after a failed online split.\<close>

definition write_blocked :: "ShardSplitJob \<Rightarrow> (string \<rightharpoonup> ShardRangeSpec) \<Rightarrow> bool" where
  "write_blocked j vs \<longleftrightarrow> (\<exists>n sr. vs n = Some sr \<and> owns j sr \<and> sr_WriteBlocked sr)"

definition switches ::
  "ShardSplitJob \<Rightarrow> (string \<rightharpoonup> ShardRangeSpec) \<Rightarrow> (string \<rightharpoonup> ShardRangeSpec) \<Rightarrow> bool" where
  "switches j vs vs' \<longleftrightarrow> (\<exists>n sr. vs n = Some sr \<and> owns j sr \<and> vs' = vs(n \<mapsto> routed j sr))"

inductive split_spec ::
  "ShardSplitJob \<Rightarrow> ShardSplitJobPhase \<Rightarrow> (string \<rightharpoonup> ShardRangeSpec) \<Rightarrow> ShardSplitJobPhase \<Rightarrow>
   (string \<rightharpoonup> ShardRangeSpec) \<Rightarrow> bool" for j where
  wait: "split_spec j p vs p vs"
| move: "phase_step p q \<Longrightarrow> q \<noteq> ShardSplitPhaseRoutingUpdate \<Longrightarrow> q \<noteq> ShardSplitPhaseCleanup \<Longrightarrow> split_spec j p vs q vs"
| catchup: "block_effect j True vs vs' \<Longrightarrow>
    q \<in> {ShardSplitPhaseCDCCatchup, ShardSplitPhaseCutover, ShardSplitPhaseFailed} \<Longrightarrow> sj_Online j \<Longrightarrow>
    split_spec j ShardSplitPhaseCDCCatchup vs q vs'"
| block: "block_effect j True vs vs' \<Longrightarrow> \<not> sj_AllowForwardOnly j \<Longrightarrow>
    q = ShardSplitPhaseCutover \<or> q = ShardSplitPhaseRoutingUpdate \<and> write_blocked j vs' \<Longrightarrow>
    split_spec j ShardSplitPhaseCutover vs q vs'"
| route: "switches j vs vs' \<Longrightarrow>
    q \<in> {ShardSplitPhaseRoutingUpdate, ShardSplitPhaseCleanup, ShardSplitPhaseFailed} \<Longrightarrow>
    split_spec j ShardSplitPhaseRoutingUpdate vs q vs'"
| release: "block_effect j False vs vs' \<Longrightarrow> p = ShardSplitPhaseFailed \<or> p = ShardSplitPhaseAborted \<Longrightarrow> sj_Online j \<Longrightarrow>
    split_spec j p vs p vs'"

lemma fail_spec: "\<not> terminal p \<Longrightarrow> split_spec j p vs ShardSplitPhaseFailed vs"
  by (rule move) (auto simp: terminal_def intro: phase_step.fail)

lemma fail_specs:
  "split_spec j ShardSplitPhaseCutover vs ShardSplitPhaseFailed vs"
  "split_spec j ShardSplitPhaseRoutingUpdate vs ShardSplitPhaseFailed vs"
  by (simp_all add: fail_spec terminal_def)

lemma phase_cases_quiet:
  "\<lbrakk>phase_step p q; p \<notin> {ShardSplitPhaseCutover, ShardSplitPhaseRoutingUpdate}\<rbrakk> \<Longrightarrow> split_spec j p vs q vs"
  by (rule move) (auto elim: phase_step.cases)

lemma owns_cong: "spec_of j' = spec_of j \<Longrightarrow> owns j' = owns j"
  by (auto simp: owns_def spec_of_def fun_eq_iff)

lemma routed_cong: "spec_of j' = spec_of j \<Longrightarrow> routed j' = routed j"
  by (auto simp: routed_def spec_of_def fun_eq_iff)

context split_client
begin

text \<open>A reconcile that found the job \<open>j\<close> took a step of \<open>split_spec\<close>.\<close>

definition refines :: "ShardSplitJob \<Rightarrow> 'w \<Rightarrow> 'w \<Rightarrow> bool" where
  "refines j w w' \<longleftrightarrow> (\<exists>q. stored j q w' \<and> split_spec j (sj_Phase j) (ranges_of w) q (ranges_of w'))"

lemma refinesI: "stored j q w' \<Longrightarrow> split_spec j (sj_Phase j) (ranges_of w) q (ranges_of w') \<Longrightarrow> refines j w w'"
  unfolding refines_def by blast

lemma refines_waitI: "stored j (sj_Phase j) w' \<Longrightarrow> ranges_of w' = ranges_of w \<Longrightarrow> refines j w w'"
  by (rule refinesI) (auto intro: split_spec.wait)

lemma refines_same: "same w w' \<Longrightarrow> job_of w = Some j \<Longrightarrow> refines j w w'"
  by (rule refinesI [of _ "sj_Phase j"]) (auto simp: stored_def intro: split_spec.wait)

lemma advance_refines:
  assumes "advance c now j w1 = (r, w')" "job_of w1 = Some j" "\<not> terminal (sj_Phase j)" "ranges_of w1 = ranges_of w"
    and "sj_Phase j \<notin> {ShardSplitPhaseCutover, ShardSplitPhaseRoutingUpdate}"
  shows "refines j w w'"
  using advance_spec [OF assms(1,2)] phase_cases_quiet [OF nextPhase_step [OF assms(3)] assms(5)] assms(4)
  by (auto intro: refinesI refines_waitI)

lemma store_failure_refines:
  assumes "store_failure c now m j w1 = (r, w')" "job_of w1 = Some j" "\<not> terminal (sj_Phase j)" "ranges_of w1 = ranges_of w"
  shows "refines j w w'"
  using store_failure_spec [OF assms(1,2)] fail_spec [OF assms(3)] assms(4)
  by (auto intro: refinesI refines_waitI)

lemma await_refines:
  assumes "await_jobs c now j (jr, w1) = (r, w')" "job_of w1 = Some j" "\<not> terminal (sj_Phase j)" "ranges_of w1 = ranges_of w"
    and "sj_Phase j \<notin> {ShardSplitPhaseCutover, ShardSplitPhaseRoutingUpdate}"
  shows "refines j w w'"
  using await_jobs_spec [OF assms(1,2)] phase_cases_quiet [OF nextPhase_step [OF assms(3)] assms(5)] fail_spec [OF assms(3)]
    assms(4)
  by (auto intro: refinesI refines_waitI)

lemma reconcileCDC_spec:
  assumes "reconcileCDC c ct j w = (jr, w')"
  shows "job_of w' = job_of w \<and> block_effect j True (ranges_of w) (ranges_of w')"
proof -
  obtain r1 w1 where u1: "reconcileModeJobs c ct j ModeCDCSetup w = (r1, w1)" by fastforce
  obtain r2 w2 where u2: "setWriteBlock c j True w1 = (r2, w2)" by fastforce
  obtain r3 w3 where u3: "reconcileModeJobs c ct j ModeCDCFinalize w2 = (r3, w3)" by fastforce
  from assms u1 u2 u3 have "w' \<in> {w1, w2, w3}" by (cases r1; cases r2) (auto simp: reconcileCDC_def)
  with reconcileModeJobs_same [OF u1] setWriteBlock_spec [OF u2] reconcileModeJobs_same [OF u3]
  have "job_of w' = job_of w" "ranges_of w' = ranges_of w \<or> ranges_of w' = ranges_of w2"
    and "block_effect j True (ranges_of w) (ranges_of w2)"
    by auto
  moreover have "block_effect j True (ranges_of w) (ranges_of w)" by (simp add: block_effect_def)
  ultimately show ?thesis by auto
qed

lemma catchup_refines:
  assumes run: "run_phase c ct now j w = (r, w')" and j: "job_of w = Some j" "sj_Phase j = ShardSplitPhaseCDCCatchup"
  shows "refines j w w'"
proof (cases "sj_Online j")
  case True
  obtain jr w1 where cdc: "reconcileCDC c ct j w = (jr, w1)" by fastforce
  with run True j(2) have await: "await_jobs c now j (jr, w1) = (r, w')" by (simp add: run_phase_def)
  note s = reconcileCDC_spec [OF cdc]
  with j have "job_of w1 = Some j" by simp
  note a = await_jobs_spec [OF await this]
  have "q \<in> {ShardSplitPhaseCDCCatchup, ShardSplitPhaseCutover, ShardSplitPhaseFailed} \<Longrightarrow> stored j q w' \<Longrightarrow> refines j w w'" for q
    by (rule refinesI) (use s a j(2) True in \<open>auto intro: split_spec.catchup\<close>)
  with a j(2) show ?thesis by (auto simp: nextPhase_def Let_def)
next
  case False
  with run j advance_refines [of now j w r w' w] show ?thesis by (simp add: run_phase_def terminal_def)
qed

lemma cutover_refines:
  assumes run: "run_phase c ct now j w = (r, w')" and j: "job_of w = Some j" "sj_Phase j = ShardSplitPhaseCutover"
  shows "refines j w w'"
proof (cases "sj_AllowForwardOnly j")
  case False
  obtain br w1 where b: "setWriteBlock c j True w = (br, w1)" by fastforce
  note s = setWriteBlock_spec [OF b]
  show ?thesis
  proof (cases br)
    case (Some e)
    with run False j b s show ?thesis
      by (auto simp: run_phase_def stored_def intro!: refinesI [of _ ShardSplitPhaseCutover] split_spec.block)
  next
    case None
    with run False j b have adv: "advance c now j w1 = (r, w')" by (simp add: run_phase_def)
    have "write_blocked j (ranges_of w1)" using s None unfolding write_blocked_def by blast
    moreover note a = advance_spec [OF adv]
    ultimately have "q \<in> {ShardSplitPhaseCutover, ShardSplitPhaseRoutingUpdate} \<Longrightarrow> stored j q w' \<Longrightarrow> refines j w w'" for q
      by (intro refinesI) (use s a j False in \<open>auto intro: split_spec.block\<close>)
    with a s j False show ?thesis by (auto simp: nextPhase_def Let_def)
  qed
next
  case True
  with run j have adv: "advance c now j w = (r, w')" by (simp add: run_phase_def)
  note a = advance_spec [OF adv j(1)]
  have "q \<in> {ShardSplitPhaseCutover, ShardSplitPhaseFailed} \<Longrightarrow> stored j q w' \<Longrightarrow> refines j w w'" for q
    by (rule refinesI) (use a j(2) in \<open>auto intro: split_spec.wait fail_specs\<close>)
  with a j(2) True show ?thesis by (auto simp: nextPhase_def Let_def)
qed

lemma route_refines:
  assumes run: "run_phase c ct now j w = (r, w')" and j: "job_of w = Some j" "sj_Phase j = ShardSplitPhaseRoutingUpdate"
  shows "refines j w w'"
proof -
  obtain br w1 where b: "applyRouting c j w = (br, w1)" by fastforce
  note s = applyRouting_spec [OF b]
  have eff: "ranges_of w1 = ranges_of w \<or> switches j (ranges_of w) (ranges_of w1)"
    using s unfolding route_effect_def switches_def by blast
  show ?thesis
  proof (cases br)
    case (Some e)
    with run j b have "store_failure c now (error_text e) j w1 = (r, w')" by (simp add: run_phase_def)
    note a = store_failure_spec [OF this]
    have "q \<in> {ShardSplitPhaseRoutingUpdate, ShardSplitPhaseFailed} \<Longrightarrow> stored j q w' \<Longrightarrow> refines j w w'" for q
      by (rule refinesI) (use s a j eff in \<open>auto intro: split_spec.wait fail_specs split_spec.route\<close>)
    with a s j show ?thesis by auto
  next
    case None
    with run j b have "advance c now j w1 = (r, w')" by (simp add: run_phase_def)
    note a = advance_spec [OF this]
    have sw: "switches j (ranges_of w) (ranges_of w1)" using s None unfolding switches_def by blast
    have "q \<in> {ShardSplitPhaseRoutingUpdate, ShardSplitPhaseCleanup} \<Longrightarrow> stored j q w' \<Longrightarrow> refines j w w'" for q
      by (rule refinesI) (use sw a j s in \<open>auto intro!: split_spec.route\<close>)
    with a s j show ?thesis by (auto simp: nextPhase_def Let_def)
  qed
qed

end

context split_client
begin

lemma bootstrap_refines:
  assumes run: "run_phase c ct now j w = (r, w')" and j: "job_of w = Some j" "sj_Phase j = ShardSplitPhaseBootstrap"
  shows "refines j w w'"
proof -
  obtain br w1 where b: "reconcileBootstrapTargets c j w = (br, w1)" by fastforce
  have s: "same w w1" using reconcileBootstrapTargets_quiet [OF b] by blast
  have nt: "\<not> terminal (sj_Phase j)" using j(2) by (simp add: terminal_def)
  from run j(2) b consider e where "store_failure c now (error_text e) j w1 = (r, w')" | "w' = w1" | "advance c now j w1 = (r, w')"
    by (cases br; cases "bootstrapTargetsReady c j w1") (auto simp: run_phase_def split: if_splits)
  then show ?thesis
  proof cases
    case 1
    then show ?thesis using store_failure_refines s j(1) nt by auto
  next
    case 2
    then show ?thesis using refines_same s j(1) by auto
  next
    case 3
    then show ?thesis using advance_refines [of now j w1 r w' w] s j nt by simp
  qed
qed

lemma promote_refines:
  assumes run: "run_phase c ct now j w = (r, w')" and j: "job_of w = Some j" "sj_Phase j = ShardSplitPhasePromote"
  shows "refines j w w'"
proof -
  obtain br w1 where b: "reconcilePromote c j w = (br, w1)" by fastforce
  have s: "same w w1" using promote_loop_quiet b unfolding reconcilePromote_def by blast
  have nt: "\<not> terminal (sj_Phase j)" using j(2) by (simp add: terminal_def)
  from run j(2) b consider "w' = w" | e where "store_failure c now (error_text e) j w1 = (r, w')" | "advance c now j w1 = (r, w')"
    by (cases br; cases "promotePreconditionsMet c j w") (auto simp: run_phase_def split: if_splits)
  then show ?thesis
  proof cases
    case 1
    then show ?thesis using refines_same j(1) by auto
  next
    case 2
    then show ?thesis using store_failure_refines s j(1) nt by auto
  next
    case 3
    then show ?thesis using advance_refines [of now j w1 r w' w] s j nt by simp
  qed
qed

lemma run_phase_refines:
  assumes run: "run_phase c ct now j w = (r, w')" and j: "job_of w = Some j" and nt: "\<not> terminal (sj_Phase j)"
  shows "refines j w w'"
proof (cases "sj_Phase j")
  case ShardSplitPhaseBootstrap
  with run j show ?thesis by (rule bootstrap_refines)
next
  case ShardSplitPhaseInitialCopy
  obtain jr w1 where c: "reconcileInitialCopy c ct j w = (jr, w1)" by fastforce
  then have "same w w1" using reconcileModeJobs_same by (auto simp: reconcileInitialCopy_def split: if_splits)
  moreover have "await_jobs c now j (jr, w1) = (r, w')" using run c ShardSplitPhaseInitialCopy by (simp add: run_phase_def)
  ultimately show ?thesis using await_refines [of now j jr w1 r w' w] j nt ShardSplitPhaseInitialCopy by simp
next
  case ShardSplitPhaseCDCCatchup
  with run j show ?thesis by (rule catchup_refines)
next
  case ShardSplitPhaseCutover
  with run j show ?thesis by (rule cutover_refines)
next
  case ShardSplitPhaseRoutingUpdate
  with run j show ?thesis by (rule route_refines)
next
  case ShardSplitPhaseCleanup
  obtain jr w1 where c: "reconcileCleanup c ct j w = (jr, w1)" by fastforce
  then have "same w w1" using reconcileModeJobs_same by (auto simp: reconcileCleanup_def)
  moreover have "await_jobs c now j (jr, w1) = (r, w')" using run c ShardSplitPhaseCleanup by (simp add: run_phase_def)
  ultimately show ?thesis using await_refines [of now j jr w1 r w' w] j nt ShardSplitPhaseCleanup by simp
next
  case ShardSplitPhasePromote
  with run j show ?thesis by (rule promote_refines)
qed (use run j nt advance_refines [of now j w r w' w] in \<open>auto simp: run_phase_def terminal_def\<close>)

lemma abort_refines:
  assumes run: "reconcileTerminalAbortCleanup L c ct j w = (r, w')" and j: "job_of w = Some j"
    and p: "sj_Phase j = ShardSplitPhaseFailed \<or> sj_Phase j = ShardSplitPhaseAborted" "sj_Online j"
  shows "refines j w w'"
proof -
  obtain jr w1 where a: "reconcileAbortCleanup c ct j w = (jr, w1)" by fastforce
  obtain mr w2 where m: "reconcileModeJobs c ct j ModeCDCAbort w = (mr, w2)" by fastforce
  obtain br w3 where b: "setWriteBlock c j False w2 = (br, w3)" by fastforce
  have "w1 \<in> {w, w2, w3}"
    using a m b by (cases mr; cases br) (auto simp: reconcileAbortCleanup_def split: if_splits sum.splits)
  with reconcileModeJobs_same [OF m] setWriteBlock_spec [OF b]
  have "job_of w1 = Some j" "ranges_of w1 = ranges_of w \<or> ranges_of w1 = ranges_of w3"
    "block_effect j False (ranges_of w) (ranges_of w3)"
    using j by auto
  moreover have "block_effect j False (ranges_of w) (ranges_of w)" by (simp add: block_effect_def)
  ultimately have w1: "job_of w1 = Some j" "block_effect j False (ranges_of w) (ranges_of w1)" by auto
  consider "w' = w" | "w' = w1" | s rq where "store_status c s rq w1 = (r, w')" "spec_of s = spec_of j" "sj_Phase s = sj_Phase j"
    using run a by (cases jr) (auto simp: reconcileTerminalAbortCleanup_def setAbortCleanupCondition_def split: if_splits)
  then show ?thesis
  proof cases
    case 1
    then show ?thesis using refines_same j by auto
  next
    case 2
    have "stored j (sj_Phase j) w'" using 2 w1 by (simp add: stored_def)
    then show ?thesis by (rule refinesI) (use 2 w1 p in \<open>auto intro: split_spec.release\<close>)
  next
    case (3 s rq)
    from store_status_spec [OF 3(1) w1(1) 3(2)] 3(3) have "stored j (sj_Phase j) w'" "ranges_of w' = ranges_of w1" by auto
    then show ?thesis by (intro refinesI) (use w1 p in \<open>auto intro: split_spec.release\<close>)
  qed
qed

lemma Reconcile_refines:
  assumes run: "Reconcile_SSJ L c ct now w = (r, w')"
  shows "w' = w \<or> (\<exists>j. job_of w = Some j \<and> refines j w w')"
proof (cases "sc_GetSSJ c w")
  case (Inl e)
  with run show ?thesis by (cases e) (simp_all add: Reconcile_SSJ_def)
next
  case (Inr j)
  have j: "job_of w = Some j" by (rule get_ssj [OF Inr])
  from run Inr consider "w' = w"
    | "sj_Phase j = ShardSplitPhaseFailed \<or> sj_Phase j = ShardSplitPhaseAborted" "sj_Online j"
      "reconcileTerminalAbortCleanup L c ct j w = (r, w')"
    | m where "\<not> terminal (sj_Phase j)" "store_status c (fail_job now m j) NoRequeue w = (r, w')"
    | "sj_Phase j = PhaseNone"
      "store_status c (j\<lparr>sj_Phase := ShardSplitPhasePending, sj_ObservedGeneration := sj_Generation j\<rparr>) NoRequeue w = (r, w')"
    | "\<not> terminal (sj_Phase j)" "run_phase c ct now j w = (r, w')"
    by (auto simp: Reconcile_SSJ_def terminal_def split: if_splits)
  then show ?thesis
  proof cases
    case 2
    with abort_refines [OF 2(3) j] j show ?thesis by blast
  next
    case (3 m)
    have "refines j w w'"
      using store_status_spec [OF 3(2) j] fail_spec [OF 3(1)] by (auto simp: fail_job_def intro: refinesI refines_waitI)
    with j show ?thesis by blast
  next
    case 4
    have "split_spec j (sj_Phase j) (ranges_of w) ShardSplitPhasePending (ranges_of w)"
      unfolding 4(1) by (rule split_spec.move) (auto intro: phase_step.hold)
    with store_status_spec [OF 4(2) j] have "refines j w w'" by (auto intro: refinesI refines_waitI)
    with j show ?thesis by blast
  next
    case 5
    with run_phase_refines j show ?thesis by blast
  qed simp
qed

end

section \<open>Which jobs a reconcile starts\<close>

lemma reshardJobName_mode: "reshardJobName cl s m = reshardJobName cl t m' \<Longrightarrow> m = m'"
  unfolding reshardJobName_def by (cases m; cases m') simp_all

context split_client
begin

text \<open>The jobs of the cluster \<open>cl\<close> that delete moved rows from the source.\<close>

definition kd :: "string \<Rightarrow> 'w \<Rightarrow> 'w \<Rightarrow> bool" where
  "kd cl w w' \<longleftrightarrow> (\<forall>t. sc_GetJob c w' (reshardJobName cl t ModeDelete) = sc_GetJob c w (reshardJobName cl t ModeDelete))"

lemma kd_refl [simp]: "kd cl w w"
  by (simp add: kd_def)

lemma kd_same: "sc_GetJob c w' = sc_GetJob c w \<Longrightarrow> kd cl w w'"
  by (simp add: kd_def)

lemma kd_trans: "kd cl w w1 \<Longrightarrow> kd cl w1 w2 \<Longrightarrow> kd cl w w2"
  by (simp add: kd_def)

lemma mode_jobs_loop_kd:
  "mode_jobs_loop c ct ssj mode src v ts b w = (r, w') \<Longrightarrow> mode \<noteq> ModeDelete \<Longrightarrow> kd (sj_Cluster ssj) w w'"
proof (induction ts arbitrary: b w)
  case (Cons t ts)
  let ?name = "reshardJobName (sj_Cluster ssj) (tg_ShardID t) mode"
  show ?case
  proof (cases "sc_GetJob c w ?name")
    case (Inr job)
    with Cons show ?thesis by (auto simp: Let_def split: if_splits)
  next
    case (Inl e)
    show ?thesis
    proof (cases e)
      case (ApiFailure m)
      with Cons.prems Inl show ?thesis by (simp add: Let_def)
    next
      case NotFound
      with Cons.prems Inl obtain j r1 w1 where j: "sc_CreateJob c j w = (r1, w1)" "rj_Name j = ?name"
        and rest: "(case r1 of Some e \<Rightarrow> (JobsError (SplitApi ''create job'' e), w1)
          | None \<Rightarrow> mode_jobs_loop c ct ssj mode src v ts False w1) = (r, w')"
        by (auto simp: Let_def buildReshardJob_def split: prod.splits option.splits)
      have "kd (sj_Cluster ssj) w w1"
        using create_job [OF j(1)] j(2) Cons.prems(2) reshardJobName_mode unfolding kd_def by metis
      with rest Cons.IH [of False w1] Cons.prems(2) kd_trans show ?thesis by (cases r1) auto
    qed
  qed
qed simp

lemma reconcileModeJobs_kd:
  "reconcileModeJobs c ct ssj mode w = (r, w') \<Longrightarrow> mode \<noteq> ModeDelete \<Longrightarrow> kd (sj_Cluster ssj) w w'"
  by (auto simp: reconcileModeJobs_def split: list.splits sum.splits option.splits dest: mode_jobs_loop_kd)

end

context split_client
begin

lemma applyRouting_jobs:
  assumes "applyRouting c j w = (r, w')"
  shows "sc_GetJob c w' = sc_GetJob c w"
proof (cases "sc_ListShardRanges c w")
  case (Inr items)
  show ?thesis
  proof (cases "keyspace_range j items")
    case (Some p)
    obtain n sr where p: "p = (n, sr)" by fastforce
    obtain r1 w1 where u: "sc_UpdateShardRange c n (routed j sr) w = (r1, w1)" by fastforce
    have "ranges_of w n \<noteq> None" using keyspace_range_Some [of j items n sr] list_ranges [OF Inr] Some p by auto
    with update_range [OF u] assms Inr Some p u show ?thesis by (simp add: applyRouting_def routed_def)
  qed (use assms Inr in \<open>simp add: applyRouting_def\<close>)
qed (use assms in \<open>simp add: applyRouting_def\<close>)

lemma store_status_jobs: "store_status c s rq w = (r, w') \<Longrightarrow> sc_GetJob c w' = sc_GetJob c w"
  by (cases "sc_UpdateStatus c s w"; cases "fst (sc_UpdateStatus c s w)")
     (auto simp: store_status_def dest: update_status)

lemma store_failure_jobs: "store_failure c now m j w = (r, w') \<Longrightarrow> sc_GetJob c w' = sc_GetJob c w"
  by (cases "sc_UpdateStatus c (fail_job now m j) w") (auto simp: store_failure_def dest: update_status)

lemma advance_jobs: "advance c now j w = (r, w') \<Longrightarrow> sc_GetJob c w' = sc_GetJob c w"
  by (cases "nextPhase j") (auto simp: advance_def Let_def dest!: store_status_jobs split: if_splits)

lemma await_jobs_jobs: "await_jobs c now j (jr, w1) = (r, w') \<Longrightarrow> sc_GetJob c w' = sc_GetJob c w1"
  by (cases jr) (auto simp: await_jobs_def dest: store_failure_jobs advance_jobs)

lemmas outcome_jobs = store_status_jobs store_failure_jobs advance_jobs await_jobs_jobs

lemma reconcileCDC_kd: "reconcileCDC c ct j w = (jr, w') \<Longrightarrow> kd (sj_Cluster j) w w'"
proof -
  assume run: "reconcileCDC c ct j w = (jr, w')"
  obtain r1 w1 where u1: "reconcileModeJobs c ct j ModeCDCSetup w = (r1, w1)" by fastforce
  obtain r2 w2 where u2: "setWriteBlock c j True w1 = (r2, w2)" by fastforce
  obtain r3 w3 where u3: "reconcileModeJobs c ct j ModeCDCFinalize w2 = (r3, w3)" by fastforce
  have k1: "kd (sj_Cluster j) w w1" using reconcileModeJobs_kd [OF u1] by simp
  have k2: "kd (sj_Cluster j) w w2"
    by (rule kd_trans [OF k1 kd_same]) (use setWriteBlock_spec [OF u2] in simp)
  have k3: "kd (sj_Cluster j) w w3"
    by (rule kd_trans [OF k2]) (use reconcileModeJobs_kd [OF u3] in simp)
  from run u1 u2 u3 have "w' \<in> {w1, w2, w3}" by (cases r1; cases r2) (auto simp: reconcileCDC_def)
  with k1 k2 k3 show ?thesis by auto
qed

lemma abort_kd:
  assumes run: "reconcileTerminalAbortCleanup L c ct j w = (r, w')"
  shows "kd (sj_Cluster j) w w'"
proof -
  obtain jr w1 where a: "reconcileAbortCleanup c ct j w = (jr, w1)" by fastforce
  obtain mr w2 where m: "reconcileModeJobs c ct j ModeCDCAbort w = (mr, w2)" by fastforce
  obtain br w3 where b: "setWriteBlock c j False w2 = (br, w3)" by fastforce
  have "w1 \<in> {w, w2, w3}"
    using a m b by (cases mr; cases br) (auto simp: reconcileAbortCleanup_def split: if_splits sum.splits)
  moreover have k2: "kd (sj_Cluster j) w w2" using reconcileModeJobs_kd [OF m] by simp
  moreover have "kd (sj_Cluster j) w w3"
    by (rule kd_trans [OF k2 kd_same]) (use setWriteBlock_spec [OF b] in simp)
  ultimately have k1: "kd (sj_Cluster j) w w1" by auto
  consider "w' = w" | "w' = w1" | s rq where "store_status c s rq w1 = (r, w')"
    using run a by (cases jr) (auto simp: reconcileTerminalAbortCleanup_def split: if_splits)
  then show ?thesis
  proof cases
    case (3 s rq)
    show ?thesis by (rule kd_trans [OF k1 kd_same]) (rule store_status_jobs [OF 3])
  qed (use k1 in simp_all)
qed

lemma run_phase_kd:
  assumes run: "run_phase c ct now j w = (r, w')" and p: "sj_Phase j \<noteq> ShardSplitPhaseCleanup"
  shows "kd (sj_Cluster j) w w'"
proof (cases "sj_Phase j")
  case ShardSplitPhaseBootstrap
  obtain br w1 where b: "reconcileBootstrapTargets c j w = (br, w1)" by fastforce
  with run ShardSplitPhaseBootstrap have "w' = w1 \<or> sc_GetJob c w' = sc_GetJob c w1"
    by (cases br; cases "bootstrapTargetsReady c j w1") (auto simp: run_phase_def dest: outcome_jobs split: if_splits)
  with reconcileBootstrapTargets_quiet [OF b] show ?thesis by (auto simp: kd_def)
next
  case ShardSplitPhaseInitialCopy
  obtain jr w1 where b: "reconcileInitialCopy c ct j w = (jr, w1)" by fastforce
  then have "kd (sj_Cluster j) w w1"
    using reconcileModeJobs_kd by (auto simp: reconcileInitialCopy_def split: if_splits)
  moreover have "await_jobs c now j (jr, w1) = (r, w')" using run b ShardSplitPhaseInitialCopy by (simp add: run_phase_def)
  ultimately show ?thesis by (auto simp: kd_def dest: await_jobs_jobs)
next
  case ShardSplitPhaseCDCCatchup
  obtain jr w1 where b: "reconcileCDC c ct j w = (jr, w1)" by fastforce
  with run ShardSplitPhaseCDCCatchup have "await_jobs c now j (jr, w1) = (r, w') \<or> advance c now j w = (r, w')"
    by (auto simp: run_phase_def split: if_splits)
  with reconcileCDC_kd [OF b] show ?thesis by (auto simp: kd_def dest: outcome_jobs)
next
  case ShardSplitPhaseCutover
  obtain br w1 where b: "setWriteBlock c j True w = (br, w1)" by fastforce
  with run ShardSplitPhaseCutover have "w' = w1 \<or> advance c now j w1 = (r, w') \<or> advance c now j w = (r, w')"
    by (cases br) (auto simp: run_phase_def split: if_splits)
  with setWriteBlock_spec [OF b] show ?thesis by (auto simp: kd_def dest: outcome_jobs)
next
  case ShardSplitPhaseRoutingUpdate
  obtain br w1 where b: "applyRouting c j w = (br, w1)" by fastforce
  with run ShardSplitPhaseRoutingUpdate
  have "advance c now j w1 = (r, w') \<or> (\<exists>m. store_failure c now m j w1 = (r, w'))"
    by (cases br) (auto simp: run_phase_def)
  moreover have "sc_GetJob c w1 = sc_GetJob c w" by (rule applyRouting_jobs [OF b])
  ultimately show ?thesis by (auto simp: kd_def dest: outcome_jobs)
next
  case ShardSplitPhasePromote
  obtain br w1 where b: "reconcilePromote c j w = (br, w1)" by fastforce
  with run ShardSplitPhasePromote have "w' = w \<or> sc_GetJob c w' = sc_GetJob c w1"
    by (cases br; cases "promotePreconditionsMet c j w") (auto simp: run_phase_def dest: outcome_jobs split: if_splits)
  with promote_loop_quiet b show ?thesis by (auto simp: kd_def reconcilePromote_def)
qed (use run p in \<open>auto simp: run_phase_def kd_def dest!: advance_jobs\<close>)

lemma Reconcile_kd:
  assumes run: "Reconcile_SSJ L c ct now w = (r, w')" and j: "job_of w = Some j" "sj_Phase j \<noteq> ShardSplitPhaseCleanup"
  shows "kd (sj_Cluster j) w w'"
proof (cases "sc_GetSSJ c w")
  case (Inl e)
  with run show ?thesis by (cases e) (simp_all add: Reconcile_SSJ_def)
next
  case (Inr i)
  then have i: "i = j" using get_ssj j(1) by fastforce
  from run Inr consider "w' = w"
    | "reconcileTerminalAbortCleanup L c ct j w = (r, w')"
    | s rq where "store_status c s rq w = (r, w')"
    | "run_phase c ct now j w = (r, w')"
    unfolding i by (auto simp: Reconcile_SSJ_def split: if_splits)
  then show ?thesis
    by cases (use j(2) in \<open>auto intro: abort_kd run_phase_kd kd_same dest: store_status_jobs\<close>)
qed

end

end
