(* ===== verification/Split_Runs.thy ===== *)
theory Split_Runs
  imports Shard_Split_Correct
begin

text \<open>
  Sequences of reconciles of a split job: an in-memory API that meets the laws of \<open>split_client\<close>, the
  invariant that ties the routing table and the deletion of moved rows to the phase, the bound on the
  number of phase changes, and what a wrong plan or a failure does to the keys.
\<close>

section \<open>An in-memory API\<close>

text \<open>One job, an association list of \<open>ShardRange\<close> resources, and data movement jobs that succeed as soon
  as they are created. \<open>ms_refuse\<close> makes the store refuse updates of \<open>ShardRange\<close> resources, \<open>ms_lose\<close>
  makes it lose status updates.\<close>

record SplitStore =
  ms_job :: "ShardSplitJob option"
  ms_ranges :: "(string \<times> ShardRangeSpec) list"
  ms_jobs :: "string list"
  ms_refuse :: bool
  ms_lose :: bool

definition ready_target :: "string \<Rightarrow> Pod" where
  "ready_target sid = (demo_pod (''target-'' @ sid) None)\<lparr>pod_Labels := [ReshardTargetLabelKey \<mapsto> sid]\<rparr>"

definition mem_split :: "SplitStore SplitClient" where
  "mem_split =
     \<lparr>sc_GetSSJ = (\<lambda>w. case ms_job w of None \<Rightarrow> Inl NotFound | Some j \<Rightarrow> Inr j),
      sc_UpdateStatus = (\<lambda>j w. if ms_lose w then (Some (ApiFailure ''conflict''), w) else (None, w\<lparr>ms_job := Some j\<rparr>)),
      sc_ListShardRanges = (\<lambda>w. Inr (filter (\<lambda>(n, sr). map_of (ms_ranges w) n = Some sr) (ms_ranges w))),
      sc_UpdateShardRange = (\<lambda>n sr w. if ms_refuse w then (Some (ApiFailure ''conflict''), w)
                                      else (None, w\<lparr>ms_ranges := (n, sr) # ms_ranges w\<rparr>)),
      sc_GetJob = (\<lambda>w name. if name \<in> set (ms_jobs w) then Inr \<lparr>js_Succeeded = 1, js_Conditions = []\<rparr> else Inl NotFound),
      sc_CreateJob = (\<lambda>j w. (None, w\<lparr>ms_jobs := rj_Name j # ms_jobs w\<rparr>)),
      sc_GetCluster = (\<lambda>w n. Inr demo_cluster),
      sc_SourceImage = (\<lambda>w n. Inr ''postgres:18''),
      sc_Upsert = (\<lambda>ob s img w. (None, w)),
      sc_GetSTS = (\<lambda>w n. Inr (Map.empty, Map.empty)),
      sc_PatchSTS = (\<lambda>n lb w. (None, w)),
      sc_ListTargetPods = (\<lambda>w cl sid. Inr [ready_target sid]),
      sc_PatchPod = (\<lambda>p q w. (None, w))\<rparr>"

interpretation splits: split_client mem_split ms_job "\<lambda>w. map_of (ms_ranges w)"
  by unfold_locales (auto simp: mem_split_def fun_eq_iff split: option.splits if_splits)

section \<open>Runs\<close>

text \<open>A sequence of reconciles; one entry of the list is the clock of one reconcile.\<close>

fun ssj_run :: "CondLib \<Rightarrow> 'w SplitClient \<Rightarrow> string \<Rightarrow> time list \<Rightarrow> 'w \<Rightarrow> 'w" where
  "ssj_run L c ct [] w = w"
| "ssj_run L c ct (now # ts) w = ssj_run L c ct ts (snd (Reconcile_SSJ L c ct now w))"

text \<open>The state of a split of the routing table \<open>sr\<close>, kept under the name \<open>n\<close>, in a world whose tables were
  \<open>vs\<close> at the start. Entries of the new table may occur more than once.\<close>

definition switched :: "ShardSplitJob \<Rightarrow> ShardRangeSpec \<Rightarrow> ShardRangeSpec \<Rightarrow> bool" where
  "switched j sr x \<longleftrightarrow>
     set (sr_Ranges x) = set (mergeSplitRanges (sr_Ranges sr) (sj_Sources j) (sj_Targets j)) \<and> \<not> sr_WriteBlocked x"

definition split_state :: "ShardSplitJob \<Rightarrow> ShardRangeSpec \<Rightarrow> ShardSplitJobPhase \<Rightarrow> ShardRangeSpec \<Rightarrow> bool" where
  "split_state j sr p x \<longleftrightarrow>
     sr_Cluster x = sr_Cluster sr \<and> sr_Keyspace x = sr_Keyspace sr \<and> sr_Vindex x = sr_Vindex sr \<and>
     (if p \<in> {ShardSplitPhaseCleanup, ShardSplitPhasePromote, ShardSplitPhaseCompleted} then switched j sr x
      else if p = ShardSplitPhaseRoutingUpdate
      then sr_Ranges x = sr_Ranges sr \<and> sr_WriteBlocked x \<or> switched j sr x
      else if p = ShardSplitPhaseFailed \<or> p = ShardSplitPhaseAborted
      then sr_Ranges x = sr_Ranges sr \<or> switched j sr x
      else sr_Ranges x = sr_Ranges sr)"

definition sole_table :: "ShardSplitJob \<Rightarrow> string \<Rightarrow> (string \<rightharpoonup> ShardRangeSpec) \<Rightarrow> bool" where
  "sole_table j n vs \<longleftrightarrow> (\<forall>m x. vs m = Some x \<longrightarrow> owns j x \<longrightarrow> m = n)"

definition fresh_targets :: "ShardSplitJob \<Rightarrow> bool" where
  "fresh_targets j \<longleftrightarrow> (\<forall>e\<in>set (flattenTargetRanges (sj_Targets j)). entry_Shard e \<notin> set (sj_Sources j))"

lemma switched_again:
  assumes "fresh_targets j" and "switched j sr x"
  shows "switched j sr (routed j x)"
  using assms unfolding switched_def fresh_targets_def routed_def mergeSplitRanges_def by auto

lemma split_spec_state:
  assumes "split_spec j p vs q vs'" and "vs n = Some x" and "split_state j sr p x"
    and "sole_table j n vs" and "fresh_targets j"
  shows "\<exists>x'. vs' = vs(n \<mapsto> x') \<and> split_state j sr q x'"
  using assms
proof (induction rule: split_spec.induct)
  case (wait p vs)
  then show ?case by (auto intro!: exI [of _ x])
next
  case (move p q vs)
  have "phase_step p q" by fact
  then have "split_state j sr q x"
    using move.prems(2) move.hyps(2,3) by (cases rule: phase_step.cases) (auto simp: split_state_def split: if_splits)
  with move.prems show ?case by (auto intro!: exI [of _ x])
next
  case (catchup vs vs' q)
  then obtain x' where "vs' = vs(n \<mapsto> x')" "x' = x \<or> x' = x\<lparr>sr_WriteBlocked := True\<rparr>"
    unfolding block_effect_def sole_table_def by (metis fun_upd_triv option.inject)
  moreover from this catchup have "split_state j sr q x'" by (auto simp: split_state_def)
  ultimately show ?case by blast
next
  case (block vs vs' q)
  then obtain x' where x': "vs' = vs(n \<mapsto> x')" "x' = x \<or> x' = x\<lparr>sr_WriteBlocked := True\<rparr>"
    unfolding block_effect_def sole_table_def by (metis fun_upd_triv option.inject)
  have "split_state j sr q x'"
  proof (cases "q = ShardSplitPhaseCutover")
    case True
    with x' block show ?thesis by (auto simp: split_state_def)
  next
    case False
    then have q: "q = ShardSplitPhaseRoutingUpdate" and b: "write_blocked j vs'" using block.hyps by auto
    from b obtain m y where y: "vs' m = Some y" "owns j y" "sr_WriteBlocked y" unfolding write_blocked_def by blast
    have "m = n"
      using y x' block.prems(3) unfolding sole_table_def by (cases "m = n") auto
    with y x' have "sr_WriteBlocked x'" by simp
    with x' q block.prems(2) show ?thesis by (auto simp: split_state_def)
  qed
  with x' show ?case by blast
next
  case (route vs vs' q)
  then have "vs' = vs(n \<mapsto> routed j x)" unfolding switches_def sole_table_def by (metis option.inject)
  moreover have "switched j sr (routed j x)"
  proof -
    from route.prems(2) consider "sr_Ranges x = sr_Ranges sr" | "switched j sr x"
      by (auto simp: split_state_def)
    then show ?thesis
    proof cases
      case 1
      then show ?thesis by (simp add: switched_def routed_def)
    next
      case 2
      with route.prems(4) show ?thesis by (rule switched_again)
    qed
  qed
  then have "split_state j sr q (routed j x)"
    using route.hyps(2) route.prems(2) by (auto simp: split_state_def routed_def)
  ultimately show ?case by blast
next
  case (release vs vs' p)
  then obtain x' where "vs' = vs(n \<mapsto> x')" "x' = x \<or> x' = x\<lparr>sr_WriteBlocked := False\<rparr>"
    unfolding block_effect_def sole_table_def by (metis fun_upd_triv option.inject)
  moreover from this release have "split_state j sr p x'" by (auto simp: split_state_def switched_def)
  ultimately show ?case by blast
qed

section \<open>Invariants of a run\<close>

definition late :: "ShardSplitJobPhase set" where
  "late = {ShardSplitPhaseCleanup, ShardSplitPhasePromote, ShardSplitPhaseCompleted, ShardSplitPhaseFailed}"

lemma split_spec_switched:
  assumes "split_spec j p vs q vs'" and "p \<in> late" and "vs n = Some x" and "switched j sr x" and "sole_table j n vs"
  shows "q \<in> late \<and> (\<exists>x'. vs' = vs(n \<mapsto> x') \<and> switched j sr x')"
  using assms
proof (induction rule: split_spec.induct)
  case (wait p vs)
  then show ?case by (auto intro!: exI [of _ x])
next
  case (move p q vs)
  from move.hyps(1) move.prems(1) have "q \<in> late" by (cases rule: phase_step.cases) (auto simp: late_def)
  with move.prems show ?case by (auto intro!: exI [of _ x])
next
  case (release vs vs' p)
  then obtain x' where "vs' = vs(n \<mapsto> x')" "x' = x \<or> x' = x\<lparr>sr_WriteBlocked := False\<rparr>"
    unfolding block_effect_def sole_table_def by (metis fun_upd_triv option.inject)
  with release show ?case by (auto simp: switched_def)
qed (simp_all add: late_def)

lemma spec_of_cong:
  assumes "spec_of j' = spec_of j"
  shows "split_state j' = split_state j" "switched j' = switched j" "sole_table j' = sole_table j"
    "fresh_targets j' = fresh_targets j" "sj_Cluster j' = sj_Cluster j"
proof -
  have eq: "sj_Cluster j' = sj_Cluster j" "sj_Keyspace j' = sj_Keyspace j" "sj_Sources j' = sj_Sources j" "sj_Targets j' = sj_Targets j"
    using assms by (simp_all add: spec_of_def)
  show sw: "switched j' = switched j" by (simp add: fun_eq_iff switched_def eq)
  show "split_state j' = split_state j" by (simp add: fun_eq_iff split_state_def sw)
  show "sole_table j' = sole_table j" by (simp add: fun_eq_iff sole_table_def owns_def eq)
  show "fresh_targets j' = fresh_targets j" by (simp add: fresh_targets_def eq)
  show "sj_Cluster j' = sj_Cluster j" by (rule eq)
qed

lemma sole_table_upd: "sole_table j n vs \<Longrightarrow> sole_table j n (vs(n \<mapsto> x))"
  by (simp add: sole_table_def)

context split_client
begin

definition delete_started :: "string \<Rightarrow> 'w \<Rightarrow> bool" where
  "delete_started cl w \<longleftrightarrow> (\<exists>t js. sc_GetJob c w (reshardJobName cl t ModeDelete) = Inr js)"

lemma kd_delete_started: "kd cl w w' \<Longrightarrow> delete_started cl w' = delete_started cl w"
  by (simp add: kd_def delete_started_def)

definition run_inv :: "ShardSplitJob \<Rightarrow> string \<Rightarrow> ShardRangeSpec \<Rightarrow> (string \<rightharpoonup> ShardRangeSpec) \<Rightarrow> 'w \<Rightarrow> bool" where
  "run_inv j n sr vs w \<longleftrightarrow>
     (\<exists>j' x. job_of w = Some j' \<and> spec_of j' = spec_of j \<and> ranges_of w = vs(n \<mapsto> x) \<and> split_state j sr (sj_Phase j') x \<and>
        (delete_started (sj_Cluster j) w \<longrightarrow> sj_Phase j' \<in> late \<and> switched j sr x))"

lemma Reconcile_run_inv:
  assumes inv: "run_inv j n sr vs w" and sole: "sole_table j n vs" and fresh: "fresh_targets j"
    and run: "Reconcile_SSJ L c ct now w = (r, w')"
  shows "run_inv j n sr vs w'"
proof -
  obtain i x where i: "job_of w = Some i" "spec_of i = spec_of j" and x: "ranges_of w = vs(n \<mapsto> x)"
    and st: "split_state j sr (sj_Phase i) x"
    and del: "delete_started (sj_Cluster j) w \<Longrightarrow> sj_Phase i \<in> late \<and> switched j sr x"
    using inv unfolding run_inv_def by blast
  note cong = spec_of_cong [OF i(2)]
  show ?thesis
  proof (cases "w' = w")
    case False
    then obtain q where q: "stored i q w'" "split_spec i (sj_Phase i) (vs(n \<mapsto> x)) q (ranges_of w')"
      using Reconcile_refines [OF run] i(1) x unfolding refines_def by auto
    obtain x' where x': "ranges_of w' = vs(n \<mapsto> x')" "split_state j sr q x'"
      using split_spec_state [OF q(2), of n x sr] st fresh sole_table_upd [OF sole] cong by auto
    have "q \<in> late \<and> switched j sr x'" if d: "delete_started (sj_Cluster j) w'"
    proof -
      have "sj_Phase i \<in> late \<and> switched j sr x"
      proof (cases "sj_Phase i = ShardSplitPhaseCleanup")
        case True
        with st show ?thesis by (simp add: late_def split_state_def)
      next
        case False
        with Reconcile_kd [OF run i(1)] d del cong(5) show ?thesis by (simp add: kd_delete_started)
      qed
      then show ?thesis
        using split_spec_switched [OF q(2), of n x sr] sole_table_upd [OF sole] cong x'(1)
        by (auto dest: map_upd_eqD1)
    qed
    with q(1) x' i(2) show ?thesis unfolding run_inv_def stored_def by auto
  qed (use inv in simp)
qed

lemma ssj_run_inv:
  "run_inv j n sr vs w \<Longrightarrow> sole_table j n vs \<Longrightarrow> fresh_targets j \<Longrightarrow> run_inv j n sr vs (ssj_run L c ct ts w)"
proof (induction ts arbitrary: w)
  case (Cons now ts)
  then show ?case
    using Reconcile_run_inv [of j n sr vs w L ct now] by (metis prod.collapse ssj_run.simps(2))
qed simp

lemma fresh_run_inv:
  assumes "job_of w = Some j" and "sj_Phase j = PhaseNone" and "ranges_of w n = Some sr"
    and "\<nexists>t js. sc_GetJob c w (reshardJobName (sj_Cluster j) t ModeDelete) = Inr js"
  shows "run_inv j n sr (ranges_of w) w"
proof -
  have "ranges_of w = (ranges_of w)(n \<mapsto> sr)" using assms(3) by (simp add: fun_upd_idem)
  moreover have "split_state j sr PhaseNone sr" by (simp add: split_state_def)
  ultimately show ?thesis
    using assms unfolding run_inv_def delete_started_def by (intro exI [of _ j] exI [of _ sr]) auto
qed

end

section \<open>A concrete split\<close>

definition demo_table :: ShardRangeSpec where
  "demo_table =
     \<lparr>sr_Cluster = ''demo'', sr_Keyspace = ''ks'',
      sr_Vindex = \<lparr>vindex_Type = VindexTypeHash, vindex_Column = ''id'', vindex_Function = VindexHashMurmur3,
                   vindex_VirtualNodes = 0\<rparr>,
      sr_Ranges = [demo_entry ''0x00000000'' ''0x7fffffff'' ''shard-0'', demo_entry ''0x80000000'' ''0xffffffff'' ''shard-1''],
      sr_ReferenceTables = [], sr_WriteBlocked = False\<rparr>"

definition demo_split :: ShardSplitJob where
  "demo_split =
     \<lparr>sj_Name = ''split'', sj_Namespace = ''db'', sj_Generation = 1, sj_Annotations = Map.empty, sj_Cluster = ''demo'',
      sj_Keyspace = ''ks'', sj_Direction = ShardSplitDirectionSplit, sj_Sources = [''shard-0''],
      sj_Targets = [\<lparr>tg_ShardID = ''s0a'', tg_Ranges = [demo_entry ''0x00000000'' ''0x3fffffff'' ''s0a'']\<rparr>,
                    \<lparr>tg_ShardID = ''s0b'', tg_Ranges = [demo_entry ''0x40000000'' ''0x7fffffff'' ''s0b'']\<rparr>],
      sj_CDCMaxLag = 0, sj_AllowForwardOnly = False, sj_Online = False, sj_Phase = PhaseNone, sj_ObservedGeneration = 0,
      sj_StartedAt = None, sj_CompletedAt = None, sj_CutoverStartedAt = None, sj_FailureReason = [], sj_Conditions = []\<rparr>"

definition demo_splits :: SplitStore where
  "demo_splits =
     \<lparr>ms_job = Some demo_split, ms_ranges = [(''ks'', demo_table)], ms_jobs = [], ms_refuse = False, ms_lose = False\<rparr>"

abbreviation demo_run :: "nat \<Rightarrow> SplitStore" where
  "demo_run k \<equiv> ssj_run list_conditions mem_split [] (replicate k 0) demo_splits"

lemma demo_run_completes: "map_option sj_Phase (ms_job (demo_run 12)) = Some ShardSplitPhaseCompleted"
  by code_simp

section \<open>Properties\<close>

text \<open>C2: The controller implements the split protocol. Whatever the API answers, one reconcile of a stored
  job leaves the job's specification as it is and takes one step of \<open>split_spec\<close>: it waits, moves to
  the next phase or to \<open>Failed\<close>, blocks writes in \<open>CDCCatchup\<close> or \<open>Cutover\<close>, replaces the source's ranges
  in \<open>RoutingUpdate\<close>, or releases the block of a failed online split.\<close>

theorem Reconcile_refines_split_spec:
  assumes "split_client c job_of ranges_of" and "Reconcile_SSJ L c ct now w = (r, w')" and "job_of w = Some j"
  shows "\<exists>j'. job_of w' = Some j' \<and> spec_of j' = spec_of j \<and>
    split_spec j (sj_Phase j) (ranges_of w) (sj_Phase j') (ranges_of w')"
  using split_client.Reconcile_refines [OF assms(1,2)] assms(3)
  unfolding split_client.refines_def [OF assms(1)] split_client.stored_def [OF assms(1)]
  by (auto intro: split_spec.wait)

theorem Reconcile_refines_split_spec_witness:
  "split_spec demo_split PhaseNone (map_of (ms_ranges demo_splits)) ShardSplitPhaseSnapshotWAL
     (map_of (ms_ranges (demo_run 1)))"
proof -
  have ph: "map_option sj_Phase (ms_job (demo_run 1)) = Some ShardSplitPhaseSnapshotWAL" by code_simp
  have run: "Reconcile_SSJ list_conditions mem_split [] 0 demo_splits =
      (fst (Reconcile_SSJ list_conditions mem_split [] 0 demo_splits), demo_run 1)" by simp
  have job: "ms_job demo_splits = Some demo_split" and p: "sj_Phase demo_split = PhaseNone"
    by (simp_all add: demo_splits_def demo_split_def)
  from Reconcile_refines_split_spec [OF splits.split_client_axioms run job] ph p
  show ?thesis by auto
qed


lemma demo_split_setup:
  "ms_job demo_splits = Some demo_split" "sj_Phase demo_split = PhaseNone"
  "map_of (ms_ranges demo_splits) ''ks'' = Some demo_table"
  "sole_table demo_split ''ks'' (map_of (ms_ranges demo_splits))" "fresh_targets demo_split"
  "\<nexists>t js. sc_GetJob mem_split demo_splits (reshardJobName (sj_Cluster demo_split) t ModeDelete) = Inr js"
  by (simp_all add: demo_splits_def demo_split_def sole_table_def fresh_targets_def flattenTargetRanges_def demo_entry_def
      mem_split_def)


fun phase_changes :: "CondLib \<Rightarrow> 'w SplitClient \<Rightarrow> string \<Rightarrow> ('w \<Rightarrow> ShardSplitJob option) \<Rightarrow> time list \<Rightarrow> 'w \<Rightarrow> nat" where
  "phase_changes L c ct job_of [] w = 0"
| "phase_changes L c ct job_of (now # ts) w =
     (let w' = snd (Reconcile_SSJ L c ct now w)
      in (if map_option sj_Phase (job_of w') = map_option sj_Phase (job_of w) then 0 else 1) +
         phase_changes L c ct job_of ts w')"

lemma split_spec_phase: "split_spec j p vs q vs' \<Longrightarrow> q = p \<or> phase_step p q"
  by (induction rule: split_spec.induct) (auto intro: phase_step.intros)

lemma split_phase_changes_rank:
  assumes "split_client c job_of ranges_of" and "job_of w = Some j"
  shows "\<exists>j'. job_of (ssj_run L c ct ts w) = Some j' \<and>
    phase_changes L c ct job_of ts w + phase_rank (sj_Phase j) \<le> phase_rank (sj_Phase j') \<and>
    (terminal (sj_Phase j) \<longrightarrow> sj_Phase j' = sj_Phase j)"
  using assms(2)
proof (induction ts arbitrary: w j)
  case (Cons now ts)
  obtain r w1 where run: "Reconcile_SSJ L c ct now w = (r, w1)" by fastforce
  obtain j1 where j1: "job_of w1 = Some j1" "sj_Phase j1 = sj_Phase j \<or> phase_step (sj_Phase j) (sj_Phase j1)"
    using split_client.Reconcile_refines [OF assms(1) run] Cons.prems
    unfolding split_client.refines_def [OF assms(1)] split_client.stored_def [OF assms(1)]
    by (auto dest: split_spec_phase)
  obtain j' where j': "job_of (ssj_run L c ct ts w1) = Some j'"
    "phase_changes L c ct job_of ts w1 + phase_rank (sj_Phase j1) \<le> phase_rank (sj_Phase j')"
    "terminal (sj_Phase j1) \<longrightarrow> sj_Phase j' = sj_Phase j1"
    using Cons.IH [OF j1(1)] by blast
  from j1(2) show ?case
  proof
    assume "sj_Phase j1 = sj_Phase j"
    with run j1(1) j' Cons.prems show ?thesis by (auto simp: Let_def)
  next
    assume s: "phase_step (sj_Phase j) (sj_Phase j1)"
    with phase_step_rank [OF s] phase_step_terminal [OF s] run j1(1) j' Cons.prems show ?thesis
      by (auto simp: Let_def)
  qed
qed simp

text \<open>C21: A split job comes to rest. Along any sequence of reconciles its phase changes at most ten times, each
  time to a phase of higher rank, and a job that has completed, failed or been aborted keeps its phase.\<close>

theorem split_phase_changes_bounded:
  assumes "split_client c job_of ranges_of" and "job_of w = Some j" and "w' = ssj_run L c ct ts w"
  shows "\<exists>j'. job_of w' = Some j' \<and>
    phase_changes L c ct job_of ts w + phase_rank (sj_Phase j) \<le> phase_rank (sj_Phase j') \<and>
    phase_rank (sj_Phase j') \<le> 10 \<and> (terminal (sj_Phase j) \<longrightarrow> sj_Phase j' = sj_Phase j)"
  using split_phase_changes_rank [OF assms(1,2), of L ct ts] phase_rank_le assms(3) by blast

theorem split_phase_changes_bounded_witness:
  "phase_changes list_conditions mem_split [] ms_job (replicate 40 0) demo_splits \<le> 10"
  using split_phase_changes_bounded [OF splits.split_client_axioms demo_split_setup(1) refl,
      of list_conditions "[]" "replicate 40 0"] by auto

lemma covers_exactly_count:
  "covers_exactly a lo hi \<Longrightarrow> covers_exactly b lo hi \<Longrightarrow>
   length (filter (entry_covers h) a) = length (filter (entry_covers h) b)"
  by (simp add: covers_exactly_def)

lemma covered_count: "e \<in> set es \<Longrightarrow> entry_covers h e \<Longrightarrow> 0 < length (filter (entry_covers h) es)"
  by (auto simp: filter_empty_conv)

lemma count_covered: "0 < length (filter (entry_covers h) es) \<Longrightarrow> \<exists>e\<in>set es. entry_covers h e"
  by (auto simp: filter_empty_conv)

text \<open>C4: A plan that covers the source preserves every key. When the targets cover exactly the hash values of
  the source's entries, as \<open>ValidateSplitPlan\<close> decides, switching a validated hash table gives a validated
  table: every key of another shard keeps its shard, every key of the source goes to a target, and writes
  are open.\<close>

theorem split_preserves_routing:
  assumes "split_client c job_of ranges_of" and "applyRouting c j w = (None, w')" and "ranges_of w n = Some sr"
    and "sole_table j n (ranges_of w)" and "vindex_Type (sr_Vindex sr) = VindexTypeHash" and "ValidateNoOverlap sr = Inr ()"
    and "\<forall>e\<in>set (sr_Ranges sr) \<union> set (flattenTargetRanges (sj_Targets j)). canonical_entry e"
    and "ValidateSplitPlan (filter (\<lambda>e. entry_Shard e \<in> set (sj_Sources j)) (sr_Ranges sr)) (flattenTargetRanges (sj_Targets j)) = Inr ()"
  shows "\<exists>x. ranges_of w' n = Some x \<and> ValidateNoOverlap x = Inr () \<and> \<not> sr_WriteBlocked x \<and>
    (\<forall>key s. resolveHash sr key = Inr s \<longrightarrow>
       (if s \<in> set (sj_Sources j)
        then \<exists>e\<in>set (flattenTargetRanges (sj_Targets j)). resolveHash x key = Inr (entry_Shard e)
        else resolveHash x key = Inr s))"
proof -
  let ?S = "filter (\<lambda>e. entry_Shard e \<in> set (sj_Sources j)) (sr_Ranges sr)"
  let ?O = "filter (\<lambda>e. entry_Shard e \<notin> set (sj_Sources j)) (sr_Ranges sr)"
  let ?T = "flattenTargetRanges (sj_Targets j)"
  let ?n = "\<lambda>h es. length (filter (entry_covers h) es)"
  define x where "x = routed j sr"
  have x: "ranges_of w' n = Some x" "sr_Vindex x = sr_Vindex sr" "sr_Ranges x = ?O @ ?T"
  proof -
    obtain m y where y: "ranges_of w m = Some y" "owns j y" "ranges_of w' = (ranges_of w)(m \<mapsto> routed j y)"
      using split_client.applyRouting_spec [OF assms(1,2)] by blast
    then have "m = n" using assms(4) unfolding sole_table_def by blast
    with y assms(3) show "ranges_of w' n = Some x" by (simp add: x_def)
  qed (simp_all add: x_def routed_def mergeSplitRanges_def)
  obtain lo hi where cov: "covers_exactly ?S lo hi" "covers_exactly ?T lo hi"
    using ValidateSplitPlan_covers [of ?S ?T] assms(7,8) by auto
  have wb: "\<forall>e\<in>set (sr_Ranges sr). well_bounded e" and one: "?n h (sr_Ranges sr) \<le> 1" for h
    using assms(5,6) by (simp_all add: ValidateNoOverlap_iff)
  have split: "?n h (sr_Ranges sr) = ?n h ?S + ?n h ?O" for h
    using sum_length_filter_compl [of "\<lambda>e. entry_Shard e \<in> set (sj_Sources j)" "filter (entry_covers h) (sr_Ranges sr)"]
    by (simp add: conj_commute)
  have T: "?n h ?T = ?n h ?S" for h using cov by (simp add: covers_exactly_count)
  have one': "?n h (sr_Ranges x) \<le> 1" for h using one [of h] split [of h] T [of h] by (simp add: x(3))
  have wb': "\<forall>e\<in>set (sr_Ranges x). well_bounded e" using wb cov(2) by (auto simp: x(3) covers_exactly_def)
  have ok: "ValidateNoOverlap x = Inr ()"
    using ValidateNoOverlap_iff [of x] assms(5) one' wb' x(2) by simp
  have "if s \<in> set (sj_Sources j) then \<exists>e\<in>set ?T. resolveHash x key = Inr (entry_Shard e) else resolveHash x key = Inr s"
    if res: "resolveHash sr key = Inr s" for key s
  proof -
    from res obtain h where h: "hashKey (vindex_Function (sr_Vindex sr)) key = Inr h"
      by (auto simp: resolveHash_def split: sum.splits)
    note new = resolveHash_valid [of x, unfolded x(2), OF assms(5) ok h]
    obtain e where e: "e \<in> set (sr_Ranges sr)" "entry_covers h e" "entry_Shard e = s"
      using resolveHash_valid [OF assms(5,6) h] res by blast
    show ?thesis
    proof (cases "s \<in> set (sj_Sources j)")
      case True
      then have "0 < ?n h ?S" using e by (intro covered_count) auto
      then have "0 < ?n h ?T" by (simp only: T)
      then obtain t where t: "t \<in> set ?T" "entry_covers h t" using count_covered by blast
      then have "resolveHash x key = Inr (entry_Shard t)" using new [of "entry_Shard t"] by (auto simp: x(3))
      with t(1) True show ?thesis by auto
    next
      case False
      then have "e \<in> set (sr_Ranges x)" using e by (simp add: x(3))
      then have "resolveHash x key = Inr s" using new [of s] e by blast
      with False show ?thesis by simp
    qed
  qed
  moreover have "\<not> sr_WriteBlocked x" by (simp add: x_def routed_def)
  ultimately show ?thesis using x(1) ok by blast
qed

theorem split_preserves_routing_witness:
  "\<exists>x e. map_of (ms_ranges (snd (applyRouting mem_split demo_split demo_splits))) ''ks'' = Some x \<and>
     e \<in> set (flattenTargetRanges (sj_Targets demo_split)) \<and> resolveHash x ''e'' = Inr (entry_Shard e)"
proof -
  have run: "fst (applyRouting mem_split demo_split demo_splits) = None" by code_simp
  have ty: "vindex_Type (sr_Vindex demo_table) = VindexTypeHash" by (simp add: demo_table_def)
  have ok: "ValidateNoOverlap demo_table = Inr ()" by code_simp
  have can: "list_all canonical_entry (sr_Ranges demo_table @ flattenTargetRanges (sj_Targets demo_split))" by code_simp
  have plan: "ValidateSplitPlan (filter (\<lambda>e. entry_Shard e \<in> set (sj_Sources demo_split)) (sr_Ranges demo_table))
      (flattenTargetRanges (sj_Targets demo_split)) = Inr ()" by code_simp
  have old: "resolveHash demo_table ''e'' = Inr ''shard-0''" by code_simp
  have src: "''shard-0'' \<in> set (sj_Sources demo_split)" by (simp add: demo_split_def)
  obtain w' where w': "applyRouting mem_split demo_split demo_splits = (None, w')" using run by (metis prod.collapse)
  from can have "\<forall>e\<in>set (sr_Ranges demo_table) \<union> set (flattenTargetRanges (sj_Targets demo_split)). canonical_entry e"
    by (auto simp: list_all_iff)
  from split_preserves_routing [OF splits.split_client_axioms w' demo_split_setup(3,4) ty ok this plan]
  obtain x where x: "map_of (ms_ranges w') ''ks'' = Some x"
    "\<And>key s. resolveHash demo_table key = Inr s \<Longrightarrow> s \<in> set (sj_Sources demo_split) \<Longrightarrow>
       \<exists>e\<in>set (flattenTargetRanges (sj_Targets demo_split)). resolveHash x key = Inr (entry_Shard e)"
    by fastforce
  from x(1) x(2) [OF old src] w' show ?thesis by auto
qed


lemma failed_offline_rests:
  assumes "split_client c job_of ranges_of" and "job_of w = Some j" and "sj_Phase j = ShardSplitPhaseFailed" and "\<not> sj_Online j"
  shows "ssj_run L c ct ts w = w"
proof (induction ts)
  case (Cons now ts)
  have "snd (Reconcile_SSJ L c ct now w) = w"
  proof (cases "sc_GetSSJ c w")
    case (Inl e)
    then show ?thesis by (cases e) (simp_all add: Reconcile_SSJ_def)
  next
    case (Inr i)
    then have "i = j" using split_client.get_ssj [OF assms(1)] assms(2) by fastforce
    with Inr assms(3,4) show ?thesis by (simp add: Reconcile_SSJ_def)
  qed
  with Cons show ?case by simp
qed simp

text \<open>C36: An offline split that fails while it switches the routing blocks writes for good. When \<open>applyRouting\<close>
  fails without effect, for example on a conflict of the update, the job is \<open>Failed\<close>; since only online splits
  are cleaned up after a failure, no later reconcile of the job releases the write-block that \<open>Cutover\<close> set.\<close>

theorem offline_failure_keeps_write_block:
  assumes "split_client c job_of ranges_of" and "sc_GetSSJ c w = Inr j" and "sj_Phase j = ShardSplitPhaseRoutingUpdate"
    and "\<not> sj_Online j" and "unsupportedSplitSpecReason j = []" and "write_blocked j (ranges_of w)"
    and "applyRouting c j w = (Some e, w1)" and "ranges_of w1 = ranges_of w"
    and "sc_UpdateStatus c (fail_job now (error_text e) j) w1 = (None, w2)"
  shows "\<exists>j'. job_of (ssj_run L c ct (now # ts) w) = Some j' \<and> sj_Phase j' = ShardSplitPhaseFailed \<and>
    write_blocked j (ranges_of (ssj_run L c ct (now # ts) w))"
proof -
  have "snd (Reconcile_SSJ L c ct now w) = w2"
    using assms(2-5,7,9) by (simp add: Reconcile_SSJ_def run_phase_def store_failure_def)
  moreover have w2: "job_of w2 = Some (fail_job now (error_text e) j)" "ranges_of w2 = ranges_of w"
    using split_client.update_status [OF assms(1,9)] assms(8) by auto
  moreover have "ssj_run L c ct ts w2 = w2"
    by (rule failed_offline_rests [OF assms(1) w2(1)]) (use assms(4) in \<open>simp_all add: fail_job_def\<close>)
  ultimately show ?thesis using assms(6) by (simp add: fail_job_def)
qed

text \<open>After seven reconciles the demonstration split is about to switch; then updates are refused.\<close>

definition stuck_split :: SplitStore where
  "stuck_split = (demo_run 7)\<lparr>ms_refuse := True\<rparr>"

theorem offline_failure_keeps_write_block_witness:
  "\<exists>j' n x. ms_job (ssj_run list_conditions mem_split [] (0 # replicate 20 0) stuck_split) = Some j' \<and>
     sj_Phase j' = ShardSplitPhaseFailed \<and>
     map_of (ms_ranges (ssj_run list_conditions mem_split [] (0 # replicate 20 0) stuck_split)) n = Some x \<and> sr_WriteBlocked x"
proof -
  have facts: "map_option (\<lambda>j. (sj_Phase j, sj_Online j, unsupportedSplitSpecReason j, sj_Cluster j, sj_Keyspace j)) (ms_job stuck_split) =
      Some (ShardSplitPhaseRoutingUpdate, False, [], ''demo'', ''ks'')"
    "map_option (\<lambda>x. (sr_WriteBlocked x, sr_Cluster x, sr_Keyspace x)) (map_of (ms_ranges stuck_split) ''ks'') =
      Some (True, ''demo'', ''ks'')"
    by code_simp+
  then obtain j x where j: "ms_job stuck_split = Some j" "sj_Phase j = ShardSplitPhaseRoutingUpdate" "\<not> sj_Online j"
      "unsupportedSplitSpecReason j = []" "sj_Cluster j = ''demo''" "sj_Keyspace j = ''ks''"
    and x: "map_of (ms_ranges stuck_split) ''ks'' = Some x" "sr_WriteBlocked x" "sr_Cluster x = ''demo''" "sr_Keyspace x = ''ks''"
    by auto
  have get: "sc_GetSSJ mem_split stuck_split = Inr j" using j(1) by (simp add: mem_split_def)
  have blocked: "write_blocked j (map_of (ms_ranges stuck_split))"
    unfolding write_blocked_def owns_def using j x by auto
  have refused: "map_option (\<lambda>j. fst (applyRouting mem_split j stuck_split) = None) (ms_job stuck_split) = Some False"
    by code_simp
  have same: "snd (applyRouting mem_split j stuck_split) = stuck_split"
    by (auto simp: applyRouting_def mem_split_def stuck_split_def split: option.splits)
  obtain e where app: "applyRouting mem_split j stuck_split = (Some e, stuck_split)"
    using refused j(1) same by (metis (mono_tags) not_None_eq option.map(2) option.inject prod.collapse)
  have "ms_lose stuck_split = False" by code_simp
  then have upd: "sc_UpdateStatus mem_split (fail_job 0 (error_text e) j) stuck_split =
      (None, stuck_split\<lparr>ms_job := Some (fail_job 0 (error_text e) j)\<rparr>)"
    by (simp add: mem_split_def)
  from offline_failure_keeps_write_block [OF splits.split_client_axioms get j(2,3,4) blocked app refl upd,
      of list_conditions "[]" "replicate 20 0"]
  show ?thesis unfolding write_blocked_def by blast
qed

end
