(* ===== verification/Auto_Split.thy ===== *)
theory Auto_Split
  imports Shard_Split
begin

text \<open>
  Automatic splits: observation of the shards (\<open>autosplit_cpu.go\<close>), the triggers, the window in which a
  breach must last, and the decision loop \<open>reconcileAutoSplit\<close> that creates a \<open>ShardSplitJob\<close> for the
  first eligible shard (\<open>autosplit.go\<close>). The window is explicit state, a map from keys to the time of the
  first breach. Observed sizes are 64-bit integers; the products of \<open>pvcUtilizationBreached\<close> wrap around.
\<close>

section \<open>Observations\<close>

record ShardObservation =
  ob_ShardID :: string
  ob_SizeBytes :: int
  ob_CPUPercent :: int
  ob_P99LatencyMs :: int
  ob_PVCCapacityBytes :: int

definition no_observation :: ShardObservation where
  "no_observation = \<lparr>ob_ShardID = [], ob_SizeBytes = 0, ob_CPUPercent = 0, ob_P99LatencyMs = 0, ob_PVCCapacityBytes = 0\<rparr>"

definition statusShardObserver :: "PostgresCluster \<Rightarrow> ShardObservation list" where
  "statusShardObserver cluster =
     map (\<lambda>s. \<lparr>ob_ShardID = ss_Name s, ob_SizeBytes = ss_SizeBytes s, ob_CPUPercent = 0, ob_P99LatencyMs = 0,
               ob_PVCCapacityBytes = pc_StorageSize cluster\<rparr>)
         (filter (\<lambda>s. ss_Name s \<noteq> []) (pc_Shards cluster))"

text \<open>The metrics API: the \<open>cpu\<close> strings of a pod's containers (\<open>None\<close> for a container without one), or
  no container list; \<open>parse\<close> is \<open>resource.ParseQuantity\<close> in thousandths.\<close>

datatype MetricsError = MetricsNotFound | MetricsNoMatch | MetricsFailure string

record CpuAPI =
  cpu_PodMetrics :: "string \<Rightarrow> (MetricsError, string option list option) result"
  cpu_ParseQuantity :: "string \<Rightarrow> int option"
  cpu_Requests :: "string \<Rightarrow> (ApiError, int option list) result"

definition PodCPUUsageMillis :: "CpuAPI \<Rightarrow> string \<Rightarrow> (MetricsError, int option) result" where
  "PodCPUUsageMillis api podName =
     (case cpu_PodMetrics api podName of
        Inl MetricsNotFound \<Rightarrow> Inr None
      | Inl MetricsNoMatch \<Rightarrow> Inr None
      | Inl e \<Rightarrow> Inl e
      | Inr None \<Rightarrow> Inr None
      | Inr (Some containers) \<Rightarrow>
          Inr (Some (foldl (\<lambda>total c. case c of
              None \<Rightarrow> total
            | Some cpuStr \<Rightarrow> (case cpu_ParseQuantity api cpuStr of None \<Rightarrow> total | Some q \<Rightarrow> wrap64 (total + q)))
            0 containers)))"

definition podCPURequestMillis :: "CpuAPI \<Rightarrow> string \<Rightarrow> int" where
  "podCPURequestMillis api podName =
     (case cpu_Requests api podName of
        Inl e \<Rightarrow> 0
      | Inr reqs \<Rightarrow> foldl (\<lambda>total r. case r of None \<Rightarrow> total | Some q \<Rightarrow> wrap64 (total + q)) 0 reqs)"

text \<open>The quotient of \<open>int64\<close> values truncates; both operands are positive here unless the product wrapped.\<close>

definition quot64 :: "int \<Rightarrow> int \<Rightarrow> int" where
  "quot64 a b = wrap64 (sgn a * sgn b * (\<bar>a\<bar> div \<bar>b\<bar>))"

definition cpuPercentForPod :: "CpuAPI \<Rightarrow> string \<Rightarrow> int option" where
  "cpuPercentForPod api podName =
     (case PodCPUUsageMillis api podName of
        Inl e \<Rightarrow> None
      | Inr None \<Rightarrow> None
      | Inr (Some usedMillis) \<Rightarrow>
          if usedMillis \<le> 0 then None
          else
            let reqMillis = podCPURequestMillis api podName in
            if reqMillis \<le> 0 then None
            else
              let pct = quot64 (wrap64 (usedMillis * 100)) reqMillis;
                  pct = (if pct < 0 then 0 else pct)
              in Some (wrap32 pct))"

definition primary_pods :: "PostgresCluster \<Rightarrow> string \<rightharpoonup> string" where
  "primary_pods cluster =
     foldl (\<lambda>m s. case ss_Primary s of None \<Rightarrow> m | Some p \<Rightarrow> if ep_Pod p \<noteq> [] then m(ss_Name s \<mapsto> ep_Pod p) else m)
       Map.empty (pc_Shards cluster)"

definition cpuAugmentingObserver :: "CpuAPI \<Rightarrow> PostgresCluster \<Rightarrow> ShardObservation list" where
  "cpuAugmentingObserver api cluster =
     map (\<lambda>ob. case primary_pods cluster (ob_ShardID ob) of
                 None \<Rightarrow> ob
               | Some pod \<Rightarrow> (case cpuPercentForPod api pod of None \<Rightarrow> ob | Some pct \<Rightarrow> ob\<lparr>ob_CPUPercent := pct\<rparr>))
         (statusShardObserver cluster)"

section \<open>Triggers\<close>

definition bytesPerGB :: int where "bytesPerGB = 1000000000"

definition pvcUtilizationBreached :: "ShardObservation \<Rightarrow> int \<Rightarrow> bool" where
  "pvcUtilizationBreached ob thresholdPercent =
     (if ob_PVCCapacityBytes ob \<le> 0 \<or> ob_SizeBytes ob \<le> 0 then False
      else wrap64 (ob_SizeBytes ob * 100) \<ge> wrap64 (thresholdPercent * ob_PVCCapacityBytes ob))"

text \<open>The results are \<open>breached\<close> and which triggers are enabled.\<close>

record TriggerResult =
  tb_breached :: bool
  tb_enabledSize :: bool
  tb_enabledCPU :: bool
  tb_enabledLat :: bool
  tb_enabledPVC :: bool

definition autoSplitTriggerBreached :: "AutoSplitTriggers option \<Rightarrow> ShardObservation \<Rightarrow> TriggerResult" where
  "autoSplitTriggerBreached t ob =
     (let none = \<lparr>tb_breached = False, tb_enabledSize = False, tb_enabledCPU = False, tb_enabledLat = False, tb_enabledPVC = False\<rparr>
      in case t of
        None \<Rightarrow> none
      | Some t \<Rightarrow>
          (let enabledSize = 0 < tr_SizeThresholdGB t; enabledCPU = 0 < tr_CPUPercent t;
               enabledLat = 0 < tr_P99LatencyMs t; enabledPVC = 0 < tr_PVCUtilizationPercent t;
               answer = (\<lambda>b. \<lparr>tb_breached = b, tb_enabledSize = enabledSize, tb_enabledCPU = enabledCPU,
                              tb_enabledLat = enabledLat, tb_enabledPVC = enabledPVC\<rparr>)
           in if \<not> enabledSize \<and> \<not> enabledCPU \<and> \<not> enabledLat \<and> \<not> enabledPVC then none
              else if enabledSize \<and> ob_SizeBytes ob < wrap64 (tr_SizeThresholdGB t * bytesPerGB) then answer False
              else if enabledCPU \<and> ob_CPUPercent ob < tr_CPUPercent t then answer False
              else if enabledLat \<and> ob_P99LatencyMs ob < tr_P99LatencyMs t then answer False
              else if enabledPVC \<and> \<not> pvcUtilizationBreached ob (tr_PVCUtilizationPercent t) then answer False
              else answer True))"

definition autoSplitSustained ::
  "string \<Rightarrow> bool \<Rightarrow> time \<Rightarrow> time \<Rightarrow> (string \<rightharpoonup> time) \<Rightarrow> bool \<times> (string \<rightharpoonup> time)" where
  "autoSplitSustained key breached now dur breach =
     (if \<not> breached then (False, breach(key := None))
      else case breach key of
        None \<Rightarrow> (dur = 0, breach(key \<mapsto> now))
      | Some first \<Rightarrow> (now - first \<ge> dur, breach))"

definition autoSplitDuration :: "AutoSplitTriggers option \<Rightarrow> time" where
  "autoSplitDuration t =
     (case t of None \<Rightarrow> 0 | Some t \<Rightarrow> if tr_DurationMinutes t \<le> 0 then 0 else tr_DurationMinutes t * minute)"

section \<open>The job of a split\<close>

text \<open>\<open>fmt.Sprintf("%06x", sum & 0xffffff)\<close>.\<close>

definition shortRangeHash :: "string \<Rightarrow> string \<Rightarrow> string" where
  "shortRangeHash lo hi = fixed_hex 6 (unat (crc32_ChecksumIEEE (bytes (lo @ ''-'' @ hi)) AND 0xffffff))"

definition computeHashSplitTargets :: "ShardRangeEntry \<Rightarrow> (router_error, ShardSplitTarget list) result" where
  "computeHashSplitTargets entry =
     (case SplitHashRange (entry_Lo entry) (entry_Hi entry) of
        Inl e \<Rightarrow> Inl e
      | Inr (lo0, hi0, lo1, hi1) \<Rightarrow>
          (let short = shortRangeHash (entry_Lo entry) (entry_Hi entry);
               id0 = ''as'' @ short @ ''a''; id1 = ''as'' @ short @ ''b''
           in Inr [\<lparr>tg_ShardID = id0, tg_Ranges = [\<lparr>entry_Lo = lo0, entry_Hi = hi0, entry_Shard = id0\<rparr>]\<rparr>,
                   \<lparr>tg_ShardID = id1, tg_Ranges = [\<lparr>entry_Lo = lo1, entry_Hi = hi1, entry_Shard = id1\<rparr>]\<rparr>]))"

definition sanitizeName :: "string \<Rightarrow> string" where
  "sanitizeName s =
     trim_with (\<lambda>c. c = CHR ''-'')
       (map (\<lambda>r. if CHR ''a'' \<le> r \<and> r \<le> CHR ''z'' \<or> CHR ''0'' \<le> r \<and> r \<le> CHR ''9'' then r else CHR ''-'') (ToLower s))"

definition autoSplitJobName :: "string \<Rightarrow> string \<Rightarrow> string \<Rightarrow> string \<Rightarrow> string" where
  "autoSplitJobName keyspace sourceShard lo hi =
     (let base = ''autosplit-'' @ sanitizeName keyspace @ ''-'' @ sanitizeName sourceShard @ ''-'' @ shortRangeHash lo hi;
          base = (if 63 < length base then take 63 base else base)
      in TrimRight (\<lambda>c. c = CHR ''-'') base)"

text \<open>Fields that the API server fills with their defaults have their zero value here.\<close>

definition buildAutoSplitJob ::
  "PostgresCluster \<Rightarrow> string \<Rightarrow> string \<Rightarrow> ShardRangeEntry \<Rightarrow> ShardSplitTarget list \<Rightarrow> bool \<Rightarrow> ShardSplitJob" where
  "buildAutoSplitJob cluster keyspace sourceShard sourceRange targets requireApproval =
     \<lparr>sj_Name = autoSplitJobName keyspace sourceShard (entry_Lo sourceRange) (entry_Hi sourceRange),
      sj_Namespace = pc_Namespace cluster, sj_Generation = 0,
      sj_Annotations = [AnnotationAutoSplit \<mapsto> ''true'',
                        AnnotationAutoSplitApproval \<mapsto> (if requireApproval then ''required'' else ''auto'')],
      sj_Cluster = pc_Name cluster, sj_Keyspace = keyspace, sj_Direction = ShardSplitDirectionSplit,
      sj_Sources = [sourceShard], sj_Targets = targets, sj_CDCMaxLag = 0, sj_AllowForwardOnly = False, sj_Online = False,
      sj_Phase = PhaseNone, sj_ObservedGeneration = 0, sj_StartedAt = None, sj_CompletedAt = None,
      sj_CutoverStartedAt = None, sj_FailureReason = [], sj_Conditions = []\<rparr>"

definition shardSplitJobActive :: "ShardSplitJob \<Rightarrow> bool" where
  "shardSplitJobActive ssj =
     (case sj_Phase ssj of
        ShardSplitPhaseCompleted \<Rightarrow> False
      | ShardSplitPhaseFailed \<Rightarrow> False
      | ShardSplitPhaseAborted \<Rightarrow> False
      | _ \<Rightarrow> True)"

section \<open>The decision loop\<close>

text \<open>The API calls of the loop; \<open>ac_CreateJob\<close> is the owner reference and the creation. An error of the owner
  reference and one of the creation have different messages, hence the two error constructors.\<close>

datatype CreateError = OwnerRefError string | CreateFailed ApiError

record 'w AutoClient =
  ac_ListJobs :: "'w \<Rightarrow> (ApiError, ShardSplitJob list) result"
  ac_ListShardRanges :: "'w \<Rightarrow> (ApiError, (string \<times> ShardRangeSpec) list) result"
  ac_CreateJob :: "ShardSplitJob \<Rightarrow> 'w \<Rightarrow> CreateError option \<times> 'w"

text \<open>The reasons, and the messages with what they report; the texts are not modelled.\<close>

definition autoSplitReasonEligible :: string where "autoSplitReasonEligible = ''SplitCandidate''"
definition autoSplitReasonNone :: string where "autoSplitReasonNone = ''NoCandidate''"
definition autoSplitReasonDisabled :: string where "autoSplitReasonDisabled = ''Disabled''"
definition autoSplitReasonInProgress :: string where "autoSplitReasonInProgress = ''SplitInProgress''"
definition autoSplitReasonUnsupported :: string where "autoSplitReasonUnsupported = ''UnsupportedVindex''"
definition autoSplitReasonNoMetrics :: string where "autoSplitReasonNoMetrics = ''MetricsSourceMissing''"

datatype AutoSplitMessage =
    MsgDisabled | MsgRequiresNative | MsgListJobs | MsgListRanges | MsgHashOnly | MsgLatencyUnsourced | MsgNoShard
  | MsgWaiting nat | MsgCannotSplit string router_error | MsgJobExists nat string | MsgOwnerRef | MsgCreateFailed ApiError
  | MsgCreated nat string

text \<open>\<open>candidate\<close>, and the variables of the loop.\<close>

record candidate =
  cd_keyspace :: string
  cd_shard :: string
  cd_entry :: ShardRangeEntry

record Scan =
  an_breach :: "string \<rightharpoonup> time"
  an_eligible :: nat
  an_chosen :: "candidate option"
  an_unsourcedTrigger :: bool
  an_unsupportedVindex :: bool

definition observe :: "ShardObservation list \<Rightarrow> string \<Rightarrow> ShardObservation" where
  "observe obs shard =
     (case foldl (\<lambda>m ob. m(ob_ShardID ob \<mapsto> ob)) Map.empty obs shard of None \<Rightarrow> no_observation | Some ob \<Rightarrow> ob)"

definition breach_key :: "PostgresCluster \<Rightarrow> string \<Rightarrow> string \<Rightarrow> string" where
  "breach_key cluster keyspace shard =
     pc_Namespace cluster @ ''/'' @ pc_Name cluster @ ''/'' @ keyspace @ ''/'' @ shard"

definition range_count :: "ShardRangeEntry list \<Rightarrow> string \<Rightarrow> nat" where
  "range_count ranges shard = length (filter (\<lambda>e. entry_Shard e = shard) ranges)"

definition entry_step ::
  "PostgresCluster \<Rightarrow> AutoSplitTriggers option \<Rightarrow> ShardObservation list \<Rightarrow> time \<Rightarrow> ShardRangeSpec \<Rightarrow> Scan \<Rightarrow> ShardRangeEntry \<Rightarrow> Scan" where
  "entry_step cluster triggers obs now sr s entry =
     (if entry_Shard entry = [] \<or> range_count (sr_Ranges sr) (entry_Shard entry) \<noteq> 1 then s
      else
        let t = autoSplitTriggerBreached triggers (observe obs (entry_Shard entry));
            s = (if tb_enabledLat t then s\<lparr>an_unsourcedTrigger := True\<rparr> else s);
            (sustained, breach) = autoSplitSustained (breach_key cluster (sr_Keyspace sr) (entry_Shard entry))
                                    (tb_breached t) now (autoSplitDuration triggers) (an_breach s);
            s = s\<lparr>an_breach := breach\<rparr>
        in if \<not> sustained then s
           else s\<lparr>an_eligible := Suc (an_eligible s),
                  an_chosen := (case an_chosen s of
                    None \<Rightarrow> Some \<lparr>cd_keyspace = sr_Keyspace sr, cd_shard = entry_Shard entry, cd_entry = entry\<rparr>
                  | Some cd \<Rightarrow> Some cd)\<rparr>)"

definition table_step ::
  "PostgresCluster \<Rightarrow> AutoSplitTriggers option \<Rightarrow> ShardObservation list \<Rightarrow> time \<Rightarrow> Scan \<Rightarrow> string \<times> ShardRangeSpec \<Rightarrow> Scan" where
  "table_step cluster triggers obs now s item =
     (let sr = snd item in
      if sr_Cluster sr \<noteq> pc_Name cluster then s
      else if vindex_Type (sr_Vindex sr) \<noteq> VindexTypeHash then s\<lparr>an_unsupportedVindex := True\<rparr>
      else foldl (entry_step cluster triggers obs now sr) s (sr_Ranges sr))"

text \<open>\<open>sort.Slice\<close> leaves the order of tables with the same keyspace open; the model keeps them in the order
  listed. \<open>obs\<close> are the answers of the observer.\<close>

definition scan_tables ::
  "PostgresCluster \<Rightarrow> AutoSplitTriggers option \<Rightarrow> ShardObservation list \<Rightarrow> time \<Rightarrow> (string \<times> ShardRangeSpec) list \<Rightarrow>
   (string \<rightharpoonup> time) \<Rightarrow> Scan" where
  "scan_tables cluster triggers obs now items breach =
     foldl (table_step cluster triggers obs now)
       \<lparr>an_breach = breach, an_eligible = 0, an_chosen = None, an_unsourcedTrigger = False, an_unsupportedVindex = False\<rparr>
       (sort_key (\<lambda>item. sr_Keyspace (snd item)) items)"

definition create_split ::
  "'w AutoClient \<Rightarrow> PostgresCluster \<Rightarrow> bool \<Rightarrow> ShardSplitJob list \<Rightarrow> nat \<Rightarrow> candidate \<Rightarrow> 'w \<Rightarrow>
   (nat \<times> string \<times> AutoSplitMessage) \<times> 'w" where
  "create_split c cluster requireApproval jobs eligible chosen w =
     (case computeHashSplitTargets (cd_entry chosen) of
        Inl e \<Rightarrow> ((eligible, autoSplitReasonNone, MsgCannotSplit (cd_shard chosen) e), w)
      | Inr targets \<Rightarrow>
          (let job = buildAutoSplitJob cluster (cd_keyspace chosen) (cd_shard chosen) (cd_entry chosen) targets requireApproval
           in if sj_Name job \<in> set (map sj_Name jobs) then ((eligible, autoSplitReasonEligible, MsgJobExists eligible (sj_Name job)), w)
              else case ac_CreateJob c job w of
                (Some (OwnerRefError e), w') \<Rightarrow> ((eligible, autoSplitReasonEligible, MsgOwnerRef), w')
              | (Some (CreateFailed e), w') \<Rightarrow> ((eligible, autoSplitReasonEligible, MsgCreateFailed e), w')
              | (None, w') \<Rightarrow> ((eligible, autoSplitReasonEligible, MsgCreated eligible (sj_Name job)), w')))"

definition reconcileAutoSplit ::
  "'w AutoClient \<Rightarrow> PostgresCluster \<Rightarrow> ShardObservation list \<Rightarrow> time \<Rightarrow> (string \<rightharpoonup> time) \<Rightarrow> 'w \<Rightarrow>
   (nat \<times> string \<times> AutoSplitMessage) \<times> (string \<rightharpoonup> time) \<times> 'w" where
  "reconcileAutoSplit c cluster obs now breach w =
     (case pc_AutoSplit cluster of
        None \<Rightarrow> ((0, autoSplitReasonDisabled, MsgDisabled), breach, w)
      | Some as \<Rightarrow>
          if \<not> as_Enabled as then ((0, autoSplitReasonDisabled, MsgDisabled), breach, w)
          else if pc_ShardingMode cluster \<noteq> ShardingModeNative
          then ((0, autoSplitReasonDisabled, MsgRequiresNative), breach, w)
          else case ac_ListJobs c w of
            Inl e \<Rightarrow> ((0, autoSplitReasonNone, MsgListJobs), breach, w)
          | Inr allJobs \<Rightarrow>
              (let jobs = filter (\<lambda>j. sj_Cluster j = pc_Name cluster) allJobs in
               case ac_ListShardRanges c w of
                 Inl e \<Rightarrow> ((0, autoSplitReasonNone, MsgListRanges), breach, w)
               | Inr items \<Rightarrow>
                   (let s = scan_tables cluster (as_Triggers as) obs now items breach in
                    case an_chosen s of
                      None \<Rightarrow>
                        ((0, if an_unsupportedVindex s then (autoSplitReasonUnsupported, MsgHashOnly)
                             else if an_unsourcedTrigger s then (autoSplitReasonNoMetrics, MsgLatencyUnsourced)
                             else (autoSplitReasonNone, MsgNoShard)), an_breach s, w)
                    | Some chosen \<Rightarrow>
                        if list_ex shardSplitJobActive jobs
                        then ((an_eligible s, autoSplitReasonInProgress, MsgWaiting (an_eligible s)), an_breach s, w)
                        else (case create_split c cluster (as_RequireApproval as) jobs (an_eligible s) chosen w of
                                (r, w') \<Rightarrow> (r, an_breach s, w')))))"

end
