(* ===== verification/Auto_Split_Correct.thy ===== *)
theory Auto_Split_Correct
  imports Auto_Split Split_Runs Sustained
begin

text \<open>
  Properties of automatic splits: a created job is a sound split of one shard, breaches must last, the
  utilisation trigger is exact below the range where its products overflow, and two ways in which
  automatic splitting comes to a halt.
\<close>

section \<open>The scan\<close>

definition scan_ok :: "PostgresCluster \<Rightarrow> (string \<times> ShardRangeSpec) list \<Rightarrow> Scan \<Rightarrow> bool" where
  "scan_ok cluster items s \<longleftrightarrow>
     (an_chosen s = None \<longleftrightarrow> an_eligible s = 0) \<and>
     (\<forall>cd. an_chosen s = Some cd \<longrightarrow>
        (\<exists>n sr. (n, sr) \<in> set items \<and> sr_Cluster sr = pc_Name cluster \<and> vindex_Type (sr_Vindex sr) = VindexTypeHash \<and>
           cd_keyspace cd = sr_Keyspace sr \<and> cd_entry cd \<in> set (sr_Ranges sr) \<and> cd_shard cd = entry_Shard (cd_entry cd) \<and>
           range_count (sr_Ranges sr) (cd_shard cd) = 1))"

lemma entry_step_ok:
  assumes "scan_ok cluster items s" and "(n, sr) \<in> set items" and "sr_Cluster sr = pc_Name cluster"
    and "vindex_Type (sr_Vindex sr) = VindexTypeHash" and "entry \<in> set (sr_Ranges sr)"
  shows "scan_ok cluster items (entry_step cluster triggers obs now sr s entry)"
proof (cases "entry_Shard entry = [] \<or> range_count (sr_Ranges sr) (entry_Shard entry) \<noteq> 1")
  case True
  with assms(1) show ?thesis by (simp add: entry_step_def)
next
  case False
  define t where "t = autoSplitTriggerBreached triggers (observe obs (entry_Shard entry))"
  obtain b m where b: "autoSplitSustained (breach_key cluster (sr_Keyspace sr) (entry_Shard entry)) (tb_breached t) now
      (autoSplitDuration triggers) (an_breach s) = (b, m)" by fastforce
  define s1 where "s1 = (if tb_enabledLat t then s\<lparr>an_unsourcedTrigger := True\<rparr> else s)"
  have s1: "an_breach s1 = an_breach s" "an_chosen s1 = an_chosen s" "an_eligible s1 = an_eligible s" by (simp_all add: s1_def)
  have "entry_step cluster triggers obs now sr s entry =
      (if \<not> b then s1\<lparr>an_breach := m\<rparr>
       else s1\<lparr>an_breach := m, an_eligible := Suc (an_eligible s),
               an_chosen := (case an_chosen s of None \<Rightarrow>
                   Some \<lparr>cd_keyspace = sr_Keyspace sr, cd_shard = entry_Shard entry, cd_entry = entry\<rparr> | Some cd \<Rightarrow> Some cd)\<rparr>)"
    using False b s1 unfolding entry_step_def Let_def t_def [symmetric] s1_def [symmetric] by simp
  then show ?thesis
    using assms False s1 unfolding scan_ok_def by (auto split: option.splits)
qed

lemma table_step_ok:
  assumes "scan_ok cluster items s" and "item \<in> set items"
  shows "scan_ok cluster items (table_step cluster triggers obs now s item)"
proof -
  obtain n sr where item: "item = (n, sr)" by fastforce
  have "scan_ok cluster items (foldl (entry_step cluster triggers obs now sr) s es)"
    if "set es \<subseteq> set (sr_Ranges sr)" "sr_Cluster sr = pc_Name cluster" "vindex_Type (sr_Vindex sr) = VindexTypeHash" for es
    using that assms(1)
  proof (induction es arbitrary: s)
    case (Cons e es)
    then show ?case using entry_step_ok [of cluster items s n sr e triggers obs now] assms(2) item by simp
  qed simp
  with assms show ?thesis by (auto simp: table_step_def item Let_def scan_ok_def)
qed

lemma scan_tables_ok: "scan_ok cluster items (scan_tables cluster triggers obs now items breach)"
proof -
  have "scan_ok cluster items (foldl (table_step cluster triggers obs now) s is)"
    if "set is \<subseteq> set items" "scan_ok cluster items s" for s "is"
    using that by (induction "is" arbitrary: s) (simp_all add: table_step_ok)
  moreover have "scan_ok cluster items \<lparr>an_breach = breach, an_eligible = 0, an_chosen = None,
      an_unsourcedTrigger = False, an_unsupportedVindex = False\<rparr>" by (simp add: scan_ok_def)
  ultimately show ?thesis unfolding scan_tables_def by simp
qed

section \<open>The plan of a created job\<close>

lemma SplitHashRange_InrE:
  assumes "SplitHashRange lo hi = Inr r"
  obtains l h where "parseHashBound lo = Inr l" "parseHashBound hi = Inr h" "l < h"
proof -
  from assms obtain l h where lh: "parseHashBound lo = Inr l" "parseHashBound hi = Inr h" "\<not> h < l" "h \<noteq> l"
    by (auto simp: SplitHashRange_def split: sum.splits if_splits)
  then have "l < h" by simp
  with lh that show ?thesis by blast
qed

lemma computeHashSplitTargets_plan:
  assumes "computeHashSplitTargets entry = Inr ts"
  shows "ValidateSplitPlan (flattenTargetRanges ts) (flattenTargetRanges ts) = Inr () \<and>
    (canonical_entry entry \<longrightarrow> ValidateSplitPlan [entry] (flattenTargetRanges ts) = Inr ())"
proof -
  from assms obtain r where r: "SplitHashRange (entry_Lo entry) (entry_Hi entry) = Inr r"
    by (auto simp: computeHashSplitTargets_def split: sum.splits)
  obtain l h where lh: "parseHashBound (entry_Lo entry) = Inr l" "parseHashBound (entry_Hi entry) = Inr h" "l < h"
    using SplitHashRange_InrE [OF r] .
  obtain m where m: "SplitHashRange (entry_Lo entry) (entry_Hi entry) =
      Inr (formatHashBound l, formatHashBound m, formatHashBound (m + 1), formatHashBound h)"
    and cov: "\<And>s0 s1. covers_exactly [\<lparr>entry_Lo = formatHashBound l, entry_Hi = formatHashBound m, entry_Shard = s0\<rparr>,
           \<lparr>entry_Lo = formatHashBound (m + 1), entry_Hi = formatHashBound h, entry_Shard = s1\<rparr>] l h"
    using SplitHashRange_covers [OF lh] by metis
  obtain s0 s1 where ts: "flattenTargetRanges ts = [\<lparr>entry_Lo = formatHashBound l, entry_Hi = formatHashBound m, entry_Shard = s0\<rparr>,
           \<lparr>entry_Lo = formatHashBound (m + 1), entry_Hi = formatHashBound h, entry_Shard = s1\<rparr>]"
    using assms m by (auto simp: computeHashSplitTargets_def flattenTargetRanges_def Let_def)
  have can: "\<forall>e\<in>set (flattenTargetRanges ts). canonical_entry e" by (simp add: ts canonical_entry_def)
  have le: "l \<le> h" using lh(3) by simp
  have src: "covers_exactly [entry] l h"
    using lh by (auto simp: covers_exactly_def well_bounded_def entry_covers_def)
  show ?thesis
    using ValidateSplitPlan_coversI [OF can can le] ValidateSplitPlan_coversI [OF _ can le src] cov ts by auto
qed

lemma filter_single:
  assumes "e \<in> set es" and "range_count es (entry_Shard e) = 1"
  shows "filter (\<lambda>x. entry_Shard x = entry_Shard e) es = [e]"
proof -
  from assms(2) obtain y where y: "filter (\<lambda>x. entry_Shard x = entry_Shard e) es = [y]"
    by (auto simp: range_count_def length_Suc_conv)
  moreover have "e \<in> set (filter (\<lambda>x. entry_Shard x = entry_Shard e) es)" using assms(1) by simp
  ultimately show ?thesis by simp
qed

section \<open>Created jobs\<close>

lemma reconcileAutoSplit_created:
  assumes "reconcileAutoSplit c cluster obs now breach w = ((n, reason, MsgCreated k name), breach', w')"
  obtains as jobs items cd targets job where
    "pc_AutoSplit cluster = Some as" "as_Enabled as" "ac_ListJobs c w = Inr jobs" "ac_ListShardRanges c w = Inr items"
    "an_chosen (scan_tables cluster (as_Triggers as) obs now items breach) = Some cd"
    "computeHashSplitTargets (cd_entry cd) = Inr targets"
    "job = buildAutoSplitJob cluster (cd_keyspace cd) (cd_shard cd) (cd_entry cd) targets (as_RequireApproval as)"
    "name = sj_Name job" "ac_CreateJob c job w = (None, w')"
    "\<forall>j\<in>set jobs. sj_Cluster j = pc_Name cluster \<longrightarrow> \<not> shardSplitJobActive j \<and> sj_Name j \<noteq> name"
proof -
  from assms obtain as where as: "pc_AutoSplit cluster = Some as" "as_Enabled as" "pc_ShardingMode cluster = ShardingModeNative"
    by (auto simp: reconcileAutoSplit_def split: option.splits if_splits)
  from assms as obtain jobs items where l: "ac_ListJobs c w = Inr jobs" "ac_ListShardRanges c w = Inr items"
    by (auto simp: reconcileAutoSplit_def Let_def split: sum.splits)
  define s where "s = scan_tables cluster (as_Triggers as) obs now items breach"
  from assms as l obtain cd where cd: "an_chosen s = Some cd"
    by (cases "an_chosen s") (auto simp: reconcileAutoSplit_def Let_def s_def split: if_splits)
  let ?jobs = "filter (\<lambda>j. sj_Cluster j = pc_Name cluster) jobs"
  have na: "\<not> list_ex shardSplitJobActive ?jobs"
    and cr: "create_split c cluster (as_RequireApproval as) ?jobs (an_eligible s) cd w = ((n, reason, MsgCreated k name), w')"
    using assms as l cd by (auto simp: reconcileAutoSplit_def Let_def s_def split: if_splits prod.splits)
  from cr obtain targets where t: "computeHashSplitTargets (cd_entry cd) = Inr targets"
    by (auto simp: create_split_def split: sum.splits)
  define job where "job = buildAutoSplitJob cluster (cd_keyspace cd) (cd_shard cd) (cd_entry cd) targets (as_RequireApproval as)"
  have j: "sj_Name job \<notin> set (map sj_Name ?jobs)" "name = sj_Name job" "ac_CreateJob c job w = (None, w')"
    using cr t unfolding create_split_def job_def [symmetric]
    by (auto simp: Let_def job_def [symmetric] split: if_splits prod.splits option.splits CreateError.splits)
  have "\<forall>j\<in>set jobs. sj_Cluster j = pc_Name cluster \<longrightarrow> \<not> shardSplitJobActive j \<and> sj_Name j \<noteq> name"
    using na j(1,2) by (auto simp: list_ex_iff image_iff)
  then show ?thesis by (rule that [OF as(1,2) l cd [unfolded s_def] t job_def j(2,3)])
qed

lemma buildAutoSplitJob_admitted:
  assumes "computeHashSplitTargets entry = Inr targets"
  shows "nextPhase (buildAutoSplitJob cluster keyspace shard entry targets requireApproval) = (ShardSplitPhaseSnapshotWAL, [])"
proof -
  have "length targets = 2" using assms
    by (auto simp: computeHashSplitTargets_def Let_def split: sum.splits)
  with computeHashSplitTargets_plan [OF assms] show ?thesis
    by (auto simp: nextPhase_def buildAutoSplitJob_def)
qed

lemma reconcileAutoSplit_creates:
  assumes "pc_AutoSplit cluster = Some as" "as_Enabled as" "pc_ShardingMode cluster = ShardingModeNative"
    and "ac_ListJobs c w = Inr []" "ac_ListShardRanges c w = Inr items"
    and "an_chosen (scan_tables cluster (as_Triggers as) obs now items breach) = Some cd"
    and "computeHashSplitTargets (cd_entry cd) = Inr targets"
    and "ac_CreateJob c (buildAutoSplitJob cluster (cd_keyspace cd) (cd_shard cd) (cd_entry cd) targets (as_RequireApproval as)) w = (None, w')"
  obtains n k name breach' where
    "reconcileAutoSplit c cluster obs now breach w = ((n, autoSplitReasonEligible, MsgCreated k name), breach', w')"
  using assms by (simp add: reconcileAutoSplit_def create_split_def Let_def)

text \<open>An API with one table and a list of jobs, a cluster with automatic splits, and observations of a shard
  that is larger than the threshold.\<close>

definition mem_auto :: "(ShardSplitJob list \<times> (string \<times> ShardRangeSpec) list) AutoClient" where
  "mem_auto = \<lparr>ac_ListJobs = \<lambda>w. Inr (fst w), ac_ListShardRanges = \<lambda>w. Inr (snd w),
     ac_CreateJob = \<lambda>j w. (None, j # fst w, snd w)\<rparr>"

definition demo_auto :: PostgresCluster where
  "demo_auto = demo_cluster\<lparr>pc_Name := ''demo'', pc_Namespace := ''default'', pc_ShardingMode := ShardingModeNative,
     pc_AutoSplit := Some \<lparr>as_Enabled = True, as_RequireApproval = True,
       as_Triggers = Some \<lparr>tr_SizeThresholdGB = 100, tr_P99LatencyMs = 0, tr_CPUPercent = 0, tr_PVCUtilizationPercent = 0,
         tr_DurationMinutes = 10\<rparr>\<rparr>\<rparr>"

definition big_shard :: "ShardObservation list" where
  "big_shard = [no_observation\<lparr>ob_ShardID := ''shard-0'', ob_SizeBytes := 200 * bytesPerGB\<rparr>]"

text \<open>
  C7: A job that \<open>reconcileAutoSplit\<close> creates is a sound split. No active split job of the cluster exists and
  no job of its name. The job names a listed hash table of its cluster and keyspace; its only source is the
  shard of exactly one entry of that table. The plan check of the split controller admits it, it waits for
  approval exactly when the cluster requires that, and if the bounds of the entry are in the canonical form of
  eight hex digits, the ranges of its targets partition exactly the range of the source.
\<close>
theorem autosplit_job_sound:
  assumes "reconcileAutoSplit c cluster obs now breach w = ((n, reason, MsgCreated k name), breach', w')"
  shows "\<exists>as jobs items job tab sr entry.
    pc_AutoSplit cluster = Some as \<and> ac_ListJobs c w = Inr jobs \<and> ac_ListShardRanges c w = Inr items \<and>
    ac_CreateJob c job w = (None, w') \<and> sj_Name job = name \<and>
    (\<forall>j\<in>set jobs. sj_Cluster j = pc_Name cluster \<longrightarrow> \<not> shardSplitJobActive j \<and> sj_Name j \<noteq> name) \<and>
    (tab, sr) \<in> set items \<and> owns job sr \<and> sj_Cluster job = pc_Name cluster \<and> vindex_Type (sr_Vindex sr) = VindexTypeHash \<and>
    sj_Sources job = [entry_Shard entry] \<and> filter (\<lambda>e. entry_Shard e \<in> set (sj_Sources job)) (sr_Ranges sr) = [entry] \<and>
    nextPhase job = (ShardSplitPhaseSnapshotWAL, []) \<and> autoSplitHoldForApproval job = as_RequireApproval as \<and>
    (canonical_entry entry \<longrightarrow> ValidateSplitPlan [entry] (flattenTargetRanges (sj_Targets job)) = Inr ())"
proof -
  from reconcileAutoSplit_created [OF assms] obtain as jobs items cd targets job where
    a: "pc_AutoSplit cluster = Some as" "ac_ListJobs c w = Inr jobs" "ac_ListShardRanges c w = Inr items"
    "an_chosen (scan_tables cluster (as_Triggers as) obs now items breach) = Some cd"
    and t: "computeHashSplitTargets (cd_entry cd) = Inr targets"
    and job: "job = buildAutoSplitJob cluster (cd_keyspace cd) (cd_shard cd) (cd_entry cd) targets (as_RequireApproval as)"
    and b: "name = sj_Name job" "ac_CreateJob c job w = (None, w')"
    "\<forall>j\<in>set jobs. sj_Cluster j = pc_Name cluster \<longrightarrow> \<not> shardSplitJobActive j \<and> sj_Name j \<noteq> name" by metis
  from scan_tables_ok [of cluster items "as_Triggers as" obs now breach] a(4) obtain tab sr where
    sr: "(tab, sr) \<in> set items" "sr_Cluster sr = pc_Name cluster" "vindex_Type (sr_Vindex sr) = VindexTypeHash"
    "cd_keyspace cd = sr_Keyspace sr" "cd_entry cd \<in> set (sr_Ranges sr)" "cd_shard cd = entry_Shard (cd_entry cd)"
    "range_count (sr_Ranges sr) (entry_Shard (cd_entry cd)) = 1"
    unfolding scan_ok_def by metis
  have f: "sj_Sources job = [entry_Shard (cd_entry cd)]" "owns job sr" "sj_Cluster job = pc_Name cluster" "sj_Targets job = targets"
    "autoSplitHoldForApproval job = as_RequireApproval as"
    using sr by (auto simp: job buildAutoSplitJob_def owns_def autoSplitHoldForApproval_def label_of_def
        AnnotationAutoSplit_def AnnotationAutoSplitApproval_def AnnotationAutoSplitApproved_def)
  have one: "filter (\<lambda>e. entry_Shard e \<in> set (sj_Sources job)) (sr_Ranges sr) = [cd_entry cd]"
    using filter_single [OF sr(5,7)] f(1) by simp
  have adm: "nextPhase job = (ShardSplitPhaseSnapshotWAL, [])" using buildAutoSplitJob_admitted [OF t] job by simp
  have plan: "canonical_entry (cd_entry cd) \<longrightarrow> ValidateSplitPlan [cd_entry cd] (flattenTargetRanges (sj_Targets job)) = Inr ()"
    using computeHashSplitTargets_plan [OF t] f(4) by simp
  show ?thesis
    by (intro exI conjI, rule a(1), rule a(2), rule a(3), rule b(2), rule b(1) [symmetric], rule b(3), rule sr(1), rule f(2),
        rule f(3), rule sr(3), rule f(1), rule one, rule adm, rule f(5), rule plan)
qed

definition demo_auto_world :: "ShardSplitJob list \<times> (string \<times> ShardRangeSpec) list" where
  "demo_auto_world = ([], [(''ks'', demo_table)])"

lemma demo_auto_scan:
  "an_chosen (scan_tables demo_auto (as_Triggers (the (pc_AutoSplit demo_auto))) big_shard (10 * minute) (snd demo_auto_world)
      [breach_key demo_auto ''ks'' ''shard-0'' \<mapsto> 0]) =
   Some \<lparr>cd_keyspace = ''ks'', cd_shard = ''shard-0'', cd_entry = demo_entry ''0x00000000'' ''0x7fffffff'' ''shard-0''\<rparr>"
  by code_simp

lemma demo_auto_targets: "\<exists>ts. computeHashSplitTargets (demo_entry ''0x00000000'' ''0x7fffffff'' ''shard-0'') = Inr ts"
proof -
  have "SplitHashRange ''0x00000000'' ''0x7fffffff'' = Inr (''0x00000000'', ''0x3fffffff'', ''0x40000000'', ''0x7fffffff'')"
    by code_simp
  then show ?thesis by (simp add: computeHashSplitTargets_def demo_entry_def Let_def)
qed

lemma demo_auto_creates:
  obtains n k name job breach' where
    "reconcileAutoSplit mem_auto demo_auto big_shard (10 * minute) [breach_key demo_auto ''ks'' ''shard-0'' \<mapsto> 0] demo_auto_world =
       ((n, autoSplitReasonEligible, MsgCreated k name), breach', [job], snd demo_auto_world)"
    "sj_Sources job = [''shard-0'']" "sj_Keyspace job = ''ks''"
proof -
  from demo_auto_targets obtain ts where
    t: "computeHashSplitTargets (demo_entry ''0x00000000'' ''0x7fffffff'' ''shard-0'') = Inr ts" by blast
  define as where "as = the (pc_AutoSplit demo_auto)"
  have as: "pc_AutoSplit demo_auto = Some as" "as_Enabled as" "pc_ShardingMode demo_auto = ShardingModeNative"
    by (simp_all add: demo_auto_def as_def)
  have l: "ac_ListJobs mem_auto demo_auto_world = Inr []"
    "ac_ListShardRanges mem_auto demo_auto_world = Inr (snd demo_auto_world)"
    by (simp_all add: mem_auto_def demo_auto_world_def)
  have create: "ac_CreateJob mem_auto j demo_auto_world = (None, [j], snd demo_auto_world)" for j
    by (simp add: mem_auto_def demo_auto_world_def)
  show ?thesis
    by (rule reconcileAutoSplit_creates [OF as l demo_auto_scan [folded as_def], unfolded candidate.simps, OF t create])
      (erule that, simp_all add: buildAutoSplitJob_def)
qed

theorem autosplit_job_sound_witness:
  "\<exists>job. fst (snd (snd (reconcileAutoSplit mem_auto demo_auto big_shard (10 * minute)
        [breach_key demo_auto ''ks'' ''shard-0'' \<mapsto> 0] demo_auto_world))) = [job] \<and>
     sj_Sources job = [''shard-0''] \<and> nextPhase job = (ShardSplitPhaseSnapshotWAL, []) \<and> autoSplitHoldForApproval job"
proof -
  obtain n k name job breach' where
    r: "reconcileAutoSplit mem_auto demo_auto big_shard (10 * minute) [breach_key demo_auto ''ks'' ''shard-0'' \<mapsto> 0] demo_auto_world =
       ((n, autoSplitReasonEligible, MsgCreated k name), breach', [job], snd demo_auto_world)"
    and s: "sj_Sources job = [''shard-0'']"
    by (rule demo_auto_creates)
  from autosplit_job_sound [OF r] obtain as job' where
    as: "pc_AutoSplit demo_auto = Some as" and c: "ac_CreateJob mem_auto job' demo_auto_world = (None, [job], snd demo_auto_world)"
    and p: "nextPhase job' = (ShardSplitPhaseSnapshotWAL, [])" and h: "autoSplitHoldForApproval job' = as_RequireApproval as"
    by metis
  have "job' = job" using c by (simp add: mem_auto_def demo_auto_world_def)
  moreover have "as_RequireApproval as" using as by (auto simp: demo_auto_def)
  ultimately show ?thesis using r s p h by simp
qed

section \<open>Breaches must last\<close>

interpretation breach: sustained_gate "\<lambda>k f c n m. autoSplitSustained k f n dur m" dur "\<lambda>_. True" for dur
  by unfold_locales (auto simp: autoSplitSustained_def split: option.splits)

text \<open>The evaluations of the window in one round, in their order, and the table after a sequence of them;
  the table does not depend on the durations.\<close>

definition entry_trace ::
  "PostgresCluster \<Rightarrow> AutoSplitTriggers option \<Rightarrow> ShardObservation list \<Rightarrow> time \<Rightarrow> ShardRangeSpec \<Rightarrow> ShardRangeEntry \<Rightarrow>
   (string \<times> observation) list" where
  "entry_trace cluster triggers obs now sr entry =
     (if entry_Shard entry = [] \<or> range_count (sr_Ranges sr) (entry_Shard entry) \<noteq> 1 then []
      else [(breach_key cluster (sr_Keyspace sr) (entry_Shard entry),
             tb_breached (autoSplitTriggerBreached triggers (observe obs (entry_Shard entry))), True, now)])"

definition table_trace ::
  "PostgresCluster \<Rightarrow> AutoSplitTriggers option \<Rightarrow> ShardObservation list \<Rightarrow> time \<Rightarrow> string \<times> ShardRangeSpec \<Rightarrow>
   (string \<times> observation) list" where
  "table_trace cluster triggers obs now item =
     (if sr_Cluster (snd item) \<noteq> pc_Name cluster \<or> vindex_Type (sr_Vindex (snd item)) \<noteq> VindexTypeHash then []
      else concat (map (entry_trace cluster triggers obs now (snd item)) (sr_Ranges (snd item))))"

definition windows :: "(string \<times> observation) list \<Rightarrow> (string \<rightharpoonup> time)" where
  "windows os = foldl (breach.evaluate 0) Map.empty os"

lemma sustained_table: "snd (autoSplitSustained k f now dur m) = snd (autoSplitSustained k f now 0 m)"
  by (simp add: autoSplitSustained_def split: option.splits)

lemma evaluate_dur: "breach.evaluate dur = breach.evaluate 0"
  unfolding fun_eq_iff breach.evaluate_def sustained_table [of _ _ _ dur] by simp

lemma windows_snoc:
  "windows (os @ [(k, f, True, now)]) = snd (autoSplitSustained k f now dur (windows os))"
  unfolding sustained_table [of k f now dur] by (simp add: windows_def breach.evaluate_def)

lemma sustained_window:
  assumes "fst (autoSplitSustained k f now dur (windows os))"
  shows "\<exists>t. window_open (\<lambda>_. True) (trace_of k (os @ [(k, f, True, now)])) t \<and> dur \<le> now - t"
proof -
  have "foldl (breach.evaluate dur) Map.empty os = windows os" by (simp add: windows_def evaluate_dur [of dur])
  with assms breach.opens_after_window [of k f now dur os True] show ?thesis by (simp add: trace_of_snoc)
qed

text \<open>After the evaluations \<open>os\<close>, the table is theirs, and a chosen candidate had its window at its evaluation.\<close>

definition justified :: "PostgresCluster \<Rightarrow> time \<Rightarrow> time \<Rightarrow> (string \<times> observation) list \<Rightarrow> candidate \<Rightarrow> bool" where
  "justified cluster dur now os cd \<longleftrightarrow>
     (\<exists>pre post t. let k = breach_key cluster (cd_keyspace cd) (cd_shard cd) in
        os = pre @ (k, True, True, now) # post \<and> window_open (\<lambda>_. True) (trace_of k (pre @ [(k, True, True, now)])) t \<and>
        dur \<le> now - t)"

lemma justified_more: "justified cluster dur now os cd \<Longrightarrow> justified cluster dur now (os @ os') cd"
  unfolding justified_def Let_def by force

definition scanned :: "PostgresCluster \<Rightarrow> time \<Rightarrow> time \<Rightarrow> (string \<times> observation) list \<Rightarrow> Scan \<Rightarrow> bool" where
  "scanned cluster dur now os s \<longleftrightarrow>
     an_breach s = windows os \<and> (\<forall>cd. an_chosen s = Some cd \<longrightarrow> justified cluster dur now os cd)"

lemma entry_step_scanned:
  assumes "scanned cluster (autoSplitDuration triggers) now os s"
  shows "scanned cluster (autoSplitDuration triggers) now (os @ entry_trace cluster triggers obs now sr entry)
    (entry_step cluster triggers obs now sr s entry)"
proof (cases "entry_Shard entry = [] \<or> range_count (sr_Ranges sr) (entry_Shard entry) \<noteq> 1")
  case True
  with assms show ?thesis by (simp add: entry_step_def entry_trace_def)
next
  case False
  define k where "k = breach_key cluster (sr_Keyspace sr) (entry_Shard entry)"
  define f where "f = tb_breached (autoSplitTriggerBreached triggers (observe obs (entry_Shard entry)))"
  define dur where "dur = autoSplitDuration triggers"
  define s' where "s' = entry_step cluster triggers obs now sr s entry"
  let ?os = "os @ [(k, f, True, now)]"
  have tr: "entry_trace cluster triggers obs now sr entry = [(k, f, True, now)]"
    using False by (simp add: entry_trace_def k_def f_def)
  obtain b m where b: "autoSplitSustained k f now dur (an_breach s) = (b, m)" by fastforce
  have w: "an_breach s = windows os" using assms by (simp add: scanned_def)
  have m: "m = windows ?os" using b w windows_snoc [of os k f now dur] by simp
  have old: "an_chosen s = Some cd \<Longrightarrow> justified cluster dur now ?os cd" for cd
    using assms justified_more by (auto simp: scanned_def dur_def)
  have new: "justified cluster dur now ?os \<lparr>cd_keyspace = sr_Keyspace sr, cd_shard = entry_Shard entry, cd_entry = entry\<rparr>" if b
  proof -
    have g: "fst (autoSplitSustained k f now dur (windows os))" using that b w by simp
    then have f by (auto simp: autoSplitSustained_def split: if_splits)
    with sustained_window [OF g] show ?thesis unfolding justified_def Let_def by (auto simp: k_def)
  qed
  have "an_breach s' = m" and "an_chosen s' = (if b \<and> an_chosen s = None
      then Some \<lparr>cd_keyspace = sr_Keyspace sr, cd_shard = entry_Shard entry, cd_entry = entry\<rparr> else an_chosen s)"
    using False b unfolding s'_def entry_step_def Let_def k_def f_def dur_def by (auto split: option.splits)
  with m old new show ?thesis unfolding scanned_def tr s'_def [symmetric] dur_def [symmetric] by (auto split: if_splits)
qed

lemma entries_scanned:
  assumes "scanned cluster (autoSplitDuration triggers) now os s"
  shows "scanned cluster (autoSplitDuration triggers) now (os @ concat (map (entry_trace cluster triggers obs now sr) es))
    (foldl (entry_step cluster triggers obs now sr) s es)"
  using assms
proof (induction es arbitrary: os s)
  case (Cons e es)
  from Cons.IH [OF entry_step_scanned [OF Cons.prems, of obs sr e]] show ?case by simp
qed simp

lemma table_step_scanned:
  assumes "scanned cluster (autoSplitDuration triggers) now os s"
  shows "scanned cluster (autoSplitDuration triggers) now (os @ table_trace cluster triggers obs now item)
    (table_step cluster triggers obs now s item)"
  using assms entries_scanned [OF assms, of obs "snd item" "sr_Ranges (snd item)"]
  by (auto simp: table_step_def table_trace_def Let_def scanned_def)

definition scan_trace ::
  "PostgresCluster \<Rightarrow> AutoSplitTriggers option \<Rightarrow> ShardObservation list \<Rightarrow> time \<Rightarrow> (string \<times> ShardRangeSpec) list \<Rightarrow>
   (string \<times> observation) list" where
  "scan_trace cluster triggers obs now items =
     concat (map (table_trace cluster triggers obs now) (sort_key (\<lambda>item. sr_Keyspace (snd item)) items))"

lemma scan_tables_scanned:
  "scanned cluster (autoSplitDuration triggers) now (os @ scan_trace cluster triggers obs now items)
    (scan_tables cluster triggers obs now items (windows os))"
proof -
  have "scanned cluster (autoSplitDuration triggers) now (os @ concat (map (table_trace cluster triggers obs now) is))
      (foldl (table_step cluster triggers obs now) s is)" if "scanned cluster (autoSplitDuration triggers) now os s" for s "is" os
    using that
  proof (induction "is" arbitrary: os s)
    case (Cons i "is")
    from Cons.IH [OF table_step_scanned [OF Cons.prems, of obs i]] show ?case by simp
  qed simp
  moreover have "scanned cluster (autoSplitDuration triggers) now os \<lparr>an_breach = windows os, an_eligible = 0,
      an_chosen = None, an_unsourcedTrigger = False, an_unsupportedVindex = False\<rparr>" by (simp add: scanned_def)
  ultimately show ?thesis unfolding scan_tables_def scan_trace_def by blast
qed

text \<open>A sequence of rounds: for each the cluster, the observations, the time and the state of the API.\<close>

type_synonym 'w round = "PostgresCluster \<times> ShardObservation list \<times> time \<times> 'w"

fun autosplit_rounds :: "'w AutoClient \<Rightarrow> 'w round list \<Rightarrow> (string \<rightharpoonup> time) \<Rightarrow> (string \<rightharpoonup> time)" where
  "autosplit_rounds c [] m = m"
| "autosplit_rounds c ((cluster, obs, now, w) # rs) m =
     autosplit_rounds c rs (fst (snd (reconcileAutoSplit c cluster obs now m w)))"

text \<open>The evaluations that a round makes: none where it returns before its scan.\<close>

fun round_trace :: "'w AutoClient \<Rightarrow> 'w round \<Rightarrow> (string \<times> observation) list" where
  "round_trace c (cluster, obs, now, w) =
     (case (pc_AutoSplit cluster, ac_ListJobs c w, ac_ListShardRanges c w) of
        (Some as, Inr _, Inr items) \<Rightarrow>
          if as_Enabled as \<and> pc_ShardingMode cluster = ShardingModeNative
          then scan_trace cluster (as_Triggers as) obs now items else []
      | _ \<Rightarrow> [])"

lemma reconcileAutoSplit_windows:
  "fst (snd (reconcileAutoSplit c cluster obs now (windows os) w)) = windows (os @ round_trace c (cluster, obs, now, w))"
proof -
  have "an_breach (scan_tables cluster tr obs now items (windows os)) = windows (os @ scan_trace cluster tr obs now items)"
    for tr items using scan_tables_scanned [of cluster tr now os obs items] by (simp add: scanned_def)
  then show ?thesis
    by (auto simp: reconcileAutoSplit_def Let_def split: option.splits sum.splits prod.splits)
qed

lemma autosplit_rounds_windows:
  "autosplit_rounds c rs (windows os) = windows (os @ concat (map (round_trace c) rs))"
proof (induction rs arbitrary: os)
  case (Cons r rs)
  obtain cluster obs now w where "r = (cluster, obs, now, w)" by (cases r)
  with Cons reconcileAutoSplit_windows [of c cluster obs now os w] show ?case by simp
qed simp


lemma demo_rounds:
  "autosplit_rounds mem_auto [(demo_auto, big_shard, 0, demo_auto_world)] Map.empty = [breach_key demo_auto ''ks'' ''shard-0'' \<mapsto> 0]"
proof -
  have s: "round_trace mem_auto (demo_auto, big_shard, 0, demo_auto_world) =
      [(breach_key demo_auto ''ks'' ''shard-0'', True, True, 0), (breach_key demo_auto ''ks'' ''shard-1'', False, True, 0)]"
    by code_simp
  have "autosplit_rounds mem_auto [(demo_auto, big_shard, 0, demo_auto_world)] (windows []) =
      windows [(breach_key demo_auto ''ks'' ''shard-0'', True, True, 0), (breach_key demo_auto ''ks'' ''shard-1'', False, True, 0)]"
    unfolding autosplit_rounds_windows by (simp add: s del: round_trace.simps)
  then show ?thesis by (simp add: windows_def breach.evaluate_def) (simp add: autoSplitSustained_def breach_key_def fun_eq_iff)
qed


section \<open>The utilisation trigger\<close>

text \<open>
  C33: The utilisation trigger is exact for every capacity and every size up to 92 petabytes and a threshold of
  at most 100 percent: it fires exactly when the size is at least that share of the capacity. Beyond this the products of the
  comparison leave the range of \<open>int64\<close>: there is a full volume that does not fire at 80 percent.
\<close>
theorem pvcUtilizationBreached_exact:
  "(0 \<le> thr \<longrightarrow> thr \<le> 100 \<longrightarrow> ob_SizeBytes ob \<le> 92 * 10 ^ 15 \<longrightarrow> ob_PVCCapacityBytes ob \<le> 92 * 10 ^ 15 \<longrightarrow>
     pvcUtilizationBreached ob thr =
       (0 < ob_SizeBytes ob \<and> 0 < ob_PVCCapacityBytes ob \<and> thr * ob_PVCCapacityBytes ob \<le> 100 * ob_SizeBytes ob)) \<and>
   (\<exists>full. ob_SizeBytes full < 2 ^ 63 \<and> ob_SizeBytes full = ob_PVCCapacityBytes full \<and> \<not> pvcUtilizationBreached full 80)"
proof (rule conjI, intro impI)
  assume b: "0 \<le> thr" "thr \<le> 100" "ob_SizeBytes ob \<le> 92 * 10 ^ 15" "ob_PVCCapacityBytes ob \<le> 92 * 10 ^ 15"
  show "pvcUtilizationBreached ob thr =
       (0 < ob_SizeBytes ob \<and> 0 < ob_PVCCapacityBytes ob \<and> thr * ob_PVCCapacityBytes ob \<le> 100 * ob_SizeBytes ob)"
  proof (cases "0 < ob_SizeBytes ob \<and> 0 < ob_PVCCapacityBytes ob")
    case True
    have "thr * ob_PVCCapacityBytes ob \<le> 100 * (92 * 10 ^ 15)" using b True by (intro mult_mono) auto
    moreover have "- (2 ^ 63) \<le> thr * ob_PVCCapacityBytes ob" using b True by (intro order_trans [OF _ mult_nonneg_nonneg]) auto
    ultimately have "wrap64 (thr * ob_PVCCapacityBytes ob) = thr * ob_PVCCapacityBytes ob" by (intro wrap64_id) auto
    moreover have "wrap64 (ob_SizeBytes ob * 100) = ob_SizeBytes ob * 100" using b True by (intro wrap64_id) auto
    ultimately show ?thesis using True by (simp add: pvcUtilizationBreached_def mult.commute)
  qed (auto simp: pvcUtilizationBreached_def)
next
  let ?full = "no_observation\<lparr>ob_SizeBytes := 10 ^ 17, ob_PVCCapacityBytes := 10 ^ 17\<rparr>"
  have "\<not> pvcUtilizationBreached ?full 80" by code_simp
  then show "\<exists>full. ob_SizeBytes full < 2 ^ 63 \<and> ob_SizeBytes full = ob_PVCCapacityBytes full \<and> \<not> pvcUtilizationBreached full 80"
    by (intro exI [of _ ?full]) simp
qed

theorem pvcUtilizationBreached_exact_witness:
  "pvcUtilizationBreached (no_observation\<lparr>ob_SizeBytes := 85 * bytesPerGB, ob_PVCCapacityBytes := 100 * bytesPerGB\<rparr>) 80"
  using pvcUtilizationBreached_exact [of 80 "no_observation\<lparr>ob_SizeBytes := 85 * bytesPerGB, ob_PVCCapacityBytes := 100 * bytesPerGB\<rparr>"]
  by (simp add: bytesPerGB_def)

section \<open>Products of an automatic split\<close>

text \<open>
  C37: The automatic splitter cannot split its own products. The shard ids it gives to the targets of a split are
  not of the form \<open>shard-N\<close>, and the copy step resolves only such sources: the reconcile of a later offline split job
  whose source is such a target, in the phase \<open>InitialCopy\<close>, records the job as failed.
\<close>
theorem autosplit_product_not_splittable:
  assumes "computeHashSplitTargets entry = Inr ts" and "t \<in> set ts"
    and "sc_GetSSJ c w = Inr j" "sj_Phase j = ShardSplitPhaseInitialCopy" "\<not> sj_Online j"
    and "sj_Sources j = [tg_ShardID t]" "sj_Direction j = ShardSplitDirectionSplit" and "keyspaceVindex c j w = Inr v"
  shows "\<exists>msg. Reconcile_SSJ L c copyTimeout now w = store_failure c now msg j w"
proof -
  obtain a where "tg_ShardID t = CHR ''a'' # a"
    using assms(1,2) by (auto simp: computeHashSplitTargets_def Let_def split: sum.splits)
  then have "sourceShardPodDNS (sj_Cluster j) (sj_Namespace j) (tg_ShardID t) = None"
    by (simp add: sourceShardPodDNS_def)
  with assms show ?thesis
    by (auto simp: Reconcile_SSJ_def unsupportedSplitSpecReason_def run_phase_def await_jobs_def reconcileInitialCopy_def
        reconcileModeJobs_def)
qed

text \<open>A later split of the lower half of the table, in its copy phase.\<close>

definition second_split :: "string \<Rightarrow> SplitStore" where
  "second_split shard =
     demo_splits\<lparr>ms_job := Some (demo_split\<lparr>sj_Sources := [shard], sj_Phase := ShardSplitPhaseInitialCopy\<rparr>)\<rparr>"

theorem autosplit_product_not_splittable_witness:
  "\<exists>ts msg. computeHashSplitTargets (demo_entry ''0x00000000'' ''0x7fffffff'' ''shard-0'') = Inr ts \<and>
     ms_job (snd (Reconcile_SSJ list_conditions mem_split [] 0 (second_split (tg_ShardID (hd ts))))) =
       map_option (fail_job 0 msg) (ms_job (second_split (tg_ShardID (hd ts))))"
proof -
  from demo_auto_targets obtain ts where
    ts: "computeHashSplitTargets (demo_entry ''0x00000000'' ''0x7fffffff'' ''shard-0'') = Inr ts" by blast
  then have hd: "hd ts \<in> set ts" by (auto simp: computeHashSplitTargets_def Let_def split: sum.splits)
  define j where "j = demo_split\<lparr>sj_Sources := [tg_ShardID (hd ts)], sj_Phase := ShardSplitPhaseInitialCopy\<rparr>"
  define w where "w = second_split (tg_ShardID (hd ts))"
  have w: "ms_job w = Some j" "ms_ranges w = [(''ks'', demo_table)]" "ms_refuse w = False" "ms_lose w = False"
    by (simp_all add: w_def j_def second_split_def demo_splits_def)
  have j: "sj_Phase j = ShardSplitPhaseInitialCopy" "\<not> sj_Online j" "sj_Sources j = [tg_ShardID (hd ts)]"
    "sj_Direction j = ShardSplitDirectionSplit" by (simp_all add: j_def demo_split_def)
  have get: "sc_GetSSJ mem_split w = Inr j" using w by (simp add: mem_split_def)
  have v: "keyspaceVindex mem_split j w = Inr (sr_Vindex demo_table, [])"
    using w by (simp add: keyspaceVindex_def mem_split_def keyspace_range_def j_def demo_split_def demo_table_def)
  from autosplit_product_not_splittable [OF ts hd get j v, of list_conditions "[]" 0] obtain msg where
    r: "Reconcile_SSJ list_conditions mem_split [] 0 w = store_failure mem_split 0 msg j w" by blast
  have "ms_job (snd (store_failure mem_split 0 msg j w)) = Some (fail_job 0 msg j)"
    using w by (simp add: store_failure_def mem_split_def)
  with r ts w show ?thesis unfolding w_def by auto
qed

end
