(* ===== verification/Spec2Isabelle.thy ===== *)
theory Spec2Isabelle
  imports Prelude Float64 Vindex Consistent_Hash Resharding Tokenizer Scatter Scatter_Correct Pgwire Sql_Route
    Cluster_Types Query_Router Session Session_Correct Names Kube Failover Aggregate_Status Sustained Promoter
    Promoter_Correct Cluster_Conditions Shard_Split Shard_Split_Correct Split_Runs Auto_Split Auto_Split_Correct
begin

text \<open>
  Verification of the sharding and failover core of the PostgreSQL operator.

  \<^bold>\<open>The program.\<close> The operator reconciles clusters whose tables are spread over shards, each a primary with replicas. The
  routing library (\<open>src/internal/router\<close>) finds the shard of a query; the router process (\<open>src/cmd/pg-router\<close>) speaks the wire
  protocol with clients and uses that library for every query; the controllers (\<open>src/internal/controller\<close>) watch the shards, promote
  a replica when a primary fails, and split shards by moving data and then changing the routing table that the router reads.

  \<^bold>\<open>Routing.\<close> \<open>Vindex\<close> models \<open>vindex.go\<close> (hash functions on 32-bit words, bounds, hash and range resolution, overlap check),
  \<open>Consistent_Hash\<close> models \<open>vindex_consistent.go\<close> with its cache as explicit state, \<open>Resharding\<close> models \<open>resharding.go\<close>. They show
  that a validated table resolves every covered hash to its only owner, that the ring moves only keys of the changed shard, that the cache is
  transparent, and that an accepted split plan covers exactly its source. \<open>Tokenizer\<close> (\<open>route_extractor_parser.go\<close>) and \<open>Sql_Route\<close>
  (\<open>sql_route.go\<close>, \<open>route_extractor.go\<close>, with leftmost-first matching of its patterns) extract keys; their theorems are round trips on rendered
  statements. \<open>Query_Router\<close> models \<open>query_router.go\<close>, \<open>topology.go\<close> and \<open>reference.go\<close>: a decision names an owner of the key and an
  insert of several rows is never split silently. \<open>Cluster_Types\<close> holds the API types they read.

  \<^bold>\<open>Scattered queries.\<close> \<open>Float64\<close> models the numbers, their parsing and printing as the standard library does them, as far as the merge uses
  them. \<open>Scatter\<close> models \<open>scatter.go\<close>, \<open>scatter_aggregate.go\<close> and \<open>aggregate_detect.go\<close>; the order of arrival of answers is an argument.
  \<open>Scatter_Correct\<close> shows that this order is irrelevant, that pushing down a limit is exact, and that partial aggregates recombine to the aggregates of the
  whole table, and lists queries for which they do not. Its locale \<open>weak_order\<close> states what a stable sort needs and is
  interpreted on the comparison of rows.

  \<^bold>\<open>Client sessions.\<close> \<open>Pgwire\<close> models \<open>pgwire.go\<close>, the startup and error messages of \<open>main.go\<close> and the merge of \<open>scattermode.go\<close>;
  a connection is read as the bytes that arrive before it ends, and messages and rows survive encoding and decoding. \<open>Session\<close> models \<open>querymode.go\<close>, \<open>persession.go\<close> and \<open>extsession.go\<close>: the
  state of a session is the record \<open>session\<close> with the histories of what was written, \<open>session_step\<close> handles one message. Opening a backend and what
  it answers are arguments. \<open>Session_Correct\<close> shows that every request is answered once, that writes outside a transaction reach
  the primary that owns their key, and that a transaction stays on one backend; and it shows writes that reach the wrong server.

  \<^bold>\<open>Failover.\<close> \<open>Names\<close> and \<open>Kube\<close> hold object names and the parts of the Kubernetes API that the controllers call, as a
  record of operations on an opaque world; what they rely on is stated as laws, which an in-memory store satisfies. \<open>Failover\<close> models
  detection, candidate selection and volume fences (\<open>detection.go\<close>, \<open>promotion.go\<close>, \<open>pvc_fence_runbook.go\<close>), \<open>Aggregate_Status\<close> models
  \<open>aggregate_status.go\<close>, \<open>Promoter\<close> models \<open>failover_promoter.go\<close>, \<open>stale_replica_reseed.go\<close> and the failover part of
  \<open>postgrescluster_controller.go\<close>. \<open>Promoter_Correct\<close> shows that after a promotion one member is unfenced, that a promotion needs a
  failure observed for the whole debounce window, and that reseeding spares serving members. \<open>Sustained\<close> is the shared theory of such
  windows. \<open>Cluster_Conditions\<close> models \<open>status.go\<close>, \<open>replica_cluster.go\<close> and \<open>replication_health.go\<close>.

  \<^bold>\<open>Shard splits.\<close> \<open>Shard_Split\<close> models \<open>shardsplitjob_controller.go\<close>, \<open>shardsplitjob_copy.go\<close> and \<open>shardsplitjob_abort.go\<close>: one
  reconcile with all its phases. \<open>Shard_Split_Correct\<close> relates it to an abstract machine over phase and routing table, and \<open>Split_Runs\<close>
  proves the refinement and its consequences for runs: the table is untouched before the cutover, blocked during it and merged afterwards, and the number of
  phase changes is bounded. \<open>Auto_Split\<close> and \<open>Auto_Split_Correct\<close> do the same for \<open>autosplit.go\<close> and \<open>autosplit_cpu.go\<close>.

  \<^bold>\<open>Bounds and recursion.\<close> Strings are lists of bytes, with the case functions of ASCII. Hashes are 32-bit words; \<open>int64\<close> and \<open>int32\<close>
  are integers with the wrap-around written out where it can occur. No model runs out of fuel: loops are structural or have a termination proof by
  the length of the input that is left, and a run of reconciles or of a session is a list of events.

  \<^bold>\<open>Not modelled.\<close> Dialling with its circuit breaker, SCRAM authentication, listeners, metrics and the watch loop of the router; the
  rendering of Kubernetes objects (builders, pooler, TLS, disruption budgets); backups, databases, users, plugins and the admission webhook; the instance
  manager, leader election and supervision of the server process; the SQL of the data copy. They are I/O, object rendering, or independent of
  the routing and failover core. Also left out: texts of log lines and of error messages where they are not sent to a client, and values of type
  \<open>float32\<close>.
\<close>

end
